(* ===== verification/Go_Prelude.thy ===== *)
theory Go_Prelude
  imports Main "HOL-Library.Sublist" "HOL-Library.Word" "HOL-Library.State_Monad"
begin

text \<open>
  What the Go code of the operator takes from the language and its standard library, shared
  by every component: byte strings and the functions of the packages strings, strconv and fmt
  that the code calls, errors as values, panics, machine integers, and a state monad with a
  weakest-precondition calculus for the code that talks to the cluster.

  A Go string is a sequence of bytes, so it is a HOL \<open>string\<close> (a list of 8-bit characters).
\<close>

named_theorems go_simps \<open>facts that evaluate the Go standard-library functions\<close>
named_theorems wp_simps \<open>weakest preconditions of the building blocks of an effectful function\<close>
named_theorems wp_calls \<open>rules that replace a call of an outside service by any answer it may give\<close>

section \<open>Integers\<close>

type_synonym int32 = "32 word"
type_synonym int64 = "64 word"
type_synonym time = nat

section \<open>Strings\<close>

text \<open>\<open>strings.HasPrefix\<close>, \<open>HasSuffix\<close>, \<open>TrimPrefix\<close>, \<open>TrimSuffix\<close>.\<close>

definition has_prefix :: "string \<Rightarrow> string \<Rightarrow> bool" where
  "has_prefix s p \<longleftrightarrow> take (length p) s = p"

definition has_suffix :: "string \<Rightarrow> string \<Rightarrow> bool" where
  "has_suffix s p \<longleftrightarrow> has_prefix (rev s) (rev p)"

definition trim_prefix :: "string \<Rightarrow> string \<Rightarrow> string" where
  "trim_prefix s p = (if has_prefix s p then drop (length p) s else s)"

definition trim_suffix :: "string \<Rightarrow> string \<Rightarrow> string" where
  "trim_suffix s p = (if has_suffix s p then take (length s - length p) s else s)"

lemma has_prefix_iff: "has_prefix s p \<longleftrightarrow> prefix p s"
  unfolding has_prefix_def by (metis append_take_drop_id prefixI take_is_prefix prefix_def append_eq_conv_conj)

lemma has_suffix_iff: "has_suffix s p \<longleftrightarrow> suffix p s"
  by (simp add: has_suffix_def has_prefix_iff suffix_to_prefix)

lemma trim_prefix_append [simp]: "trim_prefix (p @ s) p = s"
  by (simp add: trim_prefix_def has_prefix_def)

lemma trim_suffix_append [simp]: "trim_suffix (s @ p) p = s"
  by (simp add: trim_suffix_def has_suffix_def has_prefix_def)

text \<open>\<open>strings.Contains\<close>: some position of the string starts with the pattern.\<close>

fun contains_str :: "string \<Rightarrow> string \<Rightarrow> bool" where
  "contains_str [] p = (p = [])"
| "contains_str (c # s) p = (has_prefix (c # s) p \<or> contains_str s p)"

lemma contains_str_iff: "contains_str s p \<longleftrightarrow> sublist p s"
  by (induction s) (auto simp: has_prefix_iff sublist_Cons_right)

text \<open>\<open>strings.LastIndex\<close> for a separator of one byte (-1 when absent) and \<open>strings.Cut\<close>.\<close>

fun last_index :: "string \<Rightarrow> char \<Rightarrow> int" where
  "last_index [] c = -1"
| "last_index (x # xs) c =
     (let i = last_index xs c in if 0 \<le> i then i + 1 else if x = c then 0 else -1)"

fun cut_str :: "string \<Rightarrow> char \<Rightarrow> string \<times> string \<times> bool" where
  "cut_str [] c = ([], [], False)"
| "cut_str (x # xs) c =
     (if x = c then ([], xs, True)
      else case cut_str xs c of (before, after, found) \<Rightarrow> (x # before, after, found))"

lemma last_index_ge: "-1 \<le> last_index s c"
  by (induction s) (auto simp: Let_def)

lemma last_index_neg_iff: "last_index s c < 0 \<longleftrightarrow> c \<notin> set s"
proof (induction s)
  case (Cons x xs)
  then show ?case using last_index_ge [of xs c] by (auto simp: Let_def)
qed simp

lemma last_index_append: "c \<notin> set t \<Longrightarrow> last_index (s @ c # t) c = int (length s)"
proof (induction s)
  case Nil
  then show ?case using last_index_neg_iff [of t c] by (simp add: Let_def)
qed (simp add: Let_def)

lemma cut_str_absent: "c \<notin> set s \<Longrightarrow> cut_str s c = (s, [], False)"
  by (induction s) auto

lemma cut_str_append: "c \<notin> set s \<Longrightarrow> cut_str (s @ c # t) c = (s, t, True)"
  by (induction s) auto

text \<open>
  \<open>strings.ToLower\<close>: a string of ASCII bytes is lowered byte by byte; for any other string the
  library maps every rune through the Unicode tables, which are an argument here.
\<close>

definition ascii_byte :: "char \<Rightarrow> bool" where
  "ascii_byte c \<longleftrightarrow> (of_char c :: nat) < 128"

definition lower_byte :: "char \<Rightarrow> char" where
  "lower_byte c = (let n = (of_char c :: nat) in if 65 \<le> n \<and> n \<le> 90 then char_of (n + 32) else c)"

definition to_lower :: "(string \<Rightarrow> string) \<Rightarrow> string \<Rightarrow> string" where
  "to_lower unicode s = (if list_all ascii_byte s then map lower_byte s else unicode s)"

section \<open>Numbers and values as text\<close>

text \<open>\<open>%d\<close> and \<open>strconv.FormatInt(_, 10)\<close>.\<close>

definition digit :: "nat \<Rightarrow> char" where
  "digit n = char_of (48 + n)"

fun show_nat :: "nat \<Rightarrow> string" where
  "show_nat n = (if n < 10 then [digit n] else show_nat (n div 10) @ [digit (n mod 10)])"

declare show_nat.simps [simp del]

definition show_int :: "int \<Rightarrow> string" where
  "show_int i = (if i < 0 then CHR ''-'' # show_nat (nat (- i)) else show_nat (nat i))"

definition show_int32 :: "int32 \<Rightarrow> string" where
  "show_int32 w = show_int (sint w)"

definition digit_val :: "char \<Rightarrow> nat" where
  "digit_val c = of_char c - 48"

definition read_nat :: "string \<Rightarrow> nat" where
  "read_nat s = foldl (\<lambda>acc c. 10 * acc + digit_val c) 0 s"

lemma digit_val_digit: "n < 10 \<Longrightarrow> digit_val (digit n) = n"
  by (simp add: digit_val_def digit_def of_char_of)

lemma read_show_nat: "read_nat (show_nat n) = n"
proof (induction n rule: show_nat.induct)
  case (1 n)
  show ?case
  proof (cases "n < 10")
    case True
    then show ?thesis by (simp add: show_nat.simps [of n] read_nat_def digit_val_digit)
  next
    case False
    with 1 have "read_nat (show_nat (n div 10)) = n div 10" by simp
    with False show ?thesis
      by (simp add: show_nat.simps [of n] read_nat_def digit_val_digit)
  qed
qed

lemma show_nat_inject: "show_nat m = show_nat n \<longleftrightarrow> m = n"
  by (metis read_show_nat)

lemma show_nat_digits: "set (show_nat n) \<subseteq> digit ` {0..<10}"
proof (induction n rule: show_nat.induct)
  case (1 n)
  then show ?case by (cases "n < 10") (auto simp: show_nat.simps [of n])
qed

lemma digit_code: "n < 10 \<Longrightarrow> of_char (digit n) = (48 + n :: nat)"
  by (simp add: digit_def of_char_of)

lemma digit_neq: "n < 10 \<Longrightarrow> of_char c < (48::nat) \<or> 57 < (of_char c :: nat) \<Longrightarrow> digit n \<noteq> c"
  using digit_code [of n] by auto

lemma show_nat_no_sign: "show_nat n \<noteq> CHR ''-'' # s"
proof
  assume "show_nat n = CHR ''-'' # s"
  then have "CHR ''-'' \<in> set (show_nat n)" by simp
  with show_nat_digits [of n] obtain k where "k < 10" "digit k = CHR ''-''" by fastforce
  then show False using digit_neq [of k "CHR ''-''"] by simp
qed

lemma show_int_inject: "show_int i = show_int j \<longleftrightarrow> i = j"
proof
  assume "show_int i = show_int j"
  then show "i = j"
    by (auto simp: show_int_def show_nat_inject show_nat_no_sign show_nat_no_sign [symmetric]
        split: if_splits)
qed simp

lemma show_int32_inject: "show_int32 v = show_int32 w \<longleftrightarrow> v = w"
  by (auto simp: show_int32_def show_int_inject intro: signed_word_eqI)

lemma length_show_nat: "n < 10 ^ k \<Longrightarrow> 0 < k \<Longrightarrow> length (show_nat n) \<le> k"
proof (induction k arbitrary: n)
  case (Suc k)
  show ?case
  proof (cases "n < 10")
    case False
    with Suc.prems have "n div 10 < 10 ^ k" "0 < k" by (auto intro!: gr0I)
    with Suc.IH [of "n div 10"] False show ?thesis by (simp add: show_nat.simps [of n])
  qed (simp add: show_nat.simps [of n])
qed simp

lemma show_nat_nonempty: "show_nat n \<noteq> []"
  by (simp add: show_nat.simps [of n])

lemma last_show_nat: "\<exists>d < 10. last (show_nat n) = digit d"
proof (cases "n < 10")
  case False
  then have "last (show_nat n) = digit (n mod 10)" by (simp add: show_nat.simps [of n])
  then show ?thesis by (meson mod_less_divisor zero_less_numeral)
qed (auto simp: show_nat.simps [of n])

text \<open>An int32 takes at most eleven characters.\<close>

lemma length_show_int32: "length (show_int32 w) \<le> 11"
proof -
  have "- (2 ^ 31) \<le> sint w" "sint w < 2 ^ 31"
    using sint_range_size [of w] by (simp_all add: word_size)
  then have "nat (- sint w) < 10 ^ 10" "nat (sint w) < 10 ^ 10" by auto
  then have "length (show_nat (nat (- sint w))) \<le> 10" "length (show_nat (nat (sint w))) \<le> 10"
    by (auto intro: length_show_nat)
  then show ?thesis by (simp add: show_int32_def show_int_def)
qed

text \<open>
  \<open>%v\<close> of a slice of strings, and \<open>%q\<close> (\<open>strconv.Quote\<close>): ASCII bytes are quoted here,
  the Unicode tables that decide which other runes are printable are an argument.
\<close>

fun join_str :: "string \<Rightarrow> string list \<Rightarrow> string" where
  "join_str sep [] = []"
| "join_str sep [s] = s"
| "join_str sep (s # t # rest) = s @ sep @ join_str sep (t # rest)"

definition show_strings :: "string list \<Rightarrow> string" where
  "show_strings xs = ''['' @ join_str '' '' xs @ '']''"

definition hex_digit :: "nat \<Rightarrow> char" where
  "hex_digit n = (if n < 10 then digit n else char_of (87 + n))"

definition quote_byte :: "char \<Rightarrow> string" where
  "quote_byte c =
     (let n = (of_char c :: nat); esc = (\<lambda>d. [CHR 0x5C, d]) in
      if n = 0x22 \<or> n = 0x5C then esc c
      else if n = 7 then esc (CHR ''a'')
      else if n = 8 then esc (CHR ''b'')
      else if n = 12 then esc (CHR ''f'')
      else if n = 10 then esc (CHR ''n'')
      else if n = 13 then esc (CHR ''r'')
      else if n = 9 then esc (CHR ''t'')
      else if n = 11 then esc (CHR ''v'')
      else if n < 32 \<or> n = 127 then esc (CHR ''x'') @ [hex_digit (n div 16), hex_digit (n mod 16)]
      else [c])"

definition quote_str :: "(string \<Rightarrow> string) \<Rightarrow> string \<Rightarrow> string" where
  "quote_str unicode s =
     (if list_all ascii_byte s then [CHR 0x22] @ concat (map quote_byte s) @ [CHR 0x22] else unicode s)"

section \<open>Errors and panics\<close>

text \<open>
  An error value: one that a library returned (its kind and its text), one that \<open>fmt.Errorf\<close>
  made, or one that \<open>fmt.Errorf\<close> wrapped with \<open>%w\<close> after a prefix. A Go function that returns
  \<open>(T, error)\<close> has the result type \<open>err + T\<close>. A panic unwinds the whole call, so a function
  that can panic has a result of type \<open>run\<close>.
\<close>

datatype err = Lib_Err string string | Errorf string | Wrap_Err string err

fun err_text :: "err \<Rightarrow> string" where
  "err_text (Lib_Err kind msg) = msg"
| "err_text (Errorf msg) = msg"
| "err_text (Wrap_Err msg e) = msg @ '': '' @ err_text e"

datatype 'a run = Panic string | Done 'a

text \<open>Sequencing of two computations that may panic.\<close>

fun run_then :: "'a run \<Rightarrow> ('a \<Rightarrow> 'b run) \<Rightarrow> 'b run" where
  "run_then (Panic p) f = Panic p"
| "run_then (Done a) f = f a"

section \<open>Effects\<close>

text \<open>
  Code that talks to a service runs in a state monad: the state is the outside world, of a type
  the model never looks into, and the log of the calls made so far with their answers. The log
  is what the safety properties are about.
\<close>

record ('w, 'e) st =
  world :: "'w"
  log :: "'e list"

type_synonym ('w, 'e, 'a) eff = "(('w, 'e) st, 'a) state"

text \<open>One call of a service: it may change the world, and it is written to the log.\<close>

definition call :: "('w \<Rightarrow> 'r \<times> 'w) \<Rightarrow> ('r \<Rightarrow> 'e) \<Rightarrow> ('w, 'e, 'r) eff" where
  "call f ev = State (\<lambda>s. case f (world s) of (r, w) \<Rightarrow> (r, s\<lparr>world := w, log := log s @ [ev r]\<rparr>))"

text \<open>What a computation returns, what it leaves behind and which calls it made, from a fresh log.\<close>

definition start :: "'w \<Rightarrow> ('w, 'e) st" where
  "start w = \<lparr>world = w, log = []\<rparr>"

definition result_of :: "('w, 'e, 'a) eff \<Rightarrow> 'w \<Rightarrow> 'a" where
  "result_of m w = fst (run_state m (start w))"

definition trace_of :: "('w, 'e, 'a) eff \<Rightarrow> 'w \<Rightarrow> 'e list" where
  "trace_of m w = log (snd (run_state m (start w)))"

definition world_of :: "('w, 'e, 'a) eff \<Rightarrow> 'w \<Rightarrow> 'w" where
  "world_of m w = world (snd (run_state m (start w)))"

text \<open>The weakest precondition of a computation.\<close>

definition wp :: "('s, 'a) state \<Rightarrow> ('a \<Rightarrow> 's \<Rightarrow> bool) \<Rightarrow> 's \<Rightarrow> bool" where
  "wp m Q s \<longleftrightarrow> (case run_state m s of (r, t) \<Rightarrow> Q r t)"

lemma wp_return [wp_simps]: "wp (State_Monad.return x) Q = Q x"
  by (simp add: wp_def fun_eq_iff)

lemma wp_bind [wp_simps]: "wp (State_Monad.bind m f) Q = wp m (\<lambda>r. wp (f r) Q)"
  by (simp add: wp_def fun_eq_iff split: prod.splits)

lemma wp_call:
  "wp (call f ev) Q s =
     (case f (world s) of (r, w) \<Rightarrow> Q r (s\<lparr>world := w, log := log s @ [ev r]\<rparr>))"
  by (simp add: wp_def call_def split: prod.splits)

lemma wp_any_call [wp_calls]:
  "(\<And>r w. Q r (s\<lparr>world := w, log := log s @ [ev r]\<rparr>)) \<Longrightarrow> wp (call f ev) Q s"
  by (simp add: wp_call split: prod.splits)

lemma wp_case_option [wp_simps]:
  "wp (case x of None \<Rightarrow> m | Some a \<Rightarrow> f a) Q = (case x of None \<Rightarrow> wp m Q | Some a \<Rightarrow> wp (f a) Q)"
  by (simp split: option.splits)

lemma wp_case_sum [wp_simps]:
  "wp (case x of Inl a \<Rightarrow> f a | Inr b \<Rightarrow> g b) Q = (case x of Inl a \<Rightarrow> wp (f a) Q | Inr b \<Rightarrow> wp (g b) Q)"
  by (simp split: sum.splits)

lemma wp_case_prod [wp_simps]: "wp (case x of (a, b) \<Rightarrow> f a b) Q = (case x of (a, b) \<Rightarrow> wp (f a b) Q)"
  by (simp split: prod.splits)

lemma wp_case_run [wp_simps]:
  "wp (case x of Panic p \<Rightarrow> f p | Done a \<Rightarrow> g a) Q = (case x of Panic p \<Rightarrow> wp (f p) Q | Done a \<Rightarrow> wp (g a) Q)"
  by (simp split: run.splits)

lemma wp_if [wp_simps]: "wp (if b then m else n) Q = (if b then wp m Q else wp n Q)"
  by simp

lemma wp_mono: "wp m P s \<Longrightarrow> (\<And>r t. P r t \<Longrightarrow> Q r t) \<Longrightarrow> wp m Q s"
  by (auto simp: wp_def split: prod.splits)

lemma wp_True: "wp m (\<lambda>r t. True) s"
  by (simp add: wp_def split: prod.splits)

lemma wp_conj: "wp m (\<lambda>r t. P r t \<and> Q r t) s \<longleftrightarrow> wp m P s \<and> wp m Q s"
  by (auto simp: wp_def split: prod.splits)

lemma wp_run: "wp m (\<lambda>r t. Q r t) (start w) \<longleftrightarrow> Q (result_of m w) (snd (run_state m (start w)))"
  by (simp add: wp_def result_of_def split: prod.splits)

lemma wp_trace: "wp m (\<lambda>r t. Q r (log t)) (start w) \<longleftrightarrow> Q (result_of m w) (trace_of m w)"
  by (simp add: wp_run trace_of_def)

lemma start_simps [simp]: "world (start w) = w" "log (start w) = []"
  by (simp_all add: start_def)

lemma run_call [simp]:
  "run_state (call f ev) s =
     (case f (world s) of (r, w) \<Rightarrow> (r, s\<lparr>world := w, log := log s @ [ev r]\<rparr>))"
  by (simp add: call_def)

text \<open>
  \<open>emits m E\<close>: whatever the world answers, \<open>m\<close> only extends the log, and only by calls that
  satisfy \<open>E\<close>.
\<close>

definition emits :: "('w, 'e, 'a) eff \<Rightarrow> ('e \<Rightarrow> bool) \<Rightarrow> bool" where
  "emits m E \<longleftrightarrow> (\<forall>s. \<exists>es. log (snd (run_state m s)) = log s @ es \<and> list_all E es)"

named_theorems emits_rules \<open>which calls a computation can make\<close>

lemma emits_return [emits_rules, simp]: "emits (State_Monad.return x) E"
  by (auto simp: emits_def)

lemma emits_call [emits_rules]: "(\<And>r. E (ev r)) \<Longrightarrow> emits (call f ev) E"
  by (auto simp: emits_def split: prod.splits)

lemma emits_bind [emits_rules]:
  assumes "emits m E" and "\<And>r. emits (f r) E"
  shows "emits (State_Monad.bind m f) E"
  unfolding emits_def
proof
  fix s
  obtain r t where m: "run_state m s = (r, t)" by force
  with assms(1) obtain es where es: "log t = log s @ es" "list_all E es"
    by (metis emits_def snd_conv)
  from assms(2) obtain fs where "log (snd (run_state (f r) t)) = log t @ fs" "list_all E fs"
    by (meson emits_def)
  with m es show "\<exists>es. log (snd (run_state (State_Monad.bind m f) s)) = log s @ es \<and> list_all E es"
    by (intro exI [of _ "es @ fs"]) simp
qed

lemma emits_trace: "emits m E \<Longrightarrow> list_all E (trace_of m w)"
  unfolding emits_def trace_of_def by (metis append_Nil start_simps(2))

lemma emits_mono: "emits m E \<Longrightarrow> (\<And>e. E e \<Longrightarrow> F e) \<Longrightarrow> emits m F"
  unfolding emits_def by (metis (mono_tags, lifting) list_all_iff)

lemma wp_emits:
  assumes "emits m E" and "\<And>r t es. log t = log s @ es \<Longrightarrow> list_all E es \<Longrightarrow> Q r t"
  shows "wp m Q s"
  using assms unfolding emits_def wp_def by (metis (no_types, lifting) case_prod_beta')

lemma wp_extends:
  assumes "wp m Q s" and "emits m E"
  shows "wp m (\<lambda>r t. Q r t \<and> (\<exists>es. log t = log s @ es)) s"
  unfolding wp_conj using assms(1) by (auto intro: wp_emits [OF assms(2)])

text \<open>
  \<open>moves P E m\<close>: \<open>m\<close> only extends the log, and when all the calls it adds satisfy \<open>E\<close> it moves the
  world by a step of the relation \<open>P\<close>.
\<close>

definition moves :: "('w \<Rightarrow> 'w \<Rightarrow> bool) \<Rightarrow> ('e \<Rightarrow> bool) \<Rightarrow> ('w, 'e, 'a) eff \<Rightarrow> bool" where
  "moves P E m \<longleftrightarrow> (\<forall>s. wp m (\<lambda>r t. \<exists>es. log t = log s @ es \<and> (list_all E es \<longrightarrow> P (world s) (world t))) s)"

named_theorems moves_rules \<open>how a computation can move the world\<close>

lemma moves_return [moves_rules]: "reflp P \<Longrightarrow> moves P E (State_Monad.return x)"
  by (simp add: moves_def wp_return reflpD)

lemma moves_call [moves_rules]:
  assumes "\<And>w r w'. f w = (r, w') \<Longrightarrow> E (ev r) \<Longrightarrow> P w w'"
  shows "moves P E (call f ev)"
  using assms by (simp add: moves_def wp_call split: prod.split)

lemma moves_bind [moves_rules]:
  assumes "transp P" and "moves P E m" and "\<And>r. moves P E (f r)"
  shows "moves P E (State_Monad.bind m f)"
  unfolding moves_def wp_bind
proof
  fix s :: "('a, 'b) st"
  have "wp m (\<lambda>r t. \<exists>es. log t = log s @ es \<and> (list_all E es \<longrightarrow> P (world s) (world t))) s"
    using assms(2) by (simp add: moves_def)
  then show "wp m (\<lambda>r. wp (f r) (\<lambda>r u. \<exists>es. log u = log s @ es \<and> (list_all E es \<longrightarrow> P (world s) (world u)))) s"
  proof (rule wp_mono)
    fix r and t :: "('a, 'b) st" assume t: "\<exists>es. log t = log s @ es \<and> (list_all E es \<longrightarrow> P (world s) (world t))"
    have "wp (f r) (\<lambda>r u. \<exists>es. log u = log t @ es \<and> (list_all E es \<longrightarrow> P (world t) (world u))) t"
      using assms(3) by (simp add: moves_def)
    then show "wp (f r) (\<lambda>r u. \<exists>es. log u = log s @ es \<and> (list_all E es \<longrightarrow> P (world s) (world u))) t"
      by (rule wp_mono) (use t transpD [OF assms(1)] in fastforce)
  qed
qed

lemma moves_world:
  assumes "moves P E m" and "list_all E (trace_of m w)"
  shows "P w (world_of m w)"
  using assms spec [OF assms(1) [unfolded moves_def], of "start w"]
  by (auto simp: wp_run trace_of_def world_of_def)

text \<open>
  \<open>guarded P tr\<close>: every call of the log \<open>tr\<close> was allowed by the policy \<open>P\<close> in view of the calls
  before it.
\<close>

fun guarded_from :: "('e list \<Rightarrow> 'e \<Rightarrow> bool) \<Rightarrow> 'e list \<Rightarrow> 'e list \<Rightarrow> bool" where
  "guarded_from P past [] = True"
| "guarded_from P past (e # es) = (P past e \<and> guarded_from P (past @ [e]) es)"

definition guarded :: "('e list \<Rightarrow> 'e \<Rightarrow> bool) \<Rightarrow> 'e list \<Rightarrow> bool" where
  "guarded P tr = guarded_from P [] tr"

lemma guarded_from_append:
  "guarded_from P past (xs @ ys) \<longleftrightarrow> guarded_from P past xs \<and> guarded_from P (past @ xs) ys"
  by (induction xs arbitrary: past) auto

lemma guarded_Nil [simp]: "guarded P []"
  by (simp add: guarded_def)

lemma guarded_snoc [simp]: "guarded P (tr @ [e]) \<longleftrightarrow> guarded P tr \<and> P tr e"
  by (simp add: guarded_def guarded_from_append)

lemma guardedD: "guarded P (xs @ e # ys) \<Longrightarrow> P xs e"
  by (simp add: guarded_def guarded_from_append)

lemma guarded_trace: "wp m (\<lambda>r t. guarded P (log t)) (start w) \<Longrightarrow> guarded P (trace_of m w)"
  by (simp add: wp_def trace_of_def split: prod.splits)

end
