(* ===== verification/Manager.thy ===== *)
theory Manager
  imports Go_Prelude
begin

text \<open>
  The process (\<open>cmd/main.go\<close>): the command line, parsed as the standard package flag does,
  the options of the manager, the webhook server and the metrics server built from it, and the
  start-up sequence with its exit codes. The controller-runtime manager is a parameter
  (\<open>manager_lib\<close>), and so are the flags that other packages register.
\<close>

section \<open>The command line\<close>

record flags =
  metrics_addr :: string
  probe_addr :: string
  leader_elect :: bool
  secure_metrics :: bool
  webhook_cert_path :: string
  webhook_cert_name :: string
  webhook_cert_key :: string
  metrics_cert_path :: string
  metrics_cert_name :: string
  metrics_cert_key :: string
  enable_http2 :: bool

definition default_flags :: flags where
  "default_flags =
     \<lparr>metrics_addr = ''0'', probe_addr = '':8081'', leader_elect = False, secure_metrics = True,
      webhook_cert_path = [], webhook_cert_name = ''tls.crt'', webhook_cert_key = ''tls.key'',
      metrics_cert_path = [], metrics_cert_name = ''tls.crt'', metrics_cert_key = ''tls.key'',
      enable_http2 = False\<rparr>"

text \<open>
  The flags that main registers: \<open>StringVar\<close> and \<open>BoolVar\<close>. A flag of another package (the
  logger's, \<open>--kubeconfig\<close>) is given by whether it is boolean and which values it accepts.
\<close>

datatype flag_kind = String_Var "string \<Rightarrow> flags \<Rightarrow> flags" | Bool_Var "bool \<Rightarrow> flags \<Rightarrow> flags"

definition main_flags :: "(string \<times> flag_kind) list" where
  "main_flags =
     [(''metrics-bind-address'', String_Var (\<lambda>v f. f\<lparr>metrics_addr := v\<rparr>)),
      (''health-probe-bind-address'', String_Var (\<lambda>v f. f\<lparr>probe_addr := v\<rparr>)),
      (''leader-elect'', Bool_Var (\<lambda>v f. f\<lparr>leader_elect := v\<rparr>)),
      (''metrics-secure'', Bool_Var (\<lambda>v f. f\<lparr>secure_metrics := v\<rparr>)),
      (''webhook-cert-path'', String_Var (\<lambda>v f. f\<lparr>webhook_cert_path := v\<rparr>)),
      (''webhook-cert-name'', String_Var (\<lambda>v f. f\<lparr>webhook_cert_name := v\<rparr>)),
      (''webhook-cert-key'', String_Var (\<lambda>v f. f\<lparr>webhook_cert_key := v\<rparr>)),
      (''metrics-cert-path'', String_Var (\<lambda>v f. f\<lparr>metrics_cert_path := v\<rparr>)),
      (''metrics-cert-name'', String_Var (\<lambda>v f. f\<lparr>metrics_cert_name := v\<rparr>)),
      (''metrics-cert-key'', String_Var (\<lambda>v f. f\<lparr>metrics_cert_key := v\<rparr>)),
      (''enable-http2'', Bool_Var (\<lambda>v f. f\<lparr>enable_http2 := v\<rparr>))]"

record lib_flag =
  lf_is_bool :: bool
  lf_accepts :: "string \<Rightarrow> bool"

type_synonym lib_flags = "string \<rightharpoonup> lib_flag"

text \<open>\<open>strconv.ParseBool\<close>.\<close>

definition parse_bool :: "string \<Rightarrow> bool option" where
  "parse_bool s =
     (if s \<in> set [''1'', ''t'', ''T'', ''true'', ''TRUE'', ''True''] then Some True
      else if s \<in> set [''0'', ''f'', ''F'', ''false'', ''FALSE'', ''False''] then Some False
      else None)"

text \<open>Whether a flag of that name exists and is boolean, and setting it.\<close>

definition lookup_flag :: "lib_flags \<Rightarrow> string \<Rightarrow> bool option" where
  "lookup_flag L name =
     (case map_of main_flags name of
        Some (String_Var _) \<Rightarrow> Some False
      | Some (Bool_Var _) \<Rightarrow> Some True
      | None \<Rightarrow> map_option lf_is_bool (L name))"

definition set_flag :: "lib_flags \<Rightarrow> string \<Rightarrow> string \<Rightarrow> flags \<Rightarrow> flags option" where
  "set_flag L name v f =
     (case map_of main_flags name of
        Some (String_Var upd) \<Rightarrow> Some (upd v f)
      | Some (Bool_Var upd) \<Rightarrow> map_option (\<lambda>b. upd b f) (parse_bool v)
      | None \<Rightarrow> (case L name of None \<Rightarrow> None | Some lf \<Rightarrow> if lf_accepts lf v then Some f else None))"

text \<open>The name in an argument, \<open>None\<close> when it is no flag, and its split at \<open>=\<close> (never first).\<close>

definition flag_text :: "string \<Rightarrow> string option" where
  "flag_text s =
     (if length s < 2 \<or> hd s \<noteq> CHR ''-'' then None
      else if s ! 1 = CHR ''-'' then Some (drop 2 s) else Some (drop 1 s))"

definition split_flag :: "string \<Rightarrow> string \<times> string option" where
  "split_flag name =
     (case cut_str (tl name) (CHR ''='') of (before, after, found) \<Rightarrow>
        (hd name # before, if found then Some after else None))"

datatype parsed = Parsed flags | Exit_Code nat

text \<open>\<open>flag.Parse\<close> with \<open>ExitOnError\<close>: a usage error exits with 2, a request for help with 0.\<close>

fun parse_flags :: "lib_flags \<Rightarrow> string list \<Rightarrow> flags \<Rightarrow> parsed" where
  "parse_flags L [] f = Parsed f"
| "parse_flags L (s # args) f =
     (case flag_text s of
        None \<Rightarrow> Parsed f
      | Some t \<Rightarrow>
          if s = ''--'' then Parsed f
          else if t = [] \<or> hd t = CHR ''-'' \<or> hd t = CHR ''='' then Exit_Code 2
          else let name = fst (split_flag t); given = snd (split_flag t) in
            (case lookup_flag L name of
               None \<Rightarrow> Exit_Code (if name = ''help'' \<or> name = ''h'' then 0 else 2)
             | Some True \<Rightarrow>
                 (case set_flag L name (case given of Some v \<Rightarrow> v | None \<Rightarrow> ''true'') f of
                    None \<Rightarrow> Exit_Code 2 | Some f \<Rightarrow> parse_flags L args f)
             | Some False \<Rightarrow>
                 (case given of
                    Some v \<Rightarrow> (case set_flag L name v f of None \<Rightarrow> Exit_Code 2 | Some f \<Rightarrow> parse_flags L args f)
                  | None \<Rightarrow>
                      (case args of
                         [] \<Rightarrow> Exit_Code 2
                       | v # rest \<Rightarrow>
                           (case set_flag L name v f of None \<Rightarrow> Exit_Code 2 | Some f \<Rightarrow> parse_flags L rest f)))))"

section \<open>The options\<close>

record tls_config =
  next_protos :: "string list"

datatype tls_opt = Disable_HTTP2

fun run_tls_opt :: "tls_opt \<Rightarrow> tls_config \<Rightarrow> tls_config" where
  "run_tls_opt Disable_HTTP2 c = c\<lparr>next_protos := [''http/1.1'']\<rparr>"

text \<open>The servers apply the functions of \<open>TLSOpts\<close> in order to their configuration.\<close>

definition run_tls_opts :: "tls_opt list \<Rightarrow> tls_config \<Rightarrow> tls_config" where
  "run_tls_opts opts c = foldl (\<lambda>c opt. run_tls_opt opt c) c opts"

record webhook_options =
  wo_tls_opts :: "tls_opt list"
  wo_cert_dir :: string
  wo_cert_name :: string
  wo_key_name :: string

datatype filter_provider = Authentication_And_Authorization

record metrics_options =
  mo_bind_address :: string
  mo_secure_serving :: bool
  mo_tls_opts :: "tls_opt list"
  mo_filter :: "filter_provider option"
  mo_cert_dir :: string
  mo_cert_name :: string
  mo_key_name :: string

record manager_options =
  opt_metrics :: metrics_options
  opt_webhook :: webhook_options
  opt_probe_address :: string
  opt_leader_election :: bool
  opt_leader_election_id :: string

definition tls_opts_of :: "flags \<Rightarrow> tls_opt list" where
  "tls_opts_of f = (if \<not> enable_http2 f then [Disable_HTTP2] else [])"

definition webhook_options_of :: "flags \<Rightarrow> webhook_options" where
  "webhook_options_of f =
     (let opts = \<lparr>wo_tls_opts = tls_opts_of f, wo_cert_dir = [], wo_cert_name = [], wo_key_name = []\<rparr> in
      if 0 < length (webhook_cert_path f)
      then opts\<lparr>wo_cert_dir := webhook_cert_path f, wo_cert_name := webhook_cert_name f,
                wo_key_name := webhook_cert_key f\<rparr>
      else opts)"

definition metrics_options_of :: "flags \<Rightarrow> metrics_options" where
  "metrics_options_of f =
     (let opts = \<lparr>mo_bind_address = metrics_addr f, mo_secure_serving = secure_metrics f,
                  mo_tls_opts = tls_opts_of f, mo_filter = None,
                  mo_cert_dir = [], mo_cert_name = [], mo_key_name = []\<rparr>;
          opts = (if secure_metrics f then opts\<lparr>mo_filter := Some Authentication_And_Authorization\<rparr> else opts)
      in if 0 < length (metrics_cert_path f)
         then opts\<lparr>mo_cert_dir := metrics_cert_path f, mo_cert_name := metrics_cert_name f,
                   mo_key_name := metrics_cert_key f\<rparr>
         else opts)"

definition manager_options_of :: "flags \<Rightarrow> manager_options" where
  "manager_options_of f =
     \<lparr>opt_metrics = metrics_options_of f, opt_webhook = webhook_options_of f,
      opt_probe_address = probe_addr f, opt_leader_election = leader_elect f,
      opt_leader_election_id = ''3deb69d9.kyma-project.io''\<rparr>"

section \<open>Start-up\<close>

text \<open>
  \<open>AddToScheme\<close> of client-go and of the API package (\<open>init\<close> panics when one fails),
  \<open>GetConfigOrDie\<close> (which exits with 1 itself), \<open>NewManager\<close>, \<open>SetupWithManager\<close>,
  \<open>AddHealthzCheck\<close>, \<open>AddReadyzCheck\<close> and \<open>Start\<close>, which returns when the manager stops.
\<close>

record 'm manager_lib =
  add_client_go_scheme :: "err option"
  add_gpu_scheme :: "err option"
  get_config :: "'m \<Rightarrow> err option \<times> 'm"
  new_manager :: "manager_options \<Rightarrow> 'm \<Rightarrow> err option \<times> 'm"
  setup_reconciler :: "'m \<Rightarrow> err option \<times> 'm"
  add_healthz_check :: "string \<Rightarrow> 'm \<Rightarrow> err option \<times> 'm"
  add_readyz_check :: "string \<Rightarrow> 'm \<Rightarrow> err option \<times> 'm"
  start_manager :: "'m \<Rightarrow> err option \<times> 'm"

datatype startup_event =
    Got_Config "err option"
  | New_Manager manager_options "err option"
  | Setup_Reconciler "err option"
  | Add_Healthz string "err option"
  | Add_Readyz string "err option"
  | Started "err option"

type_synonym ('m, 'a) startup = "('m, startup_event, 'a) eff"

text \<open>One step of main: an error is logged and the process exits with 1.\<close>

definition or_exit :: "('m, err option) startup \<Rightarrow> ('m, nat) startup \<Rightarrow> ('m, nat) startup" where
  "or_exit step rest = do { e \<leftarrow> step; case e of Some x \<Rightarrow> State_Monad.return 1 | None \<Rightarrow> rest }"

definition run_manager :: "'m manager_lib \<Rightarrow> flags \<Rightarrow> ('m, nat) startup" where
  "run_manager M f =
     (let opts = manager_options_of f in
      or_exit (call (get_config M) Got_Config)
      (or_exit (call (new_manager M opts) (New_Manager opts))
      (or_exit (call (setup_reconciler M) Setup_Reconciler)
      (or_exit (call (add_healthz_check M ''healthz'') (Add_Healthz ''healthz''))
      (or_exit (call (add_readyz_check M ''readyz'') (Add_Readyz ''readyz''))
      (or_exit (call (start_manager M) Started) (State_Monad.return 0)))))))"

definition init_scheme :: "'m manager_lib \<Rightarrow> unit run" where
  "init_scheme M =
     (case add_client_go_scheme M of
        Some e \<Rightarrow> Panic (err_text e)
      | None \<Rightarrow> (case add_gpu_scheme M of Some e \<Rightarrow> Panic (err_text e) | None \<Rightarrow> Done ()))"

definition main_process :: "'m manager_lib \<Rightarrow> lib_flags \<Rightarrow> string list \<Rightarrow> ('m, nat run) startup" where
  "main_process M L args =
     (case init_scheme M of
        Panic p \<Rightarrow> State_Monad.return (Panic p)
      | Done _ \<Rightarrow>
          (case parse_flags L args default_flags of
             Exit_Code n \<Rightarrow> State_Monad.return (Done n)
           | Parsed f \<Rightarrow> do { n \<leftarrow> run_manager M f; State_Monad.return (Done n) }))"

section \<open>Lemmas: the command line\<close>

definition show_bool :: "bool \<Rightarrow> string" where
  "show_bool b = (if b then ''true'' else ''false'')"

lemma parse_show_bool [simp]: "parse_bool (show_bool b) = Some b"
  by (simp add: parse_bool_def show_bool_def)

text \<open>An argument that gives a flag its value with an equals sign.\<close>

definition flag_arg :: "string \<Rightarrow> string \<Rightarrow> string" where
  "flag_arg name v = ''--'' @ name @ ''='' @ v"

definition plain_flag_name :: "string \<Rightarrow> bool" where
  "plain_flag_name name \<longleftrightarrow> name \<noteq> [] \<and> hd name \<noteq> CHR ''-'' \<and> CHR ''='' \<notin> set name"

lemma main_flag_names: "list_all plain_flag_name (map fst main_flags)"
  by (simp add: main_flags_def plain_flag_name_def)

lemma split_flag_arg: "plain_flag_name name \<Longrightarrow> split_flag (name @ CHR ''='' # v) = (name, Some v)"
  by (cases name) (auto simp: plain_flag_name_def split_flag_def cut_str_append)

lemma parse_flag_arg:
  assumes "plain_flag_name name" and "lookup_flag L name = Some b"
  shows "parse_flags L (flag_arg name v # args) f =
    (case set_flag L name v f of None \<Rightarrow> Exit_Code 2 | Some f \<Rightarrow> parse_flags L args f)"
proof -
  have "flag_text (flag_arg name v) = Some (name @ CHR ''='' # v)"
    by (simp add: flag_text_def flag_arg_def)
  moreover have "flag_arg name v \<noteq> ''--''" using assms(1) by (simp add: flag_arg_def)
  moreover have "hd (name @ CHR ''='' # v) \<noteq> CHR ''-''" "hd (name @ CHR ''='' # v) \<noteq> CHR ''=''"
    using assms(1) by (cases name; auto simp: plain_flag_name_def)+
  ultimately show ?thesis
    using split_flag_arg [OF assms(1), of v] assms(2) by (cases b) simp_all
qed

lemma parse_main_flag:
  assumes "(name, String_Var upd) \<in> set main_flags"
  shows "parse_flags L (flag_arg name v # args) f = parse_flags L args (upd v f)"
proof -
  have "plain_flag_name name" using main_flag_names assms by (auto simp: list_all_iff)
  moreover have "map_of main_flags name = Some (String_Var upd)"
    using assms by (intro map_of_is_SomeI) (simp_all add: main_flags_def)
  ultimately show ?thesis
    by (subst parse_flag_arg [of _ _ False]) (simp_all add: lookup_flag_def set_flag_def)
qed

lemma parse_main_bool:
  assumes "(name, Bool_Var upd) \<in> set main_flags"
  shows "parse_flags L (flag_arg name (show_bool v) # args) f = parse_flags L args (upd v f)"
proof -
  have "plain_flag_name name" using main_flag_names assms by (auto simp: list_all_iff)
  moreover have "map_of main_flags name = Some (Bool_Var upd)"
    using assms by (intro map_of_is_SomeI) (simp_all add: main_flags_def)
  ultimately show ?thesis
    by (subst parse_flag_arg [of _ _ True]) (simp_all add: lookup_flag_def set_flag_def)
qed

text \<open>A command line that says every option.\<close>

definition show_flags :: "flags \<Rightarrow> string list" where
  "show_flags f =
     [flag_arg ''metrics-bind-address'' (metrics_addr f),
      flag_arg ''health-probe-bind-address'' (probe_addr f),
      flag_arg ''leader-elect'' (show_bool (leader_elect f)),
      flag_arg ''metrics-secure'' (show_bool (secure_metrics f)),
      flag_arg ''webhook-cert-path'' (webhook_cert_path f),
      flag_arg ''webhook-cert-name'' (webhook_cert_name f),
      flag_arg ''webhook-cert-key'' (webhook_cert_key f),
      flag_arg ''metrics-cert-path'' (metrics_cert_path f),
      flag_arg ''metrics-cert-name'' (metrics_cert_name f),
      flag_arg ''metrics-cert-key'' (metrics_cert_key f),
      flag_arg ''enable-http2'' (show_bool (enable_http2 f))]"

lemmas parse_main_args =
  parse_main_flag [where name = "''metrics-bind-address''" and upd = "\<lambda>v f. f\<lparr>metrics_addr := v\<rparr>"]
  parse_main_flag [where name = "''health-probe-bind-address''" and upd = "\<lambda>v f. f\<lparr>probe_addr := v\<rparr>"]
  parse_main_bool [where name = "''leader-elect''" and upd = "\<lambda>v f. f\<lparr>leader_elect := v\<rparr>"]
  parse_main_bool [where name = "''metrics-secure''" and upd = "\<lambda>v f. f\<lparr>secure_metrics := v\<rparr>"]
  parse_main_flag [where name = "''webhook-cert-path''" and upd = "\<lambda>v f. f\<lparr>webhook_cert_path := v\<rparr>"]
  parse_main_flag [where name = "''webhook-cert-name''" and upd = "\<lambda>v f. f\<lparr>webhook_cert_name := v\<rparr>"]
  parse_main_flag [where name = "''webhook-cert-key''" and upd = "\<lambda>v f. f\<lparr>webhook_cert_key := v\<rparr>"]
  parse_main_flag [where name = "''metrics-cert-path''" and upd = "\<lambda>v f. f\<lparr>metrics_cert_path := v\<rparr>"]
  parse_main_flag [where name = "''metrics-cert-name''" and upd = "\<lambda>v f. f\<lparr>metrics_cert_name := v\<rparr>"]
  parse_main_flag [where name = "''metrics-cert-key''" and upd = "\<lambda>v f. f\<lparr>metrics_cert_key := v\<rparr>"]
  parse_main_bool [where name = "''enable-http2''" and upd = "\<lambda>v f. f\<lparr>enable_http2 := v\<rparr>"]

lemma parse_show_flags: "parse_flags L (show_flags f @ args) g = parse_flags L args f"
  unfolding show_flags_def append.simps
  by (cases f; cases g) (simp add: parse_main_args main_flags_def del: parse_flags.simps)

section \<open>Lemmas: options and start-up\<close>

lemma tls_opts_protocols:
  "next_protos (run_tls_opts (tls_opts_of f) c) = (if enable_http2 f then next_protos c else [''http/1.1''])"
  by (simp add: tls_opts_of_def run_tls_opts_def)

lemma server_tls_opts:
  "wo_tls_opts (opt_webhook (manager_options_of f)) = tls_opts_of f"
  "mo_tls_opts (opt_metrics (manager_options_of f)) = tls_opts_of f"
  by (simp_all add: manager_options_of_def webhook_options_of_def metrics_options_of_def Let_def)

lemma wp_or_exit [wp_simps]:
  "wp (or_exit step rest) Q s =
     wp step (\<lambda>e t. case e of Some x \<Rightarrow> Q 1 t | None \<Rightarrow> wp rest Q t) s"
  by (auto simp: or_exit_def wp_def split: prod.splits option.splits)

text \<open>The steps of the start-up in their order, when all of them succeed.\<close>

definition startup_plan :: "flags \<Rightarrow> startup_event list" where
  "startup_plan f =
     [Got_Config None, New_Manager (manager_options_of f) None, Setup_Reconciler None,
      Add_Healthz ''healthz'' None, Add_Readyz ''readyz'' None, Started None]"

fun failed :: "startup_event \<Rightarrow> bool" where
  "failed (Got_Config e) = (e \<noteq> None)"
| "failed (New_Manager opts e) = (e \<noteq> None)"
| "failed (Setup_Reconciler e) = (e \<noteq> None)"
| "failed (Add_Healthz n e) = (e \<noteq> None)"
| "failed (Add_Readyz n e) = (e \<noteq> None)"
| "failed (Started e) = (e \<noteq> None)"

fun without_error :: "startup_event \<Rightarrow> startup_event" where
  "without_error (Got_Config e) = Got_Config None"
| "without_error (New_Manager opts e) = New_Manager opts None"
| "without_error (Setup_Reconciler e) = Setup_Reconciler None"
| "without_error (Add_Healthz n e) = Add_Healthz n None"
| "without_error (Add_Readyz n e) = Add_Readyz n None"
| "without_error (Started e) = Started None"

text \<open>The log of a start-up that stopped at its first failure, the step after the first \<open>k\<close>.\<close>

definition stopped_after :: "flags \<Rightarrow> nat \<Rightarrow> startup_event list \<Rightarrow> bool" where
  "stopped_after f k tr \<longleftrightarrow> k < 6 \<and>
     (\<exists>e. tr = take k (startup_plan f) @ [e] \<and> failed e \<and> without_error e = startup_plan f ! k)"

lemma wp_run_manager:
  "wp (run_manager M f) (\<lambda>n t. n = 0 \<and> log t = startup_plan f \<or> n = 1 \<and> (\<exists>k. stopped_after f k (log t))) (start m)"
proof -
  have stop: "\<exists>k. stopped_after f k (take k' (startup_plan f) @ [e])"
    if "k' < 6" and "failed e" and "without_error e = startup_plan f ! k'" for k' e
    using that by (auto simp: stopped_after_def)
  show ?thesis
    unfolding run_manager_def Let_def
    using stop [of 0 "Got_Config (Some x)" for x] stop [of 1 "New_Manager (manager_options_of f) (Some x)" for x]
      stop [of 2 "Setup_Reconciler (Some x)" for x] stop [of 3 "Add_Healthz ''healthz'' (Some x)" for x]
      stop [of 4 "Add_Readyz ''readyz'' (Some x)" for x] stop [of 5 "Started (Some x)" for x]
    by (simp add: wp_simps wp_call startup_plan_def split: prod.split option.split)
qed

text \<open>The codes with which the parser ends the process.\<close>

definition asks_help :: "string \<Rightarrow> bool" where
  "asks_help s \<longleftrightarrow> (case flag_text s of None \<Rightarrow> False | Some t \<Rightarrow> fst (split_flag t) \<in> {''help'', ''h''})"

lemma parse_exit: "parse_flags L args f = Exit_Code n \<Longrightarrow> n = 2 \<or> n = 0 \<and> list_ex asks_help args"
proof (induction L args f rule: parse_flags.induct)
  case (2 L s args f)
  then obtain t where t: "flag_text s = Some t" by (cases "flag_text s") simp_all
  then have asked: "asks_help s \<longleftrightarrow> fst (split_flag t) \<in> {''help'', ''h''}" by (simp add: asks_help_def)
  note run = "2.prems" [unfolded parse_flags.simps t option.case Let_def]
  show ?case
  proof (cases "s = ''--'' \<or> t = [] \<or> hd t = CHR ''-'' \<or> hd t = CHR ''=''")
    case True
    with run show ?thesis by (auto split: if_splits)
  next
    case False
    then have start: "s \<noteq> ''--''" "\<not> (t = [] \<or> hd t = CHR ''-'' \<or> hd t = CHR ''='')" by simp_all
    note IH = "2.IH" [OF t start refl refl]
    show ?thesis
    proof (cases "lookup_flag L (fst (split_flag t))")
      case None
      with run start asked show ?thesis by (auto split: if_splits)
    next
      case (Some bool)
      with run start IH [OF Some] show ?thesis
        by (cases bool; cases "snd (split_flag t)") (auto split: option.splits list.splits)
    qed
  qed
qed simp

section \<open>Properties\<close>

text \<open>C40: The command line round trip: printing every option as \<open>--name=value\<close> and parsing the
  result gives the options back, whatever they were set to before and whatever flags other
  packages registered.\<close>

theorem flags_round_trip: "parse_flags L (show_flags f) g = Parsed f"
  using parse_show_flags [of L f "[]" g] by simp

text \<open>HTTP/2 is off unless asked for: whatever configuration they start from, the webhook
  server and the metrics server speak only HTTP/1.1 when \<open>--enable-http2\<close> is not set, and keep
  their protocols when it is. Serving metrics securely always comes with authentication and
  authorization, and a certificate directory is used exactly when one was given.\<close>

theorem secure_servers:
  "next_protos (run_tls_opts (wo_tls_opts (opt_webhook (manager_options_of f))) c) =
     (if enable_http2 f then next_protos c else [''http/1.1'']) \<and>
   next_protos (run_tls_opts (mo_tls_opts (opt_metrics (manager_options_of f))) c) =
     (if enable_http2 f then next_protos c else [''http/1.1'']) \<and>
   (mo_filter (opt_metrics (manager_options_of f)) = Some Authentication_And_Authorization \<longleftrightarrow>
     mo_secure_serving (opt_metrics (manager_options_of f))) \<and>
   mo_cert_dir (opt_metrics (manager_options_of f)) = metrics_cert_path f \<and>
   wo_cert_dir (opt_webhook (manager_options_of f)) = webhook_cert_path f"
  by (simp only: server_tls_opts tls_opts_protocols)
     (simp add: manager_options_of_def metrics_options_of_def webhook_options_of_def Let_def)

text \<open>C39: The exit codes of the process. It panics before anything else when one of the two schemes
  cannot be registered; the parser of the command line ends it with 2 on a usage error and with 0
  on a request for help, before any step of the start-up; otherwise it exits with 0 only after
  the configuration, the manager, the reconciler, both health checks and the manager's run have
  succeeded, in this order and with the options of the command line, and with 1 right after the
  first of these steps that failed, having run no later one.\<close>

theorem startup_order:
  "case (add_client_go_scheme M, add_gpu_scheme M) of
     (Some e, _) \<Rightarrow> result_of (main_process M L args) m = Panic (err_text e) \<and> trace_of (main_process M L args) m = []
   | (None, Some e) \<Rightarrow> result_of (main_process M L args) m = Panic (err_text e) \<and> trace_of (main_process M L args) m = []
   | (None, None) \<Rightarrow>
       (case parse_flags L args default_flags of
          Exit_Code n \<Rightarrow> result_of (main_process M L args) m = Done n \<and> trace_of (main_process M L args) m = [] \<and>
            (n = 2 \<or> n = 0 \<and> list_ex asks_help args)
        | Parsed f \<Rightarrow>
            result_of (main_process M L args) m = Done 0 \<and> trace_of (main_process M L args) m = startup_plan f \<or>
            result_of (main_process M L args) m = Done 1 \<and>
              (\<exists>k. stopped_after f k (trace_of (main_process M L args) m)))"
proof -
  have "wp (main_process M L args) (\<lambda>r t.
      case (add_client_go_scheme M, add_gpu_scheme M) of
        (Some e, _) \<Rightarrow> r = Panic (err_text e) \<and> log t = []
      | (None, Some e) \<Rightarrow> r = Panic (err_text e) \<and> log t = []
      | (None, None) \<Rightarrow>
          (case parse_flags L args default_flags of
             Exit_Code n \<Rightarrow> r = Done n \<and> log t = [] \<and> (n = 2 \<or> n = 0 \<and> list_ex asks_help args)
           | Parsed f \<Rightarrow> r = Done 0 \<and> log t = startup_plan f \<or> r = Done 1 \<and> (\<exists>k. stopped_after f k (log t)))) (start m)"
    unfolding main_process_def init_scheme_def
    using parse_exit [of L args default_flags]
    by (auto simp: wp_simps split: option.split parsed.split intro!: wp_mono [OF wp_run_manager])
  then show ?thesis by (rule iffD1 [OF wp_trace])
qed

end
