(* ===== verification/Api_Scheme.thy ===== *)
theory Api_Scheme
  imports Manager
begin

text \<open>
  The registration of the API types: \<open>api/v1beta1/groupversion_info.go\<close> and \<open>init\<close> of
  \<open>api/v1beta1/gpu_types.go\<close>. The scheme builder of controller-runtime is a parameter; its
  documented behaviour is the locale \<open>scheme_builder\<close>. \<open>with_api_scheme\<close> is what
  \<open>gpuv1beta1.AddToScheme(scheme)\<close> means in the start-up of \<open>Manager\<close>.
\<close>

section \<open>The package\<close>

record group_version =
  gv_group :: string
  gv_version :: string

datatype api_type = Gpu_Type | Gpu_List_Type

definition scheme_group_version :: group_version where
  "scheme_group_version = \<lparr>gv_group = ''gpu.kyma-project.io'', gv_version = ''v1beta1''\<rparr>"

definition group_version_alias :: group_version where
  "group_version_alias = scheme_group_version"

text \<open>
  \<open>scheme.Builder{GroupVersion: gv}\<close>, its \<open>Register\<close> and its \<open>AddToScheme\<close>, which may fail.
\<close>

record ('b, 's) builder_lib =
  new_builder :: "group_version \<Rightarrow> 'b"
  register_types :: "api_type list \<Rightarrow> 'b \<Rightarrow> 'b"
  build_into :: "'b \<Rightarrow> 's \<Rightarrow> err option \<times> 's"

text \<open>
  \<open>SchemeBuilder\<close> is a pointer, so the method value \<open>AddToScheme\<close>, which is bound before \<open>init\<close>
  runs, sees what \<open>init\<close> registers.
\<close>

definition new_scheme_builder :: "('b, 's) builder_lib \<Rightarrow> 'b" where
  "new_scheme_builder B = new_builder B scheme_group_version"

definition init_types :: "('b, 's) builder_lib \<Rightarrow> 'b \<Rightarrow> 'b" where
  "init_types B b = register_types B [Gpu_Type, Gpu_List_Type] b"

definition add_to_scheme :: "('b, 's) builder_lib \<Rightarrow> 's \<Rightarrow> err option \<times> 's" where
  "add_to_scheme B s = build_into B (init_types B (new_scheme_builder B)) s"

text \<open>The reflected name of a Go type, which is the kind it is registered for.\<close>

fun kind_of :: "api_type \<Rightarrow> string" where
  "kind_of Gpu_Type = ''Gpu''"
| "kind_of Gpu_List_Type = ''GpuList''"

section \<open>The contract of the scheme builder\<close>

locale scheme_builder =
  fixes B :: "('b, 's) builder_lib" and decodes :: "'s \<Rightarrow> group_version \<Rightarrow> string \<Rightarrow> api_type option"
    and holds :: "'b \<Rightarrow> group_version \<times> api_type set"
  assumes new_holds: "holds (new_builder B gv) = (gv, {})"
    and register_holds: "holds b = (gv, ts) \<Longrightarrow> holds (register_types B objs b) = (gv, ts \<union> set objs)"
    and built_decodes: "holds b = (gv, ts) \<Longrightarrow> build_into B b s = (None, s') \<Longrightarrow> t \<in> ts \<Longrightarrow>
      decodes s' gv (kind_of t) = Some t"
    and built_keeps: "build_into B b s = (None, s') \<Longrightarrow> holds b = (gv, ts) \<Longrightarrow> gv' \<noteq> gv \<Longrightarrow>
      decodes s' gv' k = decodes s gv' k"
begin

text \<open>
  Once it is added, the scheme decodes both kinds of the group version of the manifests, and
  other groups (those of client-go, added before) as it did.
\<close>

lemma api_types_registered:
  assumes "add_to_scheme B s = (None, s')"
  shows "decodes s' scheme_group_version ''Gpu'' = Some Gpu_Type"
    "decodes s' scheme_group_version ''GpuList'' = Some Gpu_List_Type"
    "gv \<noteq> scheme_group_version \<Longrightarrow> decodes s' gv k = decodes s gv k"
proof -
  have "holds (init_types B (new_scheme_builder B)) = (scheme_group_version, {Gpu_Type, Gpu_List_Type})"
    using register_holds [OF new_holds] by (simp add: init_types_def new_scheme_builder_def)
  note built_decodes [OF this assms [unfolded add_to_scheme_def]]
    and built_keeps [OF assms [unfolded add_to_scheme_def] this]
  from this(1) [of Gpu_Type] this(1) [of Gpu_List_Type] this(2)
  show "decodes s' scheme_group_version ''Gpu'' = Some Gpu_Type"
    "decodes s' scheme_group_version ''GpuList'' = Some Gpu_List_Type"
    "gv \<noteq> scheme_group_version \<Longrightarrow> decodes s' gv k = decodes s gv k" by simp_all
qed

end

section \<open>In the start-up of the process\<close>

definition with_api_scheme :: "('b, 's) builder_lib \<Rightarrow> 's \<Rightarrow> 'm manager_lib \<Rightarrow> 'm manager_lib" where
  "with_api_scheme B s L = L\<lparr>add_gpu_scheme := fst (add_to_scheme B s)\<rparr>"

section \<open>A builder, for reference\<close>

type_synonym ref_scheme = "((group_version \<times> string) \<times> api_type) list"

definition ref_builder :: "(group_version \<times> api_type list, ref_scheme) builder_lib" where
  "ref_builder =
     \<lparr>new_builder = (\<lambda>gv. (gv, [])), register_types = (\<lambda>objs (gv, ts). (gv, ts @ objs)),
      build_into = (\<lambda>(gv, ts) s. (None, map (\<lambda>t. ((gv, kind_of t), t)) ts @ s))\<rparr>"

lemma kind_of_inject: "kind_of t = kind_of u \<longleftrightarrow> t = u"
  by (cases t; cases u) simp_all

lemma map_of_kinds: "map_of (map (\<lambda>t. ((gv, kind_of t), t)) ts) (gv', k) =
    (if gv' = gv then find (\<lambda>t. kind_of t = k) ts else None)"
  by (induction ts) auto

lemma find_kind: "t \<in> set ts \<Longrightarrow> find (\<lambda>u. kind_of u = kind_of t) ts = Some t"
  by (induction ts) (auto simp: kind_of_inject)

interpretation ref_scheme_builder: scheme_builder ref_builder "\<lambda>s gv k. map_of s (gv, k)" "\<lambda>(gv, ts). (gv, set ts)"
  by unfold_locales (auto simp: ref_builder_def map_add_def map_of_kinds find_kind)

lemma ref_added: "fst (add_to_scheme ref_builder []) = None"
  by code_simp

end
