(* ===== verification/Go_Any.thy ===== *)
theory Go_Any
  imports Go_Prelude "HOL-Library.AList"
begin

text \<open>
  Go values of type \<open>any\<close> as the Helm values and the unstructured Kubernetes objects hold
  them, and maps from strings to such values. A map is an association list, updated with
  \<open>AList.update\<close>. A nil map is \<open>None\<close>: reading it finds nothing, writing to it panics.
\<close>

text \<open>
  A finite float64 is a dyadic number: \<open>Dyadic m e\<close> stands for \<open>m * 2 ^ e\<close> (the sign of zero is
  not kept); the infinities and the NaNs are \<open>Nonfinite\<close>.
\<close>

datatype float64 = Dyadic int int | Nonfinite string

datatype any =
    Any_Nil
  | Any_Bool bool
  | Any_Str string
  | Any_Int int
  | Any_Float float64
  | Any_List "any list"
  | Any_Map "(string \<times> any) list"

type_synonym kvs = "(string \<times> any) list"
type_synonym gomap = "kvs option"

text \<open>Reading and writing a Go map, and \<open>len\<close> of it.\<close>

definition map_read :: "gomap \<Rightarrow> string \<Rightarrow> any option" where
  "map_read m k = (case m of None \<Rightarrow> None | Some kv \<Rightarrow> map_of kv k)"

definition map_assign :: "gomap \<Rightarrow> string \<Rightarrow> any \<Rightarrow> gomap run" where
  "map_assign m k v =
     (case m of None \<Rightarrow> Panic ''assignment to entry in nil map''
      | Some kv \<Rightarrow> Done (Some (AList.update k v kv)))"

definition map_len :: "gomap \<Rightarrow> nat" where
  "map_len m = (case m of None \<Rightarrow> 0 | Some kv \<Rightarrow> length kv)"

text \<open>The type assertions \<open>v.(map[string]any)\<close> and \<open>v.(float64)\<close> on what a lookup found.\<close>

definition as_map :: "any option \<Rightarrow> gomap" where
  "as_map v = (case v of Some (Any_Map kv) \<Rightarrow> Some kv | _ \<Rightarrow> None)"

text \<open>
  \<open>int64(f)\<close>: truncation towards zero. Out of the range of int64 the language leaves the
  result to the implementation, so it is an argument.
\<close>

definition dyadic_trunc :: "int \<Rightarrow> int \<Rightarrow> int" where
  "dyadic_trunc m e =
     (if 0 \<le> e then m * 2 ^ nat e else sgn m * (\<bar>m\<bar> div 2 ^ nat (- e)))"

fun float_to_int64 :: "(float64 \<Rightarrow> int) \<Rightarrow> float64 \<Rightarrow> int" where
  "float_to_int64 unspecified (Dyadic m e) =
     (let i = dyadic_trunc m e in
      if - (2 ^ 63) \<le> i \<and> i < 2 ^ 63 then i else unspecified (Dyadic m e))"
| "float_to_int64 unspecified (Nonfinite t) = unspecified (Nonfinite t)"

lemma map_read_assign:
  "map_assign m k v = Done m' \<Longrightarrow> map_read m' j = (if j = k then Some v else map_read m j)"
  by (auto simp: map_assign_def map_read_def update_conv split: option.splits)

lemma map_assign_None [simp]: "map_assign None k v = Panic ''assignment to entry in nil map''"
  by (simp add: map_assign_def)

lemma map_assign_Some [simp]: "map_assign (Some kv) k v = Done (Some (AList.update k v kv))"
  by (simp add: map_assign_def)

lemma as_map_Some_iff: "as_map v = Some kv \<longleftrightarrow> v = Some (Any_Map kv)"
  by (auto simp: as_map_def split: option.splits any.splits)

lemma list_all_values_update:
  "list_all P (map snd kv) \<Longrightarrow> P v \<Longrightarrow> list_all P (map snd (AList.update k v kv))"
  by (induction kv) (auto simp: list_all_iff)

lemma update_new: "k \<notin> fst ` set kv \<Longrightarrow> AList.update k v kv = kv @ [(k, v)]"
  by (induction kv) auto

end
