(* ===== verification/Api_Types.thy ===== *)
theory Api_Types
  imports Go_Any
begin

text \<open>
  The Gpu custom resource (\<open>api/v1beta1/gpu_types.go\<close>) and the fields of the Kubernetes
  objects that the operator reads. A Go pointer to an optional part is an \<open>option\<close>; an int32
  stays a 32-bit word. Of the metadata of an object only the fields are kept that the code
  or the API server's optimistic locking use.
\<close>

section \<open>Conditions\<close>

text \<open>
  \<open>metav1.Condition\<close>. The status is a Go string; \<open>True\<close>, \<open>False\<close> and \<open>Unknown\<close> are its
  declared values. \<open>c_last_transition\<close> 0 is the zero time (unset).
\<close>

record condition =
  c_type :: string
  c_status :: string
  c_observed_generation :: int64
  c_last_transition :: time
  c_reason :: string
  c_message :: string

abbreviation (input) ConditionTrue :: string where "ConditionTrue \<equiv> ''True''"
abbreviation (input) ConditionFalse :: string where "ConditionFalse \<equiv> ''False''"
abbreviation (input) ConditionUnknown :: string where "ConditionUnknown \<equiv> ''Unknown''"

text \<open>A condition literal of the code: the fields it does not name have their zero values.\<close>

definition new_condition :: "string \<Rightarrow> string \<Rightarrow> string \<Rightarrow> string \<Rightarrow> condition" where
  "new_condition typ status reason message =
     \<lparr>c_type = typ, c_status = status, c_observed_generation = 0, c_last_transition = 0,
      c_reason = reason, c_message = message\<rparr>"

lemma new_condition_sel [simp]:
  "c_type (new_condition t s r m) = t"
  "c_status (new_condition t s r m) = s"
  "c_reason (new_condition t s r m) = r"
  "c_message (new_condition t s r m) = m"
  "c_last_transition (new_condition t s r m) = 0"
  by (simp_all add: new_condition_def)

section \<open>The Gpu resource\<close>

record driver_spec =
  spec_version :: string

record time_slicing_spec =
  replicas :: int32

record gpu_spec =
  spec_driver :: "driver_spec option"
  spec_time_slicing :: "time_slicing_spec option"

record driver_status =
  status_version :: string
  nodes_ready :: int32

record gpu_status =
  operator_version :: string
  status_driver :: "driver_status option"
  conditions :: "condition list"

record gpu =
  gpu_name :: string
  generation :: int64
  resource_version :: string
  deletion_timestamp :: "time option"
  finalizers :: "string list"
  gpu_spec_of :: gpu_spec
  gpu_status_of :: gpu_status

text \<open>\<open>func (in *Gpu) Conditions()\<close>: the conditions slice of the status.\<close>

definition gpu_conditions :: "gpu \<Rightarrow> condition list" where
  "gpu_conditions g = conditions (gpu_status_of g)"

text \<open>The pointer types' zero values.\<close>

definition empty_driver_status :: driver_status where
  "empty_driver_status = \<lparr>status_version = [], nodes_ready = 0\<rparr>"

section \<open>Objects of the cluster\<close>

record node =
  node_name :: string
  node_labels :: "string \<rightharpoonup> string"
  os_image :: string

text \<open>
  A container's resource limits are a Go map from resource names to quantities: here the
  list of its entries in the order an iteration visits them, which Go does not fix.
\<close>

record container =
  c_image :: string
  c_limits :: "(string \<times> string) list"

record pod =
  pod_namespace :: string
  pod_name :: string
  pod_deletion :: "time option"
  pod_phase :: string
  pod_containers :: "container list"
  pod_init_containers :: "container list"

abbreviation (input) PodRunning :: string where "PodRunning \<equiv> ''Running''"
abbreviation (input) PodPending :: string where "PodPending \<equiv> ''Pending''"

record daemon_set =
  ds_namespace :: string
  ds_labels :: "string \<rightharpoonup> string"
  ds_desired :: int32
  ds_ready :: int32
  ds_available :: int32
  ds_updated :: int32
  ds_containers :: "container list"

record gvk =
  gvk_group :: string
  gvk_version :: string
  gvk_kind :: string

end
