(* ===== verification/Go_Heap.thy ===== *)
theory Go_Heap
  imports Api_Types
begin

text \<open>
  The Gpu objects as Go has them in memory: structs that point to other structs and to the
  backing arrays of slices. A pointer is an address, a nil pointer is \<open>None\<close>; each type of
  variable has its own map from addresses to contents, and new variables get addresses that no
  variable of any type has had. The value of an object is the record of \<open>Api_Types\<close> that all
  other theories work with.
\<close>

section \<open>Structs\<close>

type_synonym addr = nat

text \<open>A slice that is not nil: its backing array and its length.\<close>

record slice =
  sl_array :: addr
  sl_len :: nat

text \<open>\<open>metav1.TypeMeta\<close>, and the parts of \<open>ObjectMeta\<close> and \<open>ListMeta\<close> that are kept.\<close>

record type_meta =
  tm_kind :: string
  tm_api_version :: string

record object_meta =
  om_name :: string
  om_generation :: int64
  om_resource_version :: string
  om_deletion :: "addr option"
  om_finalizers :: "slice option"

record list_meta =
  lm_resource_version :: string
  lm_continue :: string
  lm_remaining :: "addr option"

record spec_struct =
  ss_driver :: "addr option"
  ss_time_slicing :: "addr option"

record status_struct =
  st_operator_version :: string
  st_driver :: "addr option"
  st_conditions :: "slice option"

record gpu_struct =
  gs_type :: type_meta
  gs_meta :: object_meta
  gs_spec :: spec_struct
  gs_status :: status_struct

record gpu_list_struct =
  gl_type :: type_meta
  gl_meta :: list_meta
  gl_items :: "slice option"

section \<open>The heap\<close>

record heap =
  h_driver_spec :: "addr \<Rightarrow> driver_spec"
  h_time_slicing :: "addr \<Rightarrow> time_slicing_spec"
  h_driver_status :: "addr \<Rightarrow> driver_status"
  h_time :: "addr \<Rightarrow> time"
  h_int64 :: "addr \<Rightarrow> int64"
  h_strings :: "addr \<Rightarrow> string list"
  h_conditions :: "addr \<Rightarrow> condition list"
  h_spec :: "addr \<Rightarrow> spec_struct"
  h_status :: "addr \<Rightarrow> status_struct"
  h_gpu :: "addr \<Rightarrow> gpu_struct"
  h_items :: "addr \<Rightarrow> gpu_struct list"
  h_gpu_list :: "addr \<Rightarrow> gpu_list_struct"
  h_limit :: addr

type_synonym 'a heap_op = "(heap, 'a) state"

text \<open>
  A map of the heap is a pair of its selector and its update; \<open>read_at\<close>, \<open>write_at\<close> and \<open>alloc\<close>
  (Go's \<open>new\<close> and \<open>make\<close>) work on any of them.
\<close>

type_synonym 'a region = "(heap \<Rightarrow> addr \<Rightarrow> 'a) \<times> (((addr \<Rightarrow> 'a) \<Rightarrow> addr \<Rightarrow> 'a) \<Rightarrow> heap \<Rightarrow> heap)"

definition driver_specs :: "driver_spec region" where "driver_specs = (h_driver_spec, h_driver_spec_update)"
definition time_slicings :: "time_slicing_spec region" where "time_slicings = (h_time_slicing, h_time_slicing_update)"
definition driver_statuses :: "driver_status region" where "driver_statuses = (h_driver_status, h_driver_status_update)"
definition times :: "time region" where "times = (h_time, h_time_update)"
definition int64s :: "int64 region" where "int64s = (h_int64, h_int64_update)"
definition string_arrays :: "string list region" where "string_arrays = (h_strings, h_strings_update)"
definition condition_arrays :: "condition list region" where "condition_arrays = (h_conditions, h_conditions_update)"
definition specs :: "spec_struct region" where "specs = (h_spec, h_spec_update)"
definition statuses :: "status_struct region" where "statuses = (h_status, h_status_update)"
definition gpus :: "gpu_struct region" where "gpus = (h_gpu, h_gpu_update)"
definition gpu_arrays :: "gpu_struct list region" where "gpu_arrays = (h_items, h_items_update)"
definition gpu_lists :: "gpu_list_struct region" where "gpu_lists = (h_gpu_list, h_gpu_list_update)"

lemmas region_defs = driver_specs_def time_slicings_def driver_statuses_def times_def int64s_def
  string_arrays_def condition_arrays_def specs_def statuses_def gpus_def gpu_arrays_def gpu_lists_def

definition read_at :: "'a region \<Rightarrow> addr \<Rightarrow> 'a heap_op" where
  "read_at r a = State (\<lambda>h. (fst r h a, h))"

definition write_at :: "'a region \<Rightarrow> addr \<Rightarrow> 'a \<Rightarrow> unit heap_op" where
  "write_at r a v = State (\<lambda>h. ((), snd r (\<lambda>f. f(a := v)) h))"

definition alloc :: "'a region \<Rightarrow> 'a \<Rightarrow> addr heap_op" where
  "alloc r v = State (\<lambda>h. (h_limit h, (snd r (\<lambda>f. f(h_limit h := v)) h)\<lparr>h_limit := h_limit h + 1\<rparr>))"

lemma wp_read_at [wp_simps]: "wp (read_at r a) Q h = Q (fst r h a) h"
  by (simp add: wp_def read_at_def)

lemma wp_write_at [wp_simps]: "wp (write_at r a v) Q h = Q () (snd r (\<lambda>f. f(a := v)) h)"
  by (simp add: wp_def write_at_def)

lemma wp_alloc [wp_simps]:
  "wp (alloc r v) Q h = Q (h_limit h) ((snd r (\<lambda>f. f(h_limit h := v)) h)\<lparr>h_limit := h_limit h + 1\<rparr>)"
  by (simp add: wp_def alloc_def)

text \<open>Two heaps that hold the same at some addresses.\<close>

definition agree :: "addr set \<Rightarrow> heap \<Rightarrow> heap \<Rightarrow> bool" where
  "agree A h h' \<longleftrightarrow> (\<forall>a \<in> A.
     h_driver_spec h' a = h_driver_spec h a \<and> h_time_slicing h' a = h_time_slicing h a \<and>
     h_driver_status h' a = h_driver_status h a \<and> h_time h' a = h_time h a \<and> h_int64 h' a = h_int64 h a \<and>
     h_strings h' a = h_strings h a \<and> h_conditions h' a = h_conditions h a \<and> h_spec h' a = h_spec h a \<and>
     h_status h' a = h_status h a \<and> h_gpu h' a = h_gpu h a \<and> h_items h' a = h_items h a \<and>
     h_gpu_list h' a = h_gpu_list h a)"

lemma agree_refl [simp]: "agree A h h"
  by (simp add: agree_def)

lemma agree_trans: "agree A h h' \<Longrightarrow> agree A h' h'' \<Longrightarrow> agree A h h''"
  by (simp add: agree_def)

lemma agree_mono: "agree A h h' \<Longrightarrow> B \<subseteq> A \<Longrightarrow> agree B h h'"
  by (auto simp: agree_def)

lemma agree_Un: "agree (A \<union> B) h h' \<longleftrightarrow> agree A h h' \<and> agree B h h'"
  by (auto simp: agree_def)

section \<open>Values\<close>

text \<open>The elements of a slice; a nil slice has none.\<close>

definition elements :: "(addr \<Rightarrow> 'a list) \<Rightarrow> slice option \<Rightarrow> 'a list" where
  "elements f s = (case s of None \<Rightarrow> [] | Some sl \<Rightarrow> take (sl_len sl) (f (sl_array sl)))"

definition slice_ptrs :: "slice option \<Rightarrow> addr set" where
  "slice_ptrs s = (case s of None \<Rightarrow> {} | Some sl \<Rightarrow> {sl_array sl})"

definition spec_value :: "heap \<Rightarrow> spec_struct \<Rightarrow> gpu_spec" where
  "spec_value h s =
     \<lparr>spec_driver = map_option (h_driver_spec h) (ss_driver s),
      spec_time_slicing = map_option (h_time_slicing h) (ss_time_slicing s)\<rparr>"

definition spec_ptrs :: "heap \<Rightarrow> spec_struct \<Rightarrow> addr set" where
  "spec_ptrs h s = set_option (ss_driver s) \<union> set_option (ss_time_slicing s)"

definition status_value :: "heap \<Rightarrow> status_struct \<Rightarrow> gpu_status" where
  "status_value h s =
     \<lparr>operator_version = st_operator_version s, status_driver = map_option (h_driver_status h) (st_driver s),
      conditions = elements (h_conditions h) (st_conditions s)\<rparr>"

definition status_ptrs :: "heap \<Rightarrow> status_struct \<Rightarrow> addr set" where
  "status_ptrs h s = set_option (st_driver s) \<union> slice_ptrs (st_conditions s)"

definition meta_ptrs :: "heap \<Rightarrow> object_meta \<Rightarrow> addr set" where
  "meta_ptrs h m = set_option (om_deletion m) \<union> slice_ptrs (om_finalizers m)"

definition meta_value :: "heap \<Rightarrow> object_meta \<Rightarrow> string \<times> int64 \<times> string \<times> time option \<times> string list" where
  "meta_value h m =
     (om_name m, om_generation m, om_resource_version m, map_option (h_time h) (om_deletion m),
      elements (h_strings h) (om_finalizers m))"

definition gpu_value :: "heap \<Rightarrow> gpu_struct \<Rightarrow> type_meta \<times> gpu" where
  "gpu_value h g =
     (gs_type g,
      \<lparr>gpu_name = om_name (gs_meta g), generation = om_generation (gs_meta g),
       resource_version = om_resource_version (gs_meta g),
       deletion_timestamp = map_option (h_time h) (om_deletion (gs_meta g)),
       finalizers = elements (h_strings h) (om_finalizers (gs_meta g)),
       gpu_spec_of = spec_value h (gs_spec g), gpu_status_of = status_value h (gs_status g)\<rparr>)"

definition gpu_ptrs :: "heap \<Rightarrow> gpu_struct \<Rightarrow> addr set" where
  "gpu_ptrs h g = meta_ptrs h (gs_meta g) \<union> spec_ptrs h (gs_spec g) \<union> status_ptrs h (gs_status g)"

definition list_meta_value :: "heap \<Rightarrow> list_meta \<Rightarrow> string \<times> string \<times> int64 option" where
  "list_meta_value h m = (lm_resource_version m, lm_continue m, map_option (h_int64 h) (lm_remaining m))"

definition list_value ::
  "heap \<Rightarrow> gpu_list_struct \<Rightarrow> type_meta \<times> (string \<times> string \<times> int64 option) \<times> (type_meta \<times> gpu) list" where
  "list_value h l =
     (gl_type l, list_meta_value h (gl_meta l), map (gpu_value h) (elements (h_items h) (gl_items l)))"

definition list_meta_ptrs :: "heap \<Rightarrow> list_meta \<Rightarrow> addr set" where
  "list_meta_ptrs h m = set_option (lm_remaining m)"

definition list_ptrs :: "heap \<Rightarrow> gpu_list_struct \<Rightarrow> addr set" where
  "list_ptrs h l =
     list_meta_ptrs h (gl_meta l) \<union> slice_ptrs (gl_items l) \<union>
     (\<Union>g \<in> set (elements (h_items h) (gl_items l)). gpu_ptrs h g)"

section \<open>Laws of the regions\<close>

text \<open>A region is independent of the limit and of the other regions; a write changes one address.\<close>

locale heap_region =
  fixes r :: "'a region"
  assumes read_update: "fst r (snd r F h) = F (fst r h)"
    and limit_update: "h_limit (snd r F h) = h_limit h"
    and read_limit: "fst r (h\<lparr>h_limit := n\<rparr>) = fst r h"
    and read_agree: "agree {a} h h' \<Longrightarrow> fst r h' a = fst r h a"
    and update_elsewhere: "a \<notin> A \<Longrightarrow> agree A h (snd r (\<lambda>f. f(a := v)) h)"
begin

lemma agree_alloc: "L \<le> h_limit h \<Longrightarrow> agree {..<L} h ((snd r (\<lambda>f. f(h_limit h := v)) h)\<lparr>h_limit := n\<rparr>)"
  using update_elsewhere [of "h_limit h" "{..<L}" h v] by (simp add: agree_def)

lemma read_alloc: "fst r ((snd r (\<lambda>f. f(h_limit h := v)) h)\<lparr>h_limit := n\<rparr>) (h_limit h) = v"
  by (simp add: read_limit read_update)

end

interpretation driver_specs: heap_region driver_specs by unfold_locales (auto simp: region_defs agree_def)
interpretation time_slicings: heap_region time_slicings by unfold_locales (auto simp: region_defs agree_def)
interpretation driver_statuses: heap_region driver_statuses by unfold_locales (auto simp: region_defs agree_def)
interpretation times: heap_region times by unfold_locales (auto simp: region_defs agree_def)
interpretation int64s: heap_region int64s by unfold_locales (auto simp: region_defs agree_def)
interpretation string_arrays: heap_region string_arrays by unfold_locales (auto simp: region_defs agree_def)
interpretation condition_arrays: heap_region condition_arrays by unfold_locales (auto simp: region_defs agree_def)
interpretation specs: heap_region specs by unfold_locales (auto simp: region_defs agree_def)
interpretation statuses: heap_region statuses by unfold_locales (auto simp: region_defs agree_def)
interpretation gpus: heap_region gpus by unfold_locales (auto simp: region_defs agree_def)
interpretation gpu_arrays: heap_region gpu_arrays by unfold_locales (auto simp: region_defs agree_def)
interpretation gpu_lists: heap_region gpu_lists by unfold_locales (auto simp: region_defs agree_def)

section \<open>What a value depends on\<close>

lemma elements_frame: "agree (slice_ptrs s) h h' \<Longrightarrow> elements (h_conditions h') s = elements (h_conditions h) s"
  "agree (slice_ptrs s) h h' \<Longrightarrow> elements (h_strings h') s = elements (h_strings h) s"
  "agree (slice_ptrs s) h h' \<Longrightarrow> elements (h_items h') s = elements (h_items h) s"
  by (auto simp: elements_def slice_ptrs_def agree_def split: option.splits)

lemma spec_frame: "agree (spec_ptrs h s) h h' \<Longrightarrow> spec_value h' s = spec_value h s \<and> spec_ptrs h' s = spec_ptrs h s"
  by (auto simp: spec_value_def spec_ptrs_def agree_def option.map_sel intro!: map_option_cong)

lemma status_frame:
  "agree (status_ptrs h s) h h' \<Longrightarrow> status_value h' s = status_value h s \<and> status_ptrs h' s = status_ptrs h s"
  using elements_frame(1) [of "st_conditions s" h h']
  by (auto simp: status_value_def status_ptrs_def agree_Un) (auto simp: agree_def intro!: map_option_cong)

lemma meta_frame: "agree (meta_ptrs h m) h h' \<Longrightarrow> meta_value h' m = meta_value h m \<and> meta_ptrs h' m = meta_ptrs h m"
  using elements_frame(2) [of "om_finalizers m" h h']
  by (auto simp: meta_ptrs_def meta_value_def agree_Un) (auto simp: agree_def intro!: map_option_cong)

lemma gpu_frame: "agree (gpu_ptrs h g) h h' \<Longrightarrow> gpu_value h' g = gpu_value h g \<and> gpu_ptrs h' g = gpu_ptrs h g"
  using meta_frame [of h "gs_meta g" h'] spec_frame [of h "gs_spec g" h'] status_frame [of h "gs_status g" h']
  by (simp add: gpu_ptrs_def gpu_value_def meta_value_def agree_Un)

lemma list_meta_frame: "agree (list_meta_ptrs h m) h h' \<Longrightarrow> list_meta_value h' m = list_meta_value h m"
  by (auto simp: list_meta_value_def list_meta_ptrs_def agree_def intro!: map_option_cong)

lemma list_frame: "agree (list_ptrs h l) h h' \<Longrightarrow> list_value h' l = list_value h l \<and> list_ptrs h' l = list_ptrs h l"
proof -
  assume agree: "agree (list_ptrs h l) h h'"
  then have items: "elements (h_items h') (gl_items l) = elements (h_items h) (gl_items l)"
    by (intro elements_frame) (simp add: list_ptrs_def agree_Un)
  have gpu: "gpu_value h' g = gpu_value h g \<and> gpu_ptrs h' g = gpu_ptrs h g"
    if "g \<in> set (elements (h_items h) (gl_items l))" for g
    using that by (intro gpu_frame agree_mono [OF agree]) (auto simp: list_ptrs_def)
  have "list_meta_value h' (gl_meta l) = list_meta_value h (gl_meta l)"
    by (intro list_meta_frame) (use agree in \<open>simp add: list_ptrs_def agree_Un\<close>)
  with gpu show ?thesis by (auto simp: list_value_def list_ptrs_def items list_meta_ptrs_def)
qed

end
