(* ===== verification/Deep_Copy.thy ===== *)
theory Deep_Copy
  imports Go_Heap
begin

text \<open>
  The generated deep copies of \<open>api/v1beta1/zz_generated.deepcopy.go\<close>, over the heap of
  \<open>Go_Heap\<close>. \<open>DeepCopyInto\<close> returns the struct that it stores to \<open>out\<close>; it starts from the
  shallow copy \<open>*out = *in\<close> and replaces every pointer and slice that is not nil. The copies of
  the metadata types are library code and a parameter. The contract of a deep copy (locale
  \<open>deep_copier\<close>): the copy reads the same, nothing that existed changes, and everything the copy
  points to is new.
\<close>

section \<open>The contract\<close>

lemma below: "A \<subseteq> {l..<u} \<Longrightarrow> A \<subseteq> {..<u :: addr}"
  by auto

locale deep_copier =
  fixes val :: "heap \<Rightarrow> 'a \<Rightarrow> 'v" and ptrs :: "heap \<Rightarrow> 'a \<Rightarrow> addr set" and copy :: "'a \<Rightarrow> 'a heap_op"
  assumes frame: "agree (ptrs h x) h h' \<Longrightarrow> val h' x = val h x \<and> ptrs h' x = ptrs h x"
    and copy_spec: "ptrs h x \<subseteq> {..<h_limit h} \<Longrightarrow>
      wp (copy x) (\<lambda>y h'. h_limit h \<le> h_limit h' \<and> agree {..<h_limit h} h h' \<and>
        val h' y = val h x \<and> ptrs h' y \<subseteq> {h_limit h..<h_limit h'}) h"
begin

text \<open>The copy in the middle of an operation that began at an earlier limit.\<close>

lemma wp_copy:
  assumes "ptrs h x \<subseteq> {..<h_limit h}" and "L \<le> h_limit h"
    and "\<And>y h'. h_limit h \<le> h_limit h' \<Longrightarrow> agree {..<h_limit h} h h' \<Longrightarrow> val h' y = val h x \<Longrightarrow>
      ptrs h' y \<subseteq> {h_limit h..<h_limit h'} \<Longrightarrow> Q y h'"
  shows "wp (copy x) Q h"
  by (rule wp_mono [OF copy_spec [OF assms(1)]]) (use assms(3) in blast)

text \<open>A value whose variables are all below a limit is not touched by what only allocates above it.\<close>

lemma later:
  assumes "agree {..<l} h h'" and "ptrs h x \<subseteq> {..<l}"
  shows "val h' x = val h x" "ptrs h' x = ptrs h x"
  using frame [OF agree_mono [OF assms]] by simp_all

text \<open>
  Isolation: whatever is written later to variables that the copy does not use (all those that
  the original uses are such), the copy keeps its value; and the other way round.
\<close>

lemma isolated:
  assumes "ptrs h x \<subseteq> {..<h_limit h}"
  shows "wp (copy x) (\<lambda>y h'. val h' y = val h x \<and> val h' x = val h x \<and> ptrs h' x \<inter> ptrs h' y = {} \<and>
    (\<forall>h''. agree (- ptrs h' x) h' h'' \<longrightarrow> val h'' y = val h x) \<and>
    (\<forall>h''. agree (- ptrs h' y) h' h'' \<longrightarrow> val h'' x = val h x)) h"
proof (rule wp_mono [OF copy_spec [OF assms]])
  fix y h'
  assume c: "h_limit h \<le> h_limit h' \<and> agree {..<h_limit h} h h' \<and> val h' y = val h x \<and>
    ptrs h' y \<subseteq> {h_limit h..<h_limit h'}"
  have x: "val h' x = val h x" "ptrs h' x = ptrs h x"
    using frame [of h x h'] agree_mono [OF _ assms, of h h'] c by auto
  have disjoint: "ptrs h' x \<inter> ptrs h' y = {}"
    using assms c by (auto simp: x subset_iff) (meson lessThan_iff not_less)
  have "val h'' y = val h x" if "agree (- ptrs h' x) h' h''" for h''
    using frame [of h' y h''] agree_mono [OF that, of "ptrs h' y"] disjoint c by auto
  moreover have "val h'' x = val h x" if "agree (- ptrs h' y) h' h''" for h''
    using frame [of h' x h''] agree_mono [OF that, of "ptrs h' x"] disjoint x by auto
  ultimately show "val h' y = val h x \<and> val h' x = val h x \<and> ptrs h' x \<inter> ptrs h' y = {} \<and>
    (\<forall>h''. agree (- ptrs h' x) h' h'' \<longrightarrow> val h'' y = val h x) \<and>
    (\<forall>h''. agree (- ptrs h' y) h' h'' \<longrightarrow> val h'' x = val h x)"
    using c x disjoint by blast
qed

end

section \<open>DeepCopy of a variable\<close>

text \<open>
  \<open>func (in *T) DeepCopy() *T\<close>: nil for nil, otherwise a new variable (first with the zero
  value of the type) that \<open>DeepCopyInto\<close> fills.
\<close>

definition deep_copy_var :: "'a region \<Rightarrow> 'a \<Rightarrow> ('a \<Rightarrow> 'a heap_op) \<Rightarrow> addr option \<Rightarrow> addr option heap_op" where
  "deep_copy_var r zero copy_into p =
     (case p of
        None \<Rightarrow> State_Monad.return None
      | Some a \<Rightarrow> do {
          out \<leftarrow> alloc r zero;
          v \<leftarrow> read_at r a;
          w \<leftarrow> copy_into v;
          write_at r out w;
          State_Monad.return (Some out)
        })"

definition var_value :: "'a region \<Rightarrow> (heap \<Rightarrow> 'a \<Rightarrow> 'v) \<Rightarrow> heap \<Rightarrow> addr option \<Rightarrow> 'v option" where
  "var_value r val h p = map_option (\<lambda>a. val h (fst r h a)) p"

definition var_ptrs :: "'a region \<Rightarrow> (heap \<Rightarrow> 'a \<Rightarrow> addr set) \<Rightarrow> heap \<Rightarrow> addr option \<Rightarrow> addr set" where
  "var_ptrs r ptrs h p = (case p of None \<Rightarrow> {} | Some a \<Rightarrow> insert a (ptrs h (fst r h a)))"

locale copied_variable = deep_copier val ptrs copy + heap_region r
  for val :: "heap \<Rightarrow> 'a \<Rightarrow> 'v" and ptrs :: "heap \<Rightarrow> 'a \<Rightarrow> addr set" and copy :: "'a \<Rightarrow> 'a heap_op"
    and r :: "'a region" +
  fixes zero :: 'a
begin

lemma var_frame:
  assumes "agree (var_ptrs r ptrs h p) h h'"
  shows "var_value r val h' p = var_value r val h p \<and> var_ptrs r ptrs h' p = var_ptrs r ptrs h p"
proof (cases p)
  case (Some a)
  with assms have "fst r h' a = fst r h a" "agree (ptrs h (fst r h a)) h h'"
    by (auto simp: var_ptrs_def intro: read_agree agree_mono)
  with frame [of h "fst r h a" h'] show ?thesis by (simp add: Some var_value_def var_ptrs_def)
qed (simp add: var_value_def var_ptrs_def)

lemma var_copy_spec:
  assumes "var_ptrs r ptrs h p \<subseteq> {..<h_limit h}"
  shows "wp (deep_copy_var r zero copy p) (\<lambda>q h'. h_limit h \<le> h_limit h' \<and> agree {..<h_limit h} h h' \<and>
    var_value r val h' q = var_value r val h p \<and> var_ptrs r ptrs h' q \<subseteq> {h_limit h..<h_limit h'}) h"
proof (cases p)
  case (Some a)
  define k where "k = (snd r (\<lambda>f. f(h_limit h := zero)) h)\<lparr>h_limit := h_limit h + 1\<rparr>"
  have k: "agree {..<h_limit h} h k" "h_limit k = h_limit h + 1"
    using agree_alloc [where L = "h_limit h" and h = h] by (simp_all add: k_def)
  have a: "a < h_limit h" "ptrs h (fst r h a) \<subseteq> {..<h_limit h}"
    using assms by (simp_all add: Some var_ptrs_def)
  have read: "fst r k a = fst r h a" using a(1) by (intro read_agree agree_mono [OF k(1)]) simp
  have old: "val k (fst r h a) = val h (fst r h a)" "ptrs k (fst r h a) = ptrs h (fst r h a)"
    using frame [OF agree_mono [OF k(1) a(2)]] by simp_all
  show ?thesis
    unfolding deep_copy_var_def Some option.case wp_simps k_def [symmetric] read
  proof (rule wp_mono [OF copy_spec])
    show "ptrs k (fst r h a) \<subseteq> {..<h_limit k}" using a(2) k(2) old by auto
  next
    fix w h'
    assume c: "h_limit k \<le> h_limit h' \<and> agree {..<h_limit k} k h' \<and> val h' w = val k (fst r h a) \<and>
      ptrs h' w \<subseteq> {h_limit k..<h_limit h'}"
    let ?h = "snd r (\<lambda>f. f(h_limit h := w)) h'"
    have same: "agree (ptrs h' w) h' ?h" "agree {..<h_limit h} h' ?h"
      using c k(2) by (intro update_elsewhere; auto)+
    have "agree {..<h_limit h} h h'"
      using agree_trans [OF k(1)] agree_mono [of "{..<h_limit k}" k h' "{..<h_limit h}"] c k(2) by auto
    then have "agree {..<h_limit h} h ?h" using same(2) by (rule agree_trans)
    moreover have "val ?h w = val h' w \<and> ptrs ?h w = ptrs h' w" by (rule frame [OF same(1)])
    ultimately show "h_limit h \<le> h_limit ?h \<and> agree {..<h_limit h} h ?h \<and>
      var_value r val ?h (Some (h_limit h)) = var_value r val h (Some a) \<and>
      var_ptrs r ptrs ?h (Some (h_limit h)) \<subseteq> {h_limit h..<h_limit ?h}"
      using c k(2) old by (auto simp: var_value_def var_ptrs_def read_update limit_update)
  qed
qed (simp add: deep_copy_var_def wp_simps var_value_def var_ptrs_def)

end

sublocale copied_variable \<subseteq> var: deep_copier "var_value r val" "var_ptrs r ptrs" "deep_copy_var r zero copy"
  using var_frame var_copy_spec by unfold_locales

section \<open>The generated functions\<close>

text \<open>
  \<open>ObjectMeta.DeepCopyInto\<close>, \<open>ListMeta.DeepCopyInto\<close> and \<open>Condition.DeepCopyInto\<close> of
  apimachinery.
\<close>

record meta_library =
  copy_object_meta :: "object_meta \<Rightarrow> object_meta heap_op"
  copy_list_meta :: "list_meta \<Rightarrow> list_meta heap_op"
  copy_condition :: "condition \<Rightarrow> condition"

text \<open>The zero values of the types.\<close>

definition zero_driver_spec :: driver_spec where "zero_driver_spec = \<lparr>spec_version = []\<rparr>"
definition zero_time_slicing :: time_slicing_spec where "zero_time_slicing = \<lparr>replicas = 0\<rparr>"
definition zero_spec :: spec_struct where "zero_spec = \<lparr>ss_driver = None, ss_time_slicing = None\<rparr>"
definition zero_status :: status_struct where
  "zero_status = \<lparr>st_operator_version = [], st_driver = None, st_conditions = None\<rparr>"
definition zero_gpu :: gpu_struct where
  "zero_gpu = \<lparr>gs_type = \<lparr>tm_kind = [], tm_api_version = []\<rparr>,
     gs_meta = \<lparr>om_name = [], om_generation = 0, om_resource_version = [], om_deletion = None, om_finalizers = None\<rparr>,
     gs_spec = zero_spec, gs_status = zero_status\<rparr>"
definition zero_gpu_list :: gpu_list_struct where
  "zero_gpu_list = \<lparr>gl_type = \<lparr>tm_kind = [], tm_api_version = []\<rparr>,
     gl_meta = \<lparr>lm_resource_version = [], lm_continue = [], lm_remaining = None\<rparr>, gl_items = None\<rparr>"

definition driver_spec_deep_copy_into :: "driver_spec \<Rightarrow> driver_spec heap_op" where
  "driver_spec_deep_copy_into v = State_Monad.return v"

definition driver_status_deep_copy_into :: "driver_status \<Rightarrow> driver_status heap_op" where
  "driver_status_deep_copy_into v = State_Monad.return v"

definition time_slicing_deep_copy_into :: "time_slicing_spec \<Rightarrow> time_slicing_spec heap_op" where
  "time_slicing_deep_copy_into v = State_Monad.return v"

definition driver_spec_deep_copy :: "addr option \<Rightarrow> addr option heap_op" where
  "driver_spec_deep_copy p = deep_copy_var driver_specs zero_driver_spec driver_spec_deep_copy_into p"

definition driver_status_deep_copy :: "addr option \<Rightarrow> addr option heap_op" where
  "driver_status_deep_copy p = deep_copy_var driver_statuses empty_driver_status driver_status_deep_copy_into p"

definition time_slicing_deep_copy :: "addr option \<Rightarrow> addr option heap_op" where
  "time_slicing_deep_copy p = deep_copy_var time_slicings zero_time_slicing time_slicing_deep_copy_into p"

text \<open>
  A pointer field of a struct: stays nil, or gets a new variable with the same contents
  (\<open>*out = new(T); **out = **in\<close>).
\<close>

definition copy_pointer :: "'a region \<Rightarrow> 'a \<Rightarrow> addr option \<Rightarrow> addr option heap_op" where
  "copy_pointer r zero p = deep_copy_var r zero State_Monad.return p"

definition spec_deep_copy_into :: "spec_struct \<Rightarrow> spec_struct heap_op" where
  "spec_deep_copy_into s = do {
     d \<leftarrow> copy_pointer driver_specs zero_driver_spec (ss_driver s);
     t \<leftarrow> copy_pointer time_slicings zero_time_slicing (ss_time_slicing s);
     State_Monad.return (s\<lparr>ss_driver := d, ss_time_slicing := t\<rparr>)
   }"

definition spec_deep_copy :: "addr option \<Rightarrow> addr option heap_op" where
  "spec_deep_copy p = deep_copy_var specs zero_spec spec_deep_copy_into p"

text \<open>The loop over a slice of conditions: the \<open>i\<close>-th element of the new array is set.\<close>

fun copy_conditions :: "meta_library \<Rightarrow> addr \<Rightarrow> nat \<Rightarrow> condition list \<Rightarrow> unit heap_op" where
  "copy_conditions M out i [] = State_Monad.return ()"
| "copy_conditions M out i (c # cs) = do {
     ys \<leftarrow> read_at condition_arrays out;
     write_at condition_arrays out (ys[i := copy_condition M c]);
     copy_conditions M out (Suc i) cs
   }"

definition zero_condition :: condition where
  "zero_condition = new_condition [] [] [] []"

definition status_deep_copy_into :: "meta_library \<Rightarrow> status_struct \<Rightarrow> status_struct heap_op" where
  "status_deep_copy_into M s = do {
     d \<leftarrow> copy_pointer driver_statuses empty_driver_status (st_driver s);
     cs \<leftarrow> (case st_conditions s of
        None \<Rightarrow> State_Monad.return None
      | Some sl \<Rightarrow> do {
          xs \<leftarrow> read_at condition_arrays (sl_array sl);
          let n = length (take (sl_len sl) xs);
          out \<leftarrow> alloc condition_arrays (replicate n zero_condition);
          copy_conditions M out 0 (take (sl_len sl) xs);
          State_Monad.return (Some \<lparr>sl_array = out, sl_len = n\<rparr>)
        });
     State_Monad.return (s\<lparr>st_driver := d, st_conditions := cs\<rparr>)
   }"

definition status_deep_copy :: "meta_library \<Rightarrow> addr option \<Rightarrow> addr option heap_op" where
  "status_deep_copy M p = deep_copy_var statuses zero_status (status_deep_copy_into M) p"

definition gpu_deep_copy_into :: "meta_library \<Rightarrow> gpu_struct \<Rightarrow> gpu_struct heap_op" where
  "gpu_deep_copy_into M g = do {
     m \<leftarrow> copy_object_meta M (gs_meta g);
     s \<leftarrow> spec_deep_copy_into (gs_spec g);
     t \<leftarrow> status_deep_copy_into M (gs_status g);
     State_Monad.return (g\<lparr>gs_type := gs_type g, gs_meta := m, gs_spec := s, gs_status := t\<rparr>)
   }"

definition gpu_deep_copy :: "meta_library \<Rightarrow> addr option \<Rightarrow> addr option heap_op" where
  "gpu_deep_copy M p = deep_copy_var gpus zero_gpu (gpu_deep_copy_into M) p"

text \<open>\<open>DeepCopyObject\<close>: the copy as a \<open>runtime.Object\<close>, the nil interface for a nil pointer.\<close>

definition gpu_deep_copy_object :: "meta_library \<Rightarrow> addr option \<Rightarrow> addr option heap_op" where
  "gpu_deep_copy_object M p = do {
     c \<leftarrow> gpu_deep_copy M p;
     State_Monad.return (case c of Some q \<Rightarrow> Some q | None \<Rightarrow> None)
   }"

text \<open>The loop over the items of a list.\<close>

fun copy_items :: "meta_library \<Rightarrow> addr \<Rightarrow> nat \<Rightarrow> gpu_struct list \<Rightarrow> unit heap_op" where
  "copy_items M out i [] = State_Monad.return ()"
| "copy_items M out i (g # gs) = do {
     c \<leftarrow> gpu_deep_copy_into M g;
     ys \<leftarrow> read_at gpu_arrays out;
     write_at gpu_arrays out (ys[i := c]);
     copy_items M out (Suc i) gs
   }"

definition gpu_list_deep_copy_into :: "meta_library \<Rightarrow> gpu_list_struct \<Rightarrow> gpu_list_struct heap_op" where
  "gpu_list_deep_copy_into M l = do {
     m \<leftarrow> copy_list_meta M (gl_meta l);
     items \<leftarrow> (case gl_items l of
        None \<Rightarrow> State_Monad.return None
      | Some sl \<Rightarrow> do {
          xs \<leftarrow> read_at gpu_arrays (sl_array sl);
          let n = length (take (sl_len sl) xs);
          out \<leftarrow> alloc gpu_arrays (replicate n zero_gpu);
          copy_items M out 0 (take (sl_len sl) xs);
          State_Monad.return (Some \<lparr>sl_array = out, sl_len = n\<rparr>)
        });
     State_Monad.return (l\<lparr>gl_type := gl_type l, gl_meta := m, gl_items := items\<rparr>)
   }"

definition gpu_list_deep_copy :: "meta_library \<Rightarrow> addr option \<Rightarrow> addr option heap_op" where
  "gpu_list_deep_copy M p = deep_copy_var gpu_lists zero_gpu_list (gpu_list_deep_copy_into M) p"

definition gpu_list_deep_copy_object :: "meta_library \<Rightarrow> addr option \<Rightarrow> addr option heap_op" where
  "gpu_list_deep_copy_object M p = do {
     c \<leftarrow> gpu_list_deep_copy M p;
     State_Monad.return (case c of Some q \<Rightarrow> Some q | None \<Rightarrow> None)
   }"

section \<open>The contract holds\<close>

text \<open>Values without pointers, and pointers to them.\<close>

interpretation plain: deep_copier "\<lambda>h v. v" "\<lambda>h v. {}" State_Monad.return
  by unfold_locales (simp_all add: wp_simps)

interpretation driver_spec_var: copied_variable "\<lambda>h v. v" "\<lambda>h v. {}" State_Monad.return driver_specs zero_driver_spec
  by unfold_locales
interpretation time_slicing_var: copied_variable "\<lambda>h v. v" "\<lambda>h v. {}" State_Monad.return time_slicings zero_time_slicing
  by unfold_locales
interpretation driver_status_var: copied_variable "\<lambda>h v. v" "\<lambda>h v. {}" State_Monad.return driver_statuses empty_driver_status
  by unfold_locales

lemma var_pointer:
  "var_ptrs r (\<lambda>h v. {}) h p = set_option p"
  "var_value driver_specs (\<lambda>h v. v) h p = map_option (h_driver_spec h) p"
  "var_value time_slicings (\<lambda>h v. v) h p = map_option (h_time_slicing h) p"
  "var_value driver_statuses (\<lambda>h v. v) h p = map_option (h_driver_status h) p"
  by (auto simp: var_ptrs_def var_value_def region_defs split: option.split)

lemmas wp_copy_driver_spec = driver_spec_var.var.wp_copy [folded copy_pointer_def, unfolded var_pointer]
lemmas wp_copy_time_slicing = time_slicing_var.var.wp_copy [folded copy_pointer_def, unfolded var_pointer]
lemmas wp_copy_driver_status = driver_status_var.var.wp_copy [folded copy_pointer_def, unfolded var_pointer]

interpretation spec_copy: deep_copier spec_value spec_ptrs spec_deep_copy_into
proof
  fix h :: heap and s
  assume old: "spec_ptrs h s \<subseteq> {..<h_limit h}"
  show "wp (spec_deep_copy_into s) (\<lambda>y h'. h_limit h \<le> h_limit h' \<and> agree {..<h_limit h} h h' \<and>
      spec_value h' y = spec_value h s \<and> spec_ptrs h' y \<subseteq> {h_limit h..<h_limit h'}) h"
    unfolding spec_deep_copy_into_def wp_simps
  proof (rule wp_copy_driver_spec [OF _ order_refl])
    fix d k
    assume d: "h_limit h \<le> h_limit k" "agree {..<h_limit h} h k" "set_option d \<subseteq> {h_limit h..<h_limit k}"
      "map_option (h_driver_spec k) d = map_option (h_driver_spec h) (ss_driver s)"
    have s: "spec_value k s = spec_value h s"
      using spec_frame [OF agree_mono [OF d(2) old]] by simp
    show "wp (copy_pointer time_slicings zero_time_slicing (ss_time_slicing s)) (\<lambda>t h'. h_limit h \<le> h_limit h' \<and>
        agree {..<h_limit h} h h' \<and> spec_value h' (s\<lparr>ss_driver := d, ss_time_slicing := t\<rparr>) = spec_value h s \<and>
        spec_ptrs h' (s\<lparr>ss_driver := d, ss_time_slicing := t\<rparr>) \<subseteq> {h_limit h..<h_limit h'}) k"
    proof (rule wp_copy_time_slicing [OF _ order_refl])
      fix t h'
      assume t: "h_limit k \<le> h_limit h'" "agree {..<h_limit k} k h'" "set_option t \<subseteq> {h_limit k..<h_limit h'}"
        "map_option (h_time_slicing h') t = map_option (h_time_slicing k) (ss_time_slicing s)"
      have "map_option (h_driver_spec h') d = map_option (h_driver_spec k) d"
        using driver_spec_var.var.later(1) [OF t(2), of d] below [OF d(3)] by (simp add: var_pointer)
      moreover have "agree {..<h_limit h} h h'"
        using agree_trans [OF d(2) agree_mono [OF t(2)]] d(1) by simp
      ultimately show "h_limit h \<le> h_limit h' \<and>
        agree {..<h_limit h} h h' \<and> spec_value h' (s\<lparr>ss_driver := d, ss_time_slicing := t\<rparr>) = spec_value h s \<and>
        spec_ptrs h' (s\<lparr>ss_driver := d, ss_time_slicing := t\<rparr>) \<subseteq> {h_limit h..<h_limit h'}"
        using d t s by (auto simp: spec_value_def spec_ptrs_def)
    qed (use old d in \<open>auto simp: spec_ptrs_def\<close>)
  qed (use old in \<open>auto simp: spec_ptrs_def\<close>)
qed (rule spec_frame)

text \<open>The loop over the conditions fills the new array and touches nothing else.\<close>

lemma wp_copy_conditions:
  assumes "\<And>c. copy_condition M c = c" and "h_conditions h out = ys @ zs" and "length ys = i" and "length zs = length cs"
    and "\<And>h'. h_limit h' = h_limit h \<Longrightarrow> h_conditions h' out = ys @ cs \<Longrightarrow> agree (- {out}) h h' \<Longrightarrow> Q () h'"
  shows "wp (copy_conditions M out i cs) Q h"
  using assms(2-)
proof (induction cs arbitrary: h ys zs i)
  case Nil
  then show ?case by (simp add: wp_simps)
next
  case (Cons c cs)
  from Cons.prems(3) obtain z zs' where zs: "zs = z # zs'" by (cases zs) auto
  let ?h = "snd condition_arrays (\<lambda>f. f(out := (ys @ zs)[i := c])) h"
  have step: "h_conditions ?h out = (ys @ [c]) @ zs'" "h_limit ?h = h_limit h"
    using Cons.prems(2) by (simp_all add: zs region_defs list_update_append)
  have "agree (- {out}) h ?h" by (rule condition_arrays.update_elsewhere) simp
  then have "wp (copy_conditions M out (Suc i) cs) Q ?h"
    using Cons.prems step by (intro Cons.IH [of ?h "ys @ [c]" zs' "Suc i"]) (auto simp: zs intro: agree_trans)
  then show ?case
    using Cons.prems(1) by (simp add: wp_simps assms(1)) (simp add: region_defs)
qed

text \<open>The documented behaviour of the library's copies.\<close>

locale meta_copies =
  object: deep_copier meta_value meta_ptrs "copy_object_meta M" +
  list: deep_copier list_meta_value list_meta_ptrs "copy_list_meta M"
  for M :: meta_library +
  assumes copy_condition_id: "copy_condition M c = c"
begin

text \<open>A slice of conditions: nil stays nil, otherwise the new array holds the same elements.\<close>

lemma wp_copy_condition_slice:
  assumes "slice_ptrs s \<subseteq> {..<h_limit h}"
    and "\<And>t h'. h_limit h \<le> h_limit h' \<Longrightarrow> agree {..<h_limit h} h h' \<Longrightarrow>
      elements (h_conditions h') t = elements (h_conditions h) s \<Longrightarrow> slice_ptrs t \<subseteq> {h_limit h..<h_limit h'} \<Longrightarrow> Q t h'"
  shows "wp (case s of
        None \<Rightarrow> State_Monad.return None
      | Some sl \<Rightarrow> do {
          xs \<leftarrow> read_at condition_arrays (sl_array sl);
          let n = length (take (sl_len sl) xs);
          out \<leftarrow> alloc condition_arrays (replicate n zero_condition);
          copy_conditions M out 0 (take (sl_len sl) xs);
          State_Monad.return (Some \<lparr>sl_array = out, sl_len = n\<rparr>)
        }) Q h"
proof (cases s)
  case (Some sl)
  let ?xs = "take (sl_len sl) (fst condition_arrays h (sl_array sl))"
  let ?k = "(snd condition_arrays (\<lambda>f. f(h_limit h := replicate (length ?xs) zero_condition)) h)\<lparr>h_limit := h_limit h + 1\<rparr>"
  have k: "agree {..<h_limit h} h ?k" "h_limit ?k = h_limit h + 1"
    using condition_arrays.agree_alloc [where L = "h_limit h" and h = h] by simp_all
  have xs: "?xs = elements (h_conditions h) s" by (simp add: Some elements_def region_defs)
  show ?thesis
    unfolding Some option.case wp_simps Let_def
  proof (rule wp_copy_conditions [OF copy_condition_id, where ys = "[]" and zs = "replicate (length ?xs) zero_condition"])
    fix h'
    assume h': "h_limit h' = h_limit ?k" "h_conditions h' (h_limit h) = [] @ ?xs" "agree (- {h_limit h}) ?k h'"
    then have "agree {..<h_limit h} h h'" by (intro agree_trans [OF k(1)] agree_mono [OF h'(3)]) auto
    then show "Q (Some \<lparr>sl_array = h_limit h, sl_len = length ?xs\<rparr>) h'"
      using h'(1,2) k(2) by (intro assms(2)) (auto simp: xs [symmetric] slice_ptrs_def elements_def [of _ "Some _"] min_def)
  qed (simp_all add: region_defs)
next
  case None
  then show ?thesis using assms(2) [of h None] by (simp add: wp_simps slice_ptrs_def)
qed

lemma status_copy_spec:
  assumes old: "status_ptrs h s \<subseteq> {..<h_limit h}"
  shows "wp (status_deep_copy_into M s) (\<lambda>y h'. h_limit h \<le> h_limit h' \<and> agree {..<h_limit h} h h' \<and>
      status_value h' y = status_value h s \<and> status_ptrs h' y \<subseteq> {h_limit h..<h_limit h'}) h"
  unfolding status_deep_copy_into_def wp_bind
proof (rule wp_copy_driver_status [OF _ order_refl])
  fix d k
  assume d: "h_limit h \<le> h_limit k" "agree {..<h_limit h} h k" "set_option d \<subseteq> {h_limit h..<h_limit k}"
    "map_option (h_driver_status k) d = map_option (h_driver_status h) (st_driver s)"
  have s: "status_value k s = status_value h s"
    using status_frame [OF agree_mono [OF d(2) old]] by simp
  show "wp (case st_conditions s of
        None \<Rightarrow> State_Monad.return None
      | Some sl \<Rightarrow> do {
          xs \<leftarrow> read_at condition_arrays (sl_array sl);
          let n = length (take (sl_len sl) xs);
          out \<leftarrow> alloc condition_arrays (replicate n zero_condition);
          copy_conditions M out 0 (take (sl_len sl) xs);
          State_Monad.return (Some \<lparr>sl_array = out, sl_len = n\<rparr>)
        }) (\<lambda>cs. wp (State_Monad.return (s\<lparr>st_driver := d, st_conditions := cs\<rparr>)) (\<lambda>y h'. h_limit h \<le> h_limit h' \<and>
      agree {..<h_limit h} h h' \<and> status_value h' y = status_value h s \<and> status_ptrs h' y \<subseteq> {h_limit h..<h_limit h'})) k"
  proof (rule wp_copy_condition_slice)
    fix t h'
    assume t: "h_limit k \<le> h_limit h'" "agree {..<h_limit k} k h'" "slice_ptrs t \<subseteq> {h_limit k..<h_limit h'}"
      "elements (h_conditions h') t = elements (h_conditions k) (st_conditions s)"
    have "map_option (h_driver_status h') d = map_option (h_driver_status k) d"
      using driver_status_var.var.later(1) [OF t(2), of d] below [OF d(3)] by (simp add: var_pointer)
    moreover have "agree {..<h_limit h} h h'"
      using agree_trans [OF d(2) agree_mono [OF t(2)]] d(1) by simp
    ultimately show "wp (State_Monad.return (s\<lparr>st_driver := d, st_conditions := t\<rparr>)) (\<lambda>y h'. h_limit h \<le> h_limit h' \<and>
      agree {..<h_limit h} h h' \<and> status_value h' y = status_value h s \<and> status_ptrs h' y \<subseteq> {h_limit h..<h_limit h'}) h'"
      using d t s by (auto simp: wp_simps status_value_def status_ptrs_def)
  qed (use old d in \<open>auto simp: status_ptrs_def\<close>)
qed (use old in \<open>auto simp: status_ptrs_def\<close>)

end

sublocale meta_copies \<subseteq> status: deep_copier status_value status_ptrs "status_deep_copy_into M"
  using status_frame status_copy_spec by unfold_locales

context meta_copies
begin

lemma gpu_copy_spec:
  assumes old: "gpu_ptrs h g \<subseteq> {..<h_limit h}"
  shows "wp (gpu_deep_copy_into M g) (\<lambda>y h'. h_limit h \<le> h_limit h' \<and> agree {..<h_limit h} h h' \<and>
      gpu_value h' y = gpu_value h g \<and> gpu_ptrs h' y \<subseteq> {h_limit h..<h_limit h'}) h"
  unfolding gpu_deep_copy_into_def wp_simps
proof (rule object.wp_copy [OF _ order_refl])
  fix m k
  assume m: "h_limit h \<le> h_limit k" "agree {..<h_limit h} h k" "meta_value k m = meta_value h (gs_meta g)"
    "meta_ptrs k m \<subseteq> {h_limit h..<h_limit k}"
  have g: "gpu_value k g = gpu_value h g" "gpu_ptrs k g = gpu_ptrs h g"
    using gpu_frame [OF agree_mono [OF m(2) old]] by simp_all
  show "wp (spec_deep_copy_into (gs_spec g)) (\<lambda>s. wp (status_deep_copy_into M (gs_status g)) (\<lambda>t h'.
      h_limit h \<le> h_limit h' \<and> agree {..<h_limit h} h h' \<and>
      gpu_value h' (g\<lparr>gs_type := gs_type g, gs_meta := m, gs_spec := s, gs_status := t\<rparr>) = gpu_value h g \<and>
      gpu_ptrs h' (g\<lparr>gs_type := gs_type g, gs_meta := m, gs_spec := s, gs_status := t\<rparr>) \<subseteq> {h_limit h..<h_limit h'})) k"
  proof (rule spec_copy.wp_copy [OF _ order_refl])
    fix s l
    assume s: "h_limit k \<le> h_limit l" "agree {..<h_limit k} k l" "spec_value l s = spec_value k (gs_spec g)"
      "spec_ptrs l s \<subseteq> {h_limit k..<h_limit l}"
    have kl: "agree {..<h_limit h} h l" using agree_trans [OF m(2) agree_mono [OF s(2)]] m(1) by simp
    show "wp (status_deep_copy_into M (gs_status g)) (\<lambda>t h'.
      h_limit h \<le> h_limit h' \<and> agree {..<h_limit h} h h' \<and>
      gpu_value h' (g\<lparr>gs_type := gs_type g, gs_meta := m, gs_spec := s, gs_status := t\<rparr>) = gpu_value h g \<and>
      gpu_ptrs h' (g\<lparr>gs_type := gs_type g, gs_meta := m, gs_spec := s, gs_status := t\<rparr>) \<subseteq> {h_limit h..<h_limit h'}) l"
    proof (rule status.wp_copy [OF _ order_refl])
      fix t h'
      assume t: "h_limit l \<le> h_limit h'" "agree {..<h_limit l} l h'" "status_value h' t = status_value l (gs_status g)"
        "status_ptrs h' t \<subseteq> {h_limit l..<h_limit h'}"
      note spec' = spec_copy.later [OF t(2) below [OF s(4)]]
      have kh': "agree {..<h_limit k} k h'" using agree_trans [OF s(2) agree_mono [OF t(2)]] s(1) by simp
      note meta' = object.later [OF kh' below [OF m(4)]]
      have lh': "agree {..<h_limit h} h h'" using agree_trans [OF kl agree_mono [OF t(2)]] m(1) s(1) by simp
      have "status_value l (gs_status g) = status_value h (gs_status g)" "spec_value k (gs_spec g) = spec_value h (gs_spec g)"
        using status_frame [OF agree_mono [OF kl]] spec_frame [OF agree_mono [OF m(2)]] old by (simp_all add: gpu_ptrs_def)
      then have "gpu_value h' (g\<lparr>gs_type := gs_type g, gs_meta := m, gs_spec := s, gs_status := t\<rparr>) = gpu_value h g"
        using meta' spec' m(3) s(3) t(3) by (simp add: gpu_value_def meta_value_def)
      then show "h_limit h \<le> h_limit h' \<and> agree {..<h_limit h} h h' \<and>
        gpu_value h' (g\<lparr>gs_type := gs_type g, gs_meta := m, gs_spec := s, gs_status := t\<rparr>) = gpu_value h g \<and>
        gpu_ptrs h' (g\<lparr>gs_type := gs_type g, gs_meta := m, gs_spec := s, gs_status := t\<rparr>) \<subseteq> {h_limit h..<h_limit h'}"
        using lh' m(1,4) s(1,4) t(1,4) meta'(2) spec'(2) by (fastforce simp: gpu_ptrs_def)
    next
      show "status_ptrs l (gs_status g) \<subseteq> {..<h_limit l}"
        using old m(1) s(1) by (auto simp: gpu_ptrs_def status_ptrs_def)
    qed
  next
    show "spec_ptrs k (gs_spec g) \<subseteq> {..<h_limit k}"
      using old m(1) by (auto simp: gpu_ptrs_def spec_ptrs_def)
  qed
qed (use old in \<open>auto simp: gpu_ptrs_def\<close>)

end

sublocale meta_copies \<subseteq> gpu: deep_copier gpu_value gpu_ptrs "gpu_deep_copy_into M"
  using gpu_frame gpu_copy_spec by unfold_locales

sublocale meta_copies \<subseteq> gpu_var: copied_variable gpu_value gpu_ptrs "gpu_deep_copy_into M" gpus zero_gpu
  by unfold_locales

text \<open>The items of a list: the copies made so far stay as they are while further ones are made.\<close>

context meta_copies
begin

lemma wp_copy_items:
  assumes "out < h_limit h" and "h_items h out = ys @ zs" and "length ys = i" and "length zs = length gs"
    and "(\<Union>g \<in> set gs. gpu_ptrs h g) \<subseteq> {..<l}" and "l \<le> out"
    and "(\<Union>y \<in> set ys. gpu_ptrs h y) \<subseteq> {Suc out..<h_limit h}"
    and "\<And>cs h'. h_limit h \<le> h_limit h' \<Longrightarrow> agree {..<out} h h' \<Longrightarrow> h_items h' out = cs \<Longrightarrow>
      map (gpu_value h') cs = map (gpu_value h) (ys @ gs) \<Longrightarrow>
      (\<Union>c \<in> set cs. gpu_ptrs h' c) \<subseteq> {Suc out..<h_limit h'} \<Longrightarrow> Q () h'"
  shows "wp (copy_items M out i gs) Q h"
  using assms
proof (induction gs arbitrary: h ys zs i)
  case Nil
  show ?case unfolding copy_items.simps wp_simps by (rule Nil.prems(8)) (use Nil.prems in auto)
next
  case (Cons g gs)
  note prems = Cons.prems
  from prems(4) obtain z zs' where zs: "zs = z # zs'" by (cases zs) auto
  show ?case
    unfolding copy_items.simps wp_simps
  proof (rule gpu.wp_copy [OF _ order_refl])
    show "gpu_ptrs h g \<subseteq> {..<h_limit h}" using prems(1,5,6) by fastforce
  next
    fix c k
    assume c: "h_limit h \<le> h_limit k" "agree {..<h_limit h} h k" "gpu_value k c = gpu_value h g"
      "gpu_ptrs k c \<subseteq> {h_limit h..<h_limit k}"
    let ?k = "snd gpu_arrays (\<lambda>f. f(out := (fst gpu_arrays k out)[i := c])) k"
    have "h_items k out = ys @ zs"
      using c(2) prems(1,2) by (auto simp: agree_def)
    then have items: "h_items ?k out = (ys @ [c]) @ zs'" "h_limit ?k = h_limit k"
      using prems(3) by (simp_all add: zs region_defs list_update_append)
    have off: "agree A k ?k" if "out \<notin> A" for A using that by (rule gpu_arrays.update_elsewhere)
    have below: "agree {..<out} h ?k"
      using agree_trans [OF agree_mono [OF c(2)] off] prems(1) by auto
    have kept: "gpu_value ?k x = gpu_value h x \<and> gpu_ptrs ?k x = gpu_ptrs h x"
      if "gpu_ptrs h x \<subseteq> {..<h_limit h} - {out}" for x
    proof -
      have "agree ({..<h_limit h} - {out}) h ?k"
        by (rule agree_trans [OF agree_mono [OF c(2)] off]) auto
      with that show ?thesis by (intro gpu_frame) (rule agree_mono)
    qed
    have c': "gpu_value ?k c = gpu_value k c \<and> gpu_ptrs ?k c = gpu_ptrs k c"
      using c(4) prems(1) by (intro gpu_frame off) auto
    have ys: "gpu_ptrs h y \<subseteq> {..<h_limit h} - {out}" if "y \<in> set ys" for y
      using that prems(7) by fastforce
    have gs: "gpu_ptrs h x \<subseteq> {..<h_limit h} - {out}" if "x \<in> set (g # gs)" for x
      using that prems(1,5,6) by fastforce
    show "wp (copy_items M out (Suc i) gs) Q ?k"
    proof (rule Cons.IH)
      show "out < h_limit ?k" using prems(1) c(1) items(2) by simp
      show "h_items ?k out = (ys @ [c]) @ zs'" by (rule items)
      show "(\<Union>x \<in> set gs. gpu_ptrs ?k x) \<subseteq> {..<l}" using kept gs prems(5) by auto
      show "(\<Union>y \<in> set (ys @ [c]). gpu_ptrs ?k y) \<subseteq> {Suc out..<h_limit ?k}"
        using kept ys prems(1,7) c(1,4) c' items(2) by fastforce
    next
      fix cs h'
      assume h': "h_limit ?k \<le> h_limit h'" "agree {..<out} ?k h'" "h_items h' out = cs"
        "map (gpu_value h') cs = map (gpu_value ?k) ((ys @ [c]) @ gs)"
        "(\<Union>c \<in> set cs. gpu_ptrs h' c) \<subseteq> {Suc out..<h_limit h'}"
      have "map (gpu_value ?k) ((ys @ [c]) @ gs) = map (gpu_value h) (ys @ g # gs)"
        using kept ys gs c' c(3) by simp
      with h' show "Q () h'"
        using c(1) items(2) by (intro prems(8) agree_trans [OF below]) auto
    qed (use prems(3,4,6) zs in auto)
  qed
qed

lemma wp_copy_item_slice:
  assumes "slice_ptrs s \<union> (\<Union>g \<in> set (elements (h_items h) s). gpu_ptrs h g) \<subseteq> {..<h_limit h}"
    and "\<And>t h'. h_limit h \<le> h_limit h' \<Longrightarrow> agree {..<h_limit h} h h' \<Longrightarrow>
      map (gpu_value h') (elements (h_items h') t) = map (gpu_value h) (elements (h_items h) s) \<Longrightarrow>
      slice_ptrs t \<union> (\<Union>g \<in> set (elements (h_items h') t). gpu_ptrs h' g) \<subseteq> {h_limit h..<h_limit h'} \<Longrightarrow> Q t h'"
  shows "wp (case s of
        None \<Rightarrow> State_Monad.return None
      | Some sl \<Rightarrow> do {
          xs \<leftarrow> read_at gpu_arrays (sl_array sl);
          let n = length (take (sl_len sl) xs);
          out \<leftarrow> alloc gpu_arrays (replicate n zero_gpu);
          copy_items M out 0 (take (sl_len sl) xs);
          State_Monad.return (Some \<lparr>sl_array = out, sl_len = n\<rparr>)
        }) Q h"
proof (cases s)
  case (Some sl)
  let ?xs = "take (sl_len sl) (fst gpu_arrays h (sl_array sl))"
  let ?k = "(snd gpu_arrays (\<lambda>f. f(h_limit h := replicate (length ?xs) zero_gpu)) h)\<lparr>h_limit := h_limit h + 1\<rparr>"
  have k: "agree {..<h_limit h} h ?k" "h_limit ?k = h_limit h + 1"
    using gpu_arrays.agree_alloc [where L = "h_limit h" and h = h] by simp_all
  have xs: "?xs = elements (h_items h) s" by (simp add: Some elements_def region_defs)
  have old: "gpu_value ?k g = gpu_value h g \<and> gpu_ptrs ?k g = gpu_ptrs h g" if "g \<in> set ?xs" for g
    using that assms(1) by (intro gpu_frame agree_mono [OF k(1)]) (auto simp: xs)
  show ?thesis
    unfolding Some option.case wp_simps Let_def
  proof (rule wp_copy_items [where ys = "[]" and zs = "replicate (length ?xs) zero_gpu" and l = "h_limit h"])
    show "(\<Union>g \<in> set ?xs. gpu_ptrs ?k g) \<subseteq> {..<h_limit h}" using old assms(1) by (auto simp: xs)
  next
    fix cs h'
    assume h': "h_limit ?k \<le> h_limit h'" "agree {..<h_limit h} ?k h'" "h_items h' (h_limit h) = cs"
      "map (gpu_value h') cs = map (gpu_value ?k) ([] @ ?xs)" "(\<Union>c \<in> set cs. gpu_ptrs h' c) \<subseteq> {Suc (h_limit h)..<h_limit h'}"
    have len: "length cs = length ?xs" using arg_cong [OF h'(4), of length] by simp
    have "map (gpu_value h') cs = map (gpu_value h) (elements (h_items h) s)"
      using h'(4) old by (simp add: xs)
    moreover have "elements (h_items h') (Some \<lparr>sl_array = h_limit h, sl_len = length ?xs\<rparr>) = cs"
      using h'(3) len by (simp add: elements_def)
    ultimately show "Q (Some \<lparr>sl_array = h_limit h, sl_len = length ?xs\<rparr>) h'"
      using h'(1,5) k(2) by (intro assms(2) agree_trans [OF k(1) h'(2)]) (fastforce simp: slice_ptrs_def)+
  qed (simp_all add: region_defs)
next
  case None
  then show ?thesis using assms(2) [of h None] by (simp add: wp_simps slice_ptrs_def elements_def)
qed

lemma list_copy_spec:
  assumes old: "list_ptrs h g \<subseteq> {..<h_limit h}"
  shows "wp (gpu_list_deep_copy_into M g) (\<lambda>y h'. h_limit h \<le> h_limit h' \<and> agree {..<h_limit h} h h' \<and>
      list_value h' y = list_value h g \<and> list_ptrs h' y \<subseteq> {h_limit h..<h_limit h'}) h"
  unfolding gpu_list_deep_copy_into_def wp_bind
proof (rule list.wp_copy [OF _ order_refl])
  fix m k
  assume m: "h_limit h \<le> h_limit k" "agree {..<h_limit h} h k" "list_meta_value k m = list_meta_value h (gl_meta g)"
    "list_meta_ptrs k m \<subseteq> {h_limit h..<h_limit k}"
  have g: "list_value k g = list_value h g" "list_ptrs k g = list_ptrs h g"
    using list_frame [OF agree_mono [OF m(2) old]] by simp_all
  show "wp (case gl_items g of
        None \<Rightarrow> State_Monad.return None
      | Some sl \<Rightarrow> do {
          xs \<leftarrow> read_at gpu_arrays (sl_array sl);
          let n = length (take (sl_len sl) xs);
          out \<leftarrow> alloc gpu_arrays (replicate n zero_gpu);
          copy_items M out 0 (take (sl_len sl) xs);
          State_Monad.return (Some \<lparr>sl_array = out, sl_len = n\<rparr>)
        }) (\<lambda>items. wp (State_Monad.return (g\<lparr>gl_type := gl_type g, gl_meta := m, gl_items := items\<rparr>))
      (\<lambda>y h'. h_limit h \<le> h_limit h' \<and> agree {..<h_limit h} h h' \<and>
        list_value h' y = list_value h g \<and> list_ptrs h' y \<subseteq> {h_limit h..<h_limit h'})) k"
  proof (rule wp_copy_item_slice)
    show "slice_ptrs (gl_items g) \<union> (\<Union>x \<in> set (elements (h_items k) (gl_items g)). gpu_ptrs k x) \<subseteq> {..<h_limit k}"
    proof -
      have "list_ptrs k g \<subseteq> {..<h_limit k}" using old m(1) unfolding g(2) by auto
      then show ?thesis by (simp add: list_ptrs_def)
    qed
  next
    fix t h'
    assume t: "h_limit k \<le> h_limit h'" "agree {..<h_limit k} k h'"
      "map (gpu_value h') (elements (h_items h') t) = map (gpu_value k) (elements (h_items k) (gl_items g))"
      "slice_ptrs t \<union> (\<Union>g \<in> set (elements (h_items h') t). gpu_ptrs h' g) \<subseteq> {h_limit k..<h_limit h'}"
    note meta' = list.later [OF t(2) below [OF m(4)]]
    have "agree {..<h_limit h} h h'" using agree_trans [OF m(2) agree_mono [OF t(2)]] m(1) by simp
    moreover have "list_value h' (g\<lparr>gl_meta := m, gl_items := t\<rparr>) = list_value h g"
      using meta' m(3) t(3) g(1) by (simp add: list_value_def)
    moreover have "{h_limit h..<h_limit k} \<union> {h_limit k..<h_limit h'} = {h_limit h..<h_limit h'}"
      using m(1) t(1) by (rule ivl_disj_un_two(3))
    then have "list_ptrs h' (g\<lparr>gl_meta := m, gl_items := t\<rparr>) \<subseteq> {h_limit h..<h_limit h'}"
      using Un_mono [OF m(4) t(4)] meta'(2) by (simp add: list_ptrs_def Un_assoc)
    ultimately show "wp (State_Monad.return (g\<lparr>gl_type := gl_type g, gl_meta := m, gl_items := t\<rparr>))
      (\<lambda>y h'. h_limit h \<le> h_limit h' \<and> agree {..<h_limit h} h h' \<and>
        list_value h' y = list_value h g \<and> list_ptrs h' y \<subseteq> {h_limit h..<h_limit h'}) h'"
      using m(1) t(1) by (simp add: wp_simps)
  qed
qed (use old in \<open>auto simp: list_ptrs_def\<close>)

end

sublocale meta_copies \<subseteq> gpu_list: deep_copier list_value list_ptrs "gpu_list_deep_copy_into M"
  using list_frame list_copy_spec by unfold_locales

sublocale meta_copies \<subseteq> gpu_list_var: copied_variable list_value list_ptrs "gpu_list_deep_copy_into M" gpu_lists zero_gpu_list
  by unfold_locales

section \<open>The library's copies, for reference\<close>

definition ref_copy_object_meta :: "object_meta \<Rightarrow> object_meta heap_op" where
  "ref_copy_object_meta m = do {
     d \<leftarrow> copy_pointer times 0 (om_deletion m);
     f \<leftarrow> (case om_finalizers m of
        None \<Rightarrow> State_Monad.return None
      | Some sl \<Rightarrow> do {
          xs \<leftarrow> read_at string_arrays (sl_array sl);
          out \<leftarrow> alloc string_arrays (take (sl_len sl) xs);
          State_Monad.return (Some \<lparr>sl_array = out, sl_len = length (take (sl_len sl) xs)\<rparr>)
        });
     State_Monad.return (m\<lparr>om_deletion := d, om_finalizers := f\<rparr>)
   }"

definition ref_copy_list_meta :: "list_meta \<Rightarrow> list_meta heap_op" where
  "ref_copy_list_meta m = do {
     n \<leftarrow> copy_pointer int64s 0 (lm_remaining m);
     State_Monad.return (m\<lparr>lm_remaining := n\<rparr>)
   }"

definition ref_meta :: meta_library where
  "ref_meta =
     \<lparr>copy_object_meta = ref_copy_object_meta, copy_list_meta = ref_copy_list_meta, copy_condition = (\<lambda>c. c)\<rparr>"

interpretation time_var: copied_variable "\<lambda>h v. v" "\<lambda>h v. {}" State_Monad.return times 0
  by unfold_locales
interpretation int64_var: copied_variable "\<lambda>h v. v" "\<lambda>h v. {}" State_Monad.return int64s 0
  by unfold_locales

lemma var_pointer_meta:
  "var_value times (\<lambda>h v. v) h p = map_option (h_time h) p"
  "var_value int64s (\<lambda>h v. v) h p = map_option (h_int64 h) p"
  by (simp_all add: var_value_def region_defs)

lemmas wp_copy_time = time_var.var.wp_copy [folded copy_pointer_def, unfolded var_pointer var_pointer_meta]
lemmas wp_copy_int64 = int64_var.var.wp_copy [folded copy_pointer_def, unfolded var_pointer var_pointer_meta]

lemma ref_object_meta_spec:
  assumes old: "meta_ptrs h m \<subseteq> {..<h_limit h}"
  shows "wp (ref_copy_object_meta m) (\<lambda>y h'. h_limit h \<le> h_limit h' \<and> agree {..<h_limit h} h h' \<and>
    meta_value h' y = meta_value h m \<and> meta_ptrs h' y \<subseteq> {h_limit h..<h_limit h'}) h"
  unfolding ref_copy_object_meta_def wp_bind
proof (rule wp_copy_time [OF _ order_refl])
  fix d k
  assume d: "h_limit h \<le> h_limit k" "agree {..<h_limit h} h k" "set_option d \<subseteq> {h_limit h..<h_limit k}"
    "map_option (h_time k) d = map_option (h_time h) (om_deletion m)"
  let ?Q = "\<lambda>f h'. h_limit h \<le> h_limit h' \<and> agree {..<h_limit h} h h' \<and>
    meta_value h' (m\<lparr>om_deletion := d, om_finalizers := f\<rparr>) = meta_value h m \<and>
    meta_ptrs h' (m\<lparr>om_deletion := d, om_finalizers := f\<rparr>) \<subseteq> {h_limit h..<h_limit h'}"
  show "wp (case om_finalizers m of
        None \<Rightarrow> State_Monad.return None
      | Some sl \<Rightarrow> do {
          xs \<leftarrow> read_at string_arrays (sl_array sl);
          out \<leftarrow> alloc string_arrays (take (sl_len sl) xs);
          State_Monad.return (Some \<lparr>sl_array = out, sl_len = length (take (sl_len sl) xs)\<rparr>)
        }) (\<lambda>f. wp (State_Monad.return (m\<lparr>om_deletion := d, om_finalizers := f\<rparr>)) (\<lambda>y h'. h_limit h \<le> h_limit h' \<and>
      agree {..<h_limit h} h h' \<and> meta_value h' y = meta_value h m \<and> meta_ptrs h' y \<subseteq> {h_limit h..<h_limit h'})) k"
  proof (cases "om_finalizers m")
    case None
    with d show ?thesis by (simp add: wp_simps meta_value_def meta_ptrs_def slice_ptrs_def elements_def)
  next
    case (Some sl)
    let ?xs = "take (sl_len sl) (h_strings k (sl_array sl))"
    let ?k = "(h_strings_update (\<lambda>f. f(h_limit k := ?xs)) k)\<lparr>h_limit := h_limit k + 1\<rparr>"
    have "sl_array sl < h_limit h" using old by (simp add: Some meta_ptrs_def slice_ptrs_def)
    then have xs: "?xs = elements (h_strings h) (om_finalizers m)"
      using d(2) by (simp add: Some elements_def agree_def)
    have k: "agree {..<h_limit k} k ?k"
      using string_arrays.agree_alloc [where L = "h_limit k" and h = k and v = ?xs] by (simp add: region_defs)
    have "agree {..<h_limit h} h ?k" using agree_trans [OF d(2) agree_mono [OF k]] d(1) by simp
    moreover have "map_option (h_time ?k) d = map_option (h_time k) d" by simp
    ultimately show ?thesis
      using d xs by (simp add: Some wp_simps region_defs) (auto simp: Some meta_value_def meta_ptrs_def slice_ptrs_def elements_def min_def)
  qed
qed (use old in \<open>auto simp: meta_ptrs_def\<close>)

interpretation ref_copies: meta_copies ref_meta
proof (intro meta_copies.intro meta_copies_axioms.intro)
  show "deep_copier meta_value meta_ptrs (copy_object_meta ref_meta)"
    using meta_frame ref_object_meta_spec by unfold_locales (simp_all add: ref_meta_def)
  show "deep_copier list_meta_value list_meta_ptrs (copy_list_meta ref_meta)"
  proof
    fix h :: heap and m
    assume "list_meta_ptrs h m \<subseteq> {..<h_limit h}"
    then show "wp (copy_list_meta ref_meta m) (\<lambda>y h'. h_limit h \<le> h_limit h' \<and> agree {..<h_limit h} h h' \<and>
        list_meta_value h' y = list_meta_value h m \<and> list_meta_ptrs h' y \<subseteq> {h_limit h..<h_limit h'}) h"
      unfolding list_meta_ptrs_def by (simp add: ref_meta_def ref_copy_list_meta_def wp_simps)
        (rule wp_copy_int64 [OF _ order_refl]; simp add: list_meta_value_def)
  qed (auto simp: list_meta_frame list_meta_ptrs_def)
  show "copy_condition ref_meta c = c" for c by (simp add: ref_meta_def)
qed

section \<open>Properties\<close>

text \<open>What a pointer to a Gpu (to a list of them) reads as, and every variable that is read for it.\<close>

definition gpu_at :: "heap \<Rightarrow> addr option \<Rightarrow> (type_meta \<times> gpu) option" where
  "gpu_at h p = var_value gpus gpu_value h p"

definition gpu_vars :: "heap \<Rightarrow> addr option \<Rightarrow> addr set" where
  "gpu_vars h p = var_ptrs gpus gpu_ptrs h p"

definition list_at ::
  "heap \<Rightarrow> addr option \<Rightarrow> (type_meta \<times> (string \<times> string \<times> int64 option) \<times> (type_meta \<times> gpu) list) option" where
  "list_at h p = var_value gpu_lists list_value h p"

definition list_vars :: "heap \<Rightarrow> addr option \<Rightarrow> addr set" where
  "list_vars h p = var_ptrs gpu_lists list_ptrs h p"

lemma deep_copy_folds:
  "deep_copy_var gpus zero_gpu (gpu_deep_copy_into M) = gpu_deep_copy M"
  "deep_copy_var gpu_lists zero_gpu_list (gpu_list_deep_copy_into M) = gpu_list_deep_copy M"
  by (simp_all add: fun_eq_iff gpu_deep_copy_def gpu_list_deep_copy_def)

lemma at_folds:
  "var_value gpus gpu_value = gpu_at" "var_ptrs gpus gpu_ptrs = gpu_vars"
  "var_value gpu_lists list_value = list_at" "var_ptrs gpu_lists list_ptrs = list_vars"
  by (simp_all add: fun_eq_iff gpu_at_def gpu_vars_def list_at_def list_vars_def)

context meta_copies
begin

lemmas gpu_isolated = gpu_var.var.isolated [unfolded deep_copy_folds at_folds]
lemmas gpu_list_isolated = gpu_list_var.var.isolated [unfolded deep_copy_folds at_folds]
lemmas wp_gpu_deep_copy = gpu_var.var.wp_copy [unfolded deep_copy_folds at_folds]
lemmas gpu_later = gpu_var.var.later [unfolded at_folds]

end

text \<open>C23: \<open>Gpu.DeepCopy\<close> returns an object that reads the same and shares nothing with the original:
  the original is unchanged, and from then on no write to any variable outside the copy (in
  particular to those of the original) changes what the copy reads as, nor the other way round.
  A nil pointer gives nil.\<close>

theorem gpu_deep_copy_isolated:
  assumes "meta_copies M" and "gpu_vars h p \<subseteq> {..<h_limit h}"
    and "run_state (gpu_deep_copy M p) h = (q, h')"
  shows "gpu_at h' q = gpu_at h p \<and> gpu_at h' p = gpu_at h p \<and> gpu_vars h' p \<inter> gpu_vars h' q = {} \<and>
    (\<forall>h''. agree (- gpu_vars h' p) h' h'' \<longrightarrow> gpu_at h'' q = gpu_at h p) \<and>
    (\<forall>h''. agree (- gpu_vars h' q) h' h'' \<longrightarrow> gpu_at h'' p = gpu_at h p)"
  using meta_copies.gpu_isolated [OF assms(1,2)] by (simp add: wp_def assms(3))

text \<open>The same holds of \<open>GpuList.DeepCopy\<close>: the list, its metadata and every item.\<close>

theorem gpu_list_deep_copy_isolated:
  assumes "meta_copies M" and "list_vars h p \<subseteq> {..<h_limit h}"
    and "run_state (gpu_list_deep_copy M p) h = (q, h')"
  shows "list_at h' q = list_at h p \<and> list_at h' p = list_at h p \<and> list_vars h' p \<inter> list_vars h' q = {} \<and>
    (\<forall>h''. agree (- list_vars h' p) h' h'' \<longrightarrow> list_at h'' q = list_at h p) \<and>
    (\<forall>h''. agree (- list_vars h' q) h' h'' \<longrightarrow> list_at h'' p = list_at h p)"
  using meta_copies.gpu_list_isolated [OF assms(1,2)] by (simp add: wp_def assms(3))

text \<open>A heap with one Gpu (at 0), its finalizers, spec and conditions, and a list of it (at 6).\<close>

definition example_struct :: gpu_struct where
  "example_struct =
     \<lparr>gs_type = \<lparr>tm_kind = ''Gpu'', tm_api_version = ''gpu.kyma-project.io/v1beta1''\<rparr>,
        gs_meta = \<lparr>om_name = ''gpu'', om_generation = 1, om_resource_version = ''7'', om_deletion = None,
          om_finalizers = Some \<lparr>sl_array = 1, sl_len = 1\<rparr>\<rparr>,
        gs_spec = \<lparr>ss_driver = Some 2, ss_time_slicing = None\<rparr>,
        gs_status = \<lparr>st_operator_version = ''v2'', st_driver = Some 3, st_conditions = Some \<lparr>sl_array = 4, sl_len = 1\<rparr>\<rparr>\<rparr>"

definition example_heap :: heap where
  "example_heap =
     \<lparr>h_driver_spec = (\<lambda>a. \<lparr>spec_version = ''570''\<rparr>), h_time_slicing = (\<lambda>a. zero_time_slicing),
      h_driver_status = (\<lambda>a. empty_driver_status), h_time = (\<lambda>a. 0), h_int64 = (\<lambda>a. 0),
      h_strings = (\<lambda>a. [''gpu.kyma-project.io/gpu-operator'']),
      h_conditions = (\<lambda>a. [new_condition ''Ready'' ''True'' ''Ready'' []]),
      h_spec = (\<lambda>a. zero_spec), h_status = (\<lambda>a. zero_status),
      h_gpu = (\<lambda>a. example_struct),
      h_items = (\<lambda>a. [example_struct]),
      h_gpu_list = (\<lambda>a. zero_gpu_list\<lparr>gl_items := Some \<lparr>sl_array = 5, sl_len = 1\<rparr>\<rparr>), h_limit = 7\<rparr>"

text \<open>After the copy, the original's conditions are overwritten.\<close>

definition overwritten :: "heap \<Rightarrow> heap" where
  "overwritten h = snd condition_arrays (\<lambda>f. f(4 := [])) h"

lemma example_vars:
  "gpu_vars example_heap (Some 0) \<subseteq> {..<h_limit example_heap}"
  "list_vars example_heap (Some 6) \<subseteq> {..<h_limit example_heap}"
  by (auto simp: gpu_vars_def list_vars_def var_ptrs_def gpus_def gpu_lists_def gpu_ptrs_def list_ptrs_def example_heap_def
      example_struct_def zero_gpu_list_def meta_ptrs_def spec_ptrs_def status_ptrs_def slice_ptrs_def list_meta_ptrs_def
      elements_def)

theorem gpu_deep_copy_isolated_witness:
  "map_option (conditions o gpu_status_of o snd) (gpu_at (overwritten (snd (run_state (gpu_deep_copy ref_meta (Some 0)) example_heap)))
     (fst (run_state (gpu_deep_copy ref_meta (Some 0)) example_heap))) = Some [new_condition ''Ready'' ''True'' ''Ready'' []]"
proof -
  let ?run = "run_state (gpu_deep_copy ref_meta (Some 0)) example_heap"
  note copy = gpu_deep_copy_isolated [OF ref_copies.meta_copies_axioms example_vars(1), of "fst ?run" "snd ?run"]
  have "4 \<in> gpu_vars (snd ?run) (Some 0)" by code_simp
  then have "agree (- gpu_vars (snd ?run) (Some 0)) (snd ?run) (overwritten (snd ?run))"
    unfolding overwritten_def by (intro condition_arrays.update_elsewhere) simp
  then have "gpu_at (overwritten (snd ?run)) (fst ?run) = gpu_at example_heap (Some 0)"
    using copy by simp
  moreover have "map_option (conditions o gpu_status_of o snd) (gpu_at example_heap (Some 0)) =
      Some [new_condition ''Ready'' ''True'' ''Ready'' []]" by code_simp
  ultimately show ?thesis by simp
qed

theorem gpu_list_deep_copy_isolated_witness:
  "map_option (map (gpu_name o snd) o snd o snd) (list_at (overwritten (snd (run_state (gpu_list_deep_copy ref_meta (Some 6)) example_heap)))
     (fst (run_state (gpu_list_deep_copy ref_meta (Some 6)) example_heap))) = Some [''gpu'']"
proof -
  let ?run = "run_state (gpu_list_deep_copy ref_meta (Some 6)) example_heap"
  note copy = gpu_list_deep_copy_isolated [OF ref_copies.meta_copies_axioms example_vars(2), of "fst ?run" "snd ?run"]
  have "4 \<in> list_vars (snd ?run) (Some 6)" by code_simp
  then have "agree (- list_vars (snd ?run) (Some 6)) (snd ?run) (overwritten (snd ?run))"
    unfolding overwritten_def by (intro condition_arrays.update_elsewhere) simp
  then have "list_at (overwritten (snd ?run)) (fst ?run) = list_at example_heap (Some 6)"
    using copy by simp
  moreover have "map_option (map (gpu_name o snd) o snd o snd) (list_at example_heap (Some 6)) = Some [''gpu'']" by code_simp
  ultimately show ?thesis by simp
qed

end
