(* ===== verification/Cluster.thy ===== *)
theory Cluster
  imports Api_Types
begin

text \<open>
  The border between the operator and the code it calls but does not contain. A \<open>kube\<close> holds
  the functions of the Kubernetes libraries (apimachinery, controller-runtime) that the code
  uses, pure ones as functions and API requests as functions on an unknown world \<open>'w\<close>, and the
  Installer interface of \<open>internal/helm/interface.go\<close>. Nothing is assumed of them in the
  definitions; what a theorem needs of the pure ones is documented behaviour, stated as the
  locales below. Every request and its answer is written to the log of the computation.
\<close>

section \<open>Parameters\<close>

record 'w kube =
  find_condition :: "condition list \<Rightarrow> string \<Rightarrow> condition option"
  set_condition :: "time \<Rightarrow> condition list \<Rightarrow> condition \<Rightarrow> condition list"
  contains_finalizer :: "string list \<Rightarrow> string \<Rightarrow> bool"
  add_finalizer :: "string list \<Rightarrow> string \<Rightarrow> string list"
  remove_finalizer :: "string list \<Rightarrow> string \<Rightarrow> string list"
  semantic_equal :: "gpu_status \<Rightarrow> gpu_status \<Rightarrow> bool"
  nested_string :: "any \<Rightarrow> string list \<Rightarrow> string \<times> bool \<times> err option"
  is_not_found :: "err \<Rightarrow> bool"
  unicode_lower :: "string \<Rightarrow> string"
  unicode_quote :: "string \<Rightarrow> string"
  clock :: "'w \<Rightarrow> nat \<Rightarrow> time"
  k_get_gpu :: "string \<Rightarrow> 'w \<Rightarrow> (err + gpu) \<times> 'w"
  k_update_gpu :: "gpu \<Rightarrow> 'w \<Rightarrow> err option \<times> 'w"
  k_patch_status :: "gpu \<Rightarrow> gpu \<Rightarrow> 'w \<Rightarrow> err option \<times> 'w"
  k_list_gpus :: "'w \<Rightarrow> (err + gpu list) \<times> 'w"
  k_list_nodes :: "'w \<Rightarrow> (err + node list) \<times> 'w"
  k_list_pods :: "'w \<Rightarrow> (err + pod list) \<times> 'w"
  k_list_daemon_sets :: "string \<Rightarrow> (string \<times> string) list \<Rightarrow> 'w \<Rightarrow> (err + daemon_set list) \<times> 'w"
  k_get_object :: "gvk \<Rightarrow> string \<Rightarrow> 'w \<Rightarrow> (err + any) \<times> 'w"
  k_delete_namespace :: "string \<Rightarrow> string \<Rightarrow> 'w \<Rightarrow> err option \<times> 'w"

text \<open>
  The \<open>Installer\<close> interface (\<open>interface.go\<close>): the controller drives Helm through these two
  operations only.
\<close>

record 'w installer =
  install_or_upgrade_op :: "string \<Rightarrow> gomap \<Rightarrow> 'w \<Rightarrow> (err + bool) run \<times> 'w"
  uninstall_op :: "'w \<Rightarrow> err option run \<times> 'w"

section \<open>Requests and their log\<close>

datatype kube_event =
    Get_Gpu string "err + gpu"
  | Update_Gpu gpu "err option"
  | Patch_Status gpu gpu "err option"
  | List_Gpus "err + gpu list"
  | List_Nodes "err + node list"
  | List_Pods "err + pod list"
  | List_Daemon_Sets string "(string \<times> string) list" "err + daemon_set list"
  | Get_Object gvk string "err + any"
  | Delete_Namespace string string "err option"
  | Install_Call string gomap "(err + bool) run"
  | Uninstall_Call "err option run"

type_synonym ('w, 'a) kube_eff = "('w, kube_event, 'a) eff"

text \<open>\<open>r.Get\<close>, \<open>r.Update\<close>, \<open>r.Status().Patch(live, MergeFrom(original))\<close>, \<open>r.List\<close>, \<open>r.Delete\<close>.\<close>

definition get_gpu :: "'w kube \<Rightarrow> string \<Rightarrow> ('w, err + gpu) kube_eff" where
  "get_gpu K name = call (k_get_gpu K name) (Get_Gpu name)"

definition update_gpu :: "'w kube \<Rightarrow> gpu \<Rightarrow> ('w, err option) kube_eff" where
  "update_gpu K g = call (k_update_gpu K g) (Update_Gpu g)"

definition patch_status :: "'w kube \<Rightarrow> gpu \<Rightarrow> gpu \<Rightarrow> ('w, err option) kube_eff" where
  "patch_status K live original = call (k_patch_status K live original) (Patch_Status live original)"

definition list_gpus :: "'w kube \<Rightarrow> ('w, err + gpu list) kube_eff" where
  "list_gpus K = call (k_list_gpus K) List_Gpus"

definition list_nodes :: "'w kube \<Rightarrow> ('w, err + node list) kube_eff" where
  "list_nodes K = call (k_list_nodes K) List_Nodes"

definition list_pods :: "'w kube \<Rightarrow> ('w, err + pod list) kube_eff" where
  "list_pods K = call (k_list_pods K) List_Pods"

definition list_daemon_sets ::
  "'w kube \<Rightarrow> string \<Rightarrow> (string \<times> string) list \<Rightarrow> ('w, err + daemon_set list) kube_eff" where
  "list_daemon_sets K ns labels = call (k_list_daemon_sets K ns labels) (List_Daemon_Sets ns labels)"

definition get_object :: "'w kube \<Rightarrow> gvk \<Rightarrow> string \<Rightarrow> ('w, err + any) kube_eff" where
  "get_object K kind name = call (k_get_object K kind name) (Get_Object kind name)"

definition delete_object_namespace :: "'w kube \<Rightarrow> string \<Rightarrow> string \<Rightarrow> ('w, err option) kube_eff" where
  "delete_object_namespace K name propagation =
     call (k_delete_namespace K name propagation) (Delete_Namespace name propagation)"

definition install_or_upgrade ::
  "'w installer \<Rightarrow> string \<Rightarrow> gomap \<Rightarrow> ('w, (err + bool) run) kube_eff" where
  "install_or_upgrade I data vals = call (install_or_upgrade_op I data vals) (Install_Call data vals)"

definition uninstall :: "'w installer \<Rightarrow> ('w, err option run) kube_eff" where
  "uninstall I = call (uninstall_op I) Uninstall_Call"

text \<open>
  \<open>time.Now()\<close>: the reading of the clock made \<open>k\<close>-th since the last request; every reading may
  differ.
\<close>

definition read_clock :: "'w kube \<Rightarrow> ('w, nat \<Rightarrow> time) kube_eff" where
  "read_clock K = State (\<lambda>s. (clock K (world s), s))"

lemmas request_defs =
  get_gpu_def update_gpu_def patch_status_def list_gpus_def list_nodes_def list_pods_def
  list_daemon_sets_def get_object_def delete_object_namespace_def install_or_upgrade_def
  uninstall_def

lemma wp_read_clock [wp_simps]: "wp (read_clock K) Q s = Q (clock K (world s)) s"
  by (simp add: wp_def read_clock_def)

lemma emits_read_clock [emits_rules]: "emits (read_clock K) E"
  by (auto simp: emits_def read_clock_def)

section \<open>Documented behaviour of the library functions\<close>

text \<open>
  \<open>apimeta.FindStatusCondition\<close> and \<open>SetStatusCondition\<close>: setting a condition whose type is
  present updates all its fields and sets the transition time to now only if the status
  differs; setting one that is absent adds it, with the transition time now if it was unset;
  the conditions of other types stay.
\<close>

locale condition_list =
  fixes find :: "condition list \<Rightarrow> string \<Rightarrow> condition option"
    and set_cond :: "time \<Rightarrow> condition list \<Rightarrow> condition \<Rightarrow> condition list"
  assumes find_type: "find cs t = Some c \<Longrightarrow> c_type c = t"
    and find_set_same: "c_last_transition c = 0 \<Longrightarrow>
      find (set_cond now cs c) (c_type c) = Some (c\<lparr>c_last_transition :=
        (case find cs (c_type c) of None \<Rightarrow> now
         | Some old \<Rightarrow> if c_status old = c_status c then c_last_transition old else now)\<rparr>)"
    and find_set_other: "t \<noteq> c_type c \<Longrightarrow> find (set_cond now cs c) t = find cs t"
    and set_unchanged: "find cs (c_type c) = Some old \<Longrightarrow>
      old = c\<lparr>c_last_transition := c_last_transition old\<rparr> \<Longrightarrow> set_cond now cs c = cs"
begin

lemma find_set:
  assumes "c_last_transition c = 0"
  shows "map_option c_status (find (set_cond now cs c) t) =
    (if t = c_type c then Some (c_status c) else map_option c_status (find cs t))"
  using find_set_same [OF assms] find_set_other [of t c] by simp

lemma find_set_reason:
  assumes "c_last_transition c = 0"
  shows "map_option c_reason (find (set_cond now cs c) t) =
    (if t = c_type c then Some (c_reason c) else map_option c_reason (find cs t))"
  using find_set_same [OF assms] find_set_other [of t c] by simp

lemma set_set_same:
  assumes "c_last_transition c = 0"
  shows "set_cond later (set_cond now cs c) c = set_cond now cs c"
  using find_set_same [OF assms, of now cs] by (intro set_unchanged) auto

end

text \<open>\<open>controllerutil.ContainsFinalizer\<close>, \<open>AddFinalizer\<close>, \<open>RemoveFinalizer\<close>.\<close>

locale finalizer_list =
  fixes contains :: "string list \<Rightarrow> string \<Rightarrow> bool"
    and add :: "string list \<Rightarrow> string \<Rightarrow> string list"
    and remove :: "string list \<Rightarrow> string \<Rightarrow> string list"
  assumes contains_iff: "contains fs f \<longleftrightarrow> f \<in> set fs"
    and set_add: "set (add fs f) = insert f (set fs)"
    and set_remove: "set (remove fs f) = set fs - {f}"
begin

lemma contains_add: "contains (add fs f) g \<longleftrightarrow> g = f \<or> contains fs g"
  by (simp add: contains_iff set_add)

lemma contains_remove: "contains (remove fs f) g \<longleftrightarrow> g \<noteq> f \<and> contains fs g"
  by (auto simp: contains_iff set_remove)

end

text \<open>
  All of them together; \<open>equality.Semantic.DeepEqual\<close> compares the statuses deeply, a nil and
  an empty list being the same (as they are in the model).
\<close>

locale kube_library =
  cond: condition_list "find_condition K" "set_condition K" +
  fin: finalizer_list "contains_finalizer K" "add_finalizer K" "remove_finalizer K"
  for K :: "'w kube" +
  assumes semantic_equal_iff: "semantic_equal K a b \<longleftrightarrow> a = b"

section \<open>A reference library\<close>

text \<open>
  List functions that behave as documented: they show that the locales can be satisfied, and
  the witnesses run on them.
\<close>

fun find_cond_list :: "condition list \<Rightarrow> string \<Rightarrow> condition option" where
  "find_cond_list [] t = None"
| "find_cond_list (c # cs) t = (if c_type c = t then Some c else find_cond_list cs t)"

fun set_cond_list :: "time \<Rightarrow> condition list \<Rightarrow> condition \<Rightarrow> condition list" where
  "set_cond_list now [] c = [if c_last_transition c = 0 then c\<lparr>c_last_transition := now\<rparr> else c]"
| "set_cond_list now (d # ds) c =
     (if c_type d = c_type c
      then c\<lparr>c_last_transition :=
             (if c_status d = c_status c then c_last_transition d
              else if c_last_transition c = 0 then now else c_last_transition c)\<rparr> # ds
      else d # set_cond_list now ds c)"

interpretation cond_ref: condition_list find_cond_list set_cond_list
proof
  show "c_type c = t" if "find_cond_list cs t = Some c" for cs t c
    using that by (induction cs) (auto split: if_splits)
  show "find_cond_list (set_cond_list now cs c) (c_type c) = Some (c\<lparr>c_last_transition :=
        (case find_cond_list cs (c_type c) of None \<Rightarrow> now
         | Some old \<Rightarrow> if c_status old = c_status c then c_last_transition old else now)\<rparr>)"
    if "c_last_transition c = 0" for c now cs
    using that by (induction cs) auto
  show "find_cond_list (set_cond_list now cs c) t = find_cond_list cs t"
    if "t \<noteq> c_type c" for t c now cs
    using that by (induction cs) auto
  show "set_cond_list now cs c = cs"
    if found: "find_cond_list cs (c_type c) = Some old"
      and "old = c\<lparr>c_last_transition := c_last_transition old\<rparr>" for cs c old now
  proof -
    from that(2) obtain t where "old = c\<lparr>c_last_transition := t\<rparr>" by blast
    with found show ?thesis by (induction cs) (auto split: if_splits)
  qed
qed

definition add_fin :: "string list \<Rightarrow> string \<Rightarrow> string list" where
  "add_fin fs f = (if f \<in> set fs then fs else fs @ [f])"

definition remove_fin :: "string list \<Rightarrow> string \<Rightarrow> string list" where
  "remove_fin fs f = filter (\<lambda>g. g \<noteq> f) fs"

interpretation fin_ref: finalizer_list "\<lambda>fs f. f \<in> set fs" add_fin remove_fin
  by unfold_locales (auto simp: add_fin_def remove_fin_def)

end
