(* ===== verification/Detection.thy ===== *)
theory Detection
  imports Cluster
begin

text \<open>
  \<open>internal/detection\<close>: which nodes are GPU nodes (\<open>machinetypes.go\<close>), which operating
  system a node runs, and the preflight check that decides whether an installation may go
  ahead (\<open>preflight.go\<close>). The lemmas characterise the outcome of the check by the set of
  operating systems found on the GPU nodes.
\<close>

section \<open>GPU machine types\<close>

definition instance_type_prefixes :: "string list" where
  "instance_type_prefixes = [''g4dn'', ''g6'', ''g2-'', ''Standard_NC'']"

definition instance_type_label :: string where
  "instance_type_label = ''node.kubernetes.io/instance-type''"

definition is_gpu_node :: "(string \<rightharpoonup> string) \<Rightarrow> bool" where
  "is_gpu_node labels =
     (case labels instance_type_label of
        None \<Rightarrow> False
      | Some instance_type \<Rightarrow>
          if instance_type = [] then False
          else list_ex (\<lambda>prefix. has_prefix instance_type prefix) instance_type_prefixes)"

section \<open>Preflight\<close>

type_synonym os_type = string

abbreviation (input) OSTypeGardenLinux :: os_type where "OSTypeGardenLinux \<equiv> ''gardenlinux''"
abbreviation (input) OSTypeUbuntu :: os_type where "OSTypeUbuntu \<equiv> ''ubuntu''"
abbreviation (input) OSTypeUnknown :: os_type where "OSTypeUnknown \<equiv> []"

datatype outcome = OutcomeProceed | OutcomeWarn | OutcomeError

record preflight_result =
  pre_outcome :: outcome
  pre_reason :: string
  pre_os :: os_type

definition filter_gpu_nodes :: "node list \<Rightarrow> node list" where
  "filter_gpu_nodes nodes = filter (\<lambda>n. is_gpu_node (node_labels n)) nodes"

text \<open>\<open>detectNodeOS\<close>; the Unicode tables of \<open>strings.ToLower\<close> come first.\<close>

definition detect_node_os :: "(string \<Rightarrow> string) \<Rightarrow> node \<Rightarrow> os_type \<times> bool" where
  "detect_node_os unicode n =
     (let img = to_lower unicode (os_image n) in
      if contains_str img ''garden linux'' then (OSTypeGardenLinux, True)
      else if contains_str img ''ubuntu'' then (OSTypeUbuntu, True)
      else (OSTypeUnknown, False))"

text \<open>
  The loop over the GPU nodes: the unsupported ones in order, and the keys of the map
  \<open>osTypes\<close> (a list without repetition).
\<close>

fun scan_nodes ::
  "(string \<Rightarrow> string) \<Rightarrow> node list \<Rightarrow> string list \<Rightarrow> os_type list \<Rightarrow> string list \<times> os_type list" where
  "scan_nodes unicode [] unsupported os_types = (unsupported, os_types)"
| "scan_nodes unicode (n # ns) unsupported os_types =
     (case detect_node_os unicode n of (os, ok) \<Rightarrow>
        if \<not> ok
        then scan_nodes unicode ns
               (unsupported @ [node_name n @ '' ('' @ os_image n @ '')'']) os_types
        else scan_nodes unicode ns unsupported (List.insert os os_types))"

definition preflight_nodes :: "(string \<Rightarrow> string) \<Rightarrow> node list \<Rightarrow> preflight_result" where
  "preflight_nodes unicode items =
     (let gpu_nodes = filter_gpu_nodes items in
      if gpu_nodes = [] then
        \<lparr>pre_outcome = OutcomeWarn,
         pre_reason = ''no GPU nodes found in cluster; waiting for GPU node pool to become available'',
         pre_os = []\<rparr>
      else case scan_nodes unicode gpu_nodes [] [] of (unsupported, os_types) \<Rightarrow>
        if unsupported \<noteq> [] then
          \<lparr>pre_outcome = OutcomeError,
           pre_reason = ''GPU nodes with unsupported OS: '' @ show_strings unsupported
             @ ''; supported operating systems: Garden Linux, Ubuntu'',
           pre_os = []\<rparr>
        else if 1 < length os_types then
          \<lparr>pre_outcome = OutcomeError,
           pre_reason = ''GPU nodes are running mixed operating systems; all GPU nodes must run the same OS (Garden Linux or Ubuntu)'',
           pre_os = []\<rparr>
        else
          \<lparr>pre_outcome = OutcomeProceed, pre_reason = [],
           pre_os = foldl (\<lambda>detected os. os) [] os_types\<rparr>)"

definition run_preflight :: "'w kube \<Rightarrow> ('w, err + preflight_result) kube_eff" where
  "run_preflight K = do {
     r \<leftarrow> list_nodes K;
     case r of
       Inl e \<Rightarrow> State_Monad.return (Inl (Wrap_Err ''listing nodes'' e))
     | Inr items \<Rightarrow> State_Monad.return (Inr (preflight_nodes (unicode_lower K) items))
   }"

section \<open>Lemmas\<close>

lemma wp_case_outcome [wp_simps]:
  "wp (case x of OutcomeProceed \<Rightarrow> a | OutcomeWarn \<Rightarrow> b | OutcomeError \<Rightarrow> c) Q =
     (case x of OutcomeProceed \<Rightarrow> wp a Q | OutcomeWarn \<Rightarrow> wp b Q | OutcomeError \<Rightarrow> wp c Q)"
  by (cases x) simp_all

lemma is_gpu_node_label: "is_gpu_node labels \<Longrightarrow> \<exists>t. labels instance_type_label = Some t \<and> t \<noteq> []"
  by (auto simp: is_gpu_node_def split: option.splits if_splits)

lemma detect_node_os_cases:
  "detect_node_os u n \<in> {(OSTypeGardenLinux, True), (OSTypeUbuntu, True), (OSTypeUnknown, False)}"
  by (simp add: detect_node_os_def Let_def)

lemma detect_unsupported: "snd (detect_node_os u n) \<or> detect_node_os u n = (OSTypeUnknown, False)"
  using detect_node_os_cases [of u n] by auto

lemma detect_cong: "os_image m = os_image n \<Longrightarrow> detect_node_os u m = detect_node_os u n"
  by (simp add: detect_node_os_def)

lemma scan_nodes_unsupported:
  "fst (scan_nodes u ns uns os) =
     uns @ map (\<lambda>n. node_name n @ '' ('' @ os_image n @ '')'') (filter (\<lambda>n. \<not> snd (detect_node_os u n)) ns)"
  by (induction ns arbitrary: uns os) (auto split: prod.splits)

lemma scan_nodes_types:
  "set (snd (scan_nodes u ns uns os)) =
     set os \<union> fst ` detect_node_os u ` {n \<in> set ns. snd (detect_node_os u n)}"
proof (induction ns arbitrary: uns os)
  case (Cons n ns)
  obtain t ok where d: "detect_node_os u n = (t, ok)" by force
  then have "{m \<in> set (n # ns). snd (detect_node_os u m)} =
    (if ok then {n} else {}) \<union> {m \<in> set ns. snd (detect_node_os u m)}" by auto
  then show ?case using d Cons.IH by (cases ok) (simp_all add: image_Un del: set_simps)
qed simp

lemma scan_nodes_distinct: "distinct os \<Longrightarrow> distinct (snd (scan_nodes u ns uns os))"
  by (induction ns arbitrary: uns os) (auto split: prod.splits)

text \<open>The set of detection results over the GPU nodes, which decides the outcome.\<close>

definition detected :: "(string \<Rightarrow> string) \<Rightarrow> node list \<Rightarrow> (os_type \<times> bool) set" where
  "detected u items = detect_node_os u ` {n \<in> set items. is_gpu_node (node_labels n)}"

lemma detected_filter: "detected u items = detect_node_os u ` set (filter_gpu_nodes items)"
  by (simp add: detected_def filter_gpu_nodes_def)

lemma detected_empty_iff: "detected u items = {} \<longleftrightarrow> filter_gpu_nodes items = []"
  by (simp add: detected_filter)

lemma detected_subset:
  "detected u items \<subseteq> {(OSTypeGardenLinux, True), (OSTypeUbuntu, True), (OSTypeUnknown, False)}"
  unfolding detected_def using detect_node_os_cases [of u] by blast

lemma unsupported_empty_iff:
  "fst (scan_nodes u (filter_gpu_nodes items) [] []) = [] \<longleftrightarrow> (OSTypeUnknown, False) \<notin> detected u items"
proof
  assume "fst (scan_nodes u (filter_gpu_nodes items) [] []) = []"
  then have "snd (detect_node_os u n)" if "n \<in> set (filter_gpu_nodes items)" for n
    using that by (auto simp: scan_nodes_unsupported filter_empty_conv)
  then show "(OSTypeUnknown, False) \<notin> detected u items"
    by (metis (no_types, lifting) detected_filter imageE snd_conv)
next
  assume "(OSTypeUnknown, False) \<notin> detected u items"
  then have "snd (detect_node_os u n)" if "n \<in> set (filter_gpu_nodes items)" for n
    using that detect_unsupported [of u n] by (metis detected_filter imageI)
  then show "fst (scan_nodes u (filter_gpu_nodes items) [] []) = []"
    by (auto simp: scan_nodes_unsupported filter_empty_conv)
qed

lemma supported_types:
  assumes "(OSTypeUnknown, False) \<notin> detected u items"
  shows "set (snd (scan_nodes u (filter_gpu_nodes items) [] [])) = fst ` detected u items"
proof -
  have "snd (detect_node_os u n)" if "n \<in> set (filter_gpu_nodes items)" for n
    using that assms detect_unsupported [of u n] by (metis detected_filter imageI)
  then have "{n \<in> set (filter_gpu_nodes items). snd (detect_node_os u n)} = set (filter_gpu_nodes items)"
    by auto
  then show ?thesis by (simp add: scan_nodes_types detected_filter)
qed

lemma distinct_singleton: "distinct xs \<Longrightarrow> set xs = {x} \<Longrightarrow> xs = [x]"
  by (cases xs; cases "tl xs") auto

lemma subset_pair: "X \<subseteq> {a, b} \<Longrightarrow> X = {} \<or> X = {a} \<or> X = {b} \<or> X = {a, b}"
  by blast

lemma preflight_warn:
  "detected u items = {} \<Longrightarrow> pre_outcome (preflight_nodes u items) = OutcomeWarn"
  by (simp add: preflight_nodes_def detected_empty_iff)

lemma preflight_unsupported:
  assumes "(OSTypeUnknown, False) \<in> detected u items"
  shows "pre_outcome (preflight_nodes u items) = OutcomeError"
proof -
  from assms have "filter_gpu_nodes items \<noteq> []"
    by (auto simp: detected_empty_iff [of u, symmetric])
  moreover from assms have "fst (scan_nodes u (filter_gpu_nodes items) [] []) \<noteq> []"
    by (simp add: unsupported_empty_iff)
  ultimately show ?thesis
    by (cases "scan_nodes u (filter_gpu_nodes items) [] []") (simp add: preflight_nodes_def)
qed

lemma preflight_single:
  assumes "detected u items = {(t, True)}"
  shows "preflight_nodes u items = \<lparr>pre_outcome = OutcomeProceed, pre_reason = [], pre_os = t\<rparr>"
proof -
  have ne: "filter_gpu_nodes items \<noteq> []"
    using assms by (auto simp: detected_empty_iff [of u, symmetric])
  obtain uns os where scan: "scan_nodes u (filter_gpu_nodes items) [] [] = (uns, os)" by force
  with assms unsupported_empty_iff [of u items] have "uns = []" by simp
  moreover from assms scan supported_types [of u items] have "set os = {t}" by simp
  then have "os = [t]"
    using scan_nodes_distinct [of "[]" u "filter_gpu_nodes items" "[]"] scan
    by (simp add: distinct_singleton)
  ultimately show ?thesis using ne scan by (simp add: preflight_nodes_def)
qed

lemma preflight_mixed:
  assumes "(OSTypeUnknown, False) \<notin> detected u items" and "1 < card (fst ` detected u items)"
  shows "pre_outcome (preflight_nodes u items) = OutcomeError"
proof -
  have ne: "filter_gpu_nodes items \<noteq> []"
    using assms(2) by (auto simp: detected_filter)
  obtain uns os where scan: "scan_nodes u (filter_gpu_nodes items) [] [] = (uns, os)" by force
  with assms unsupported_empty_iff [of u items] have "uns = []" by simp
  moreover have "distinct os"
    using scan_nodes_distinct [of "[]" u "filter_gpu_nodes items" "[]"] scan by simp
  moreover have "set os = fst ` detected u items" using supported_types [OF assms(1)] scan by simp
  ultimately show ?thesis using ne scan assms(2) distinct_card [of os]
    by (simp add: preflight_nodes_def)
qed

text \<open>The four kinds of cluster: no GPU nodes, an unsupported one, a single system, both systems.\<close>

lemma detected_cases:
  obtains (none) "detected u items = {}"
  | (unsupported) "(OSTypeUnknown, False) \<in> detected u items"
  | (garden) "detected u items = {(OSTypeGardenLinux, True)}"
  | (ubuntu) "detected u items = {(OSTypeUbuntu, True)}"
  | (mixed) "detected u items = {(OSTypeGardenLinux, True), (OSTypeUbuntu, True)}"
proof -
  have "detected u items \<subseteq> {(OSTypeGardenLinux, True), (OSTypeUbuntu, True)}"
    if "(OSTypeUnknown, False) \<notin> detected u items"
    using that detected_subset [of u items] by auto
  then show thesis using that subset_pair [of "detected u items"] by metis
qed

lemma preflight_proceed_iff:
  "pre_outcome (preflight_nodes u items) = OutcomeProceed \<and> pre_os (preflight_nodes u items) = t
     \<longleftrightarrow> detected u items = {(t, True)}"
  by (cases u items rule: detected_cases)
     (auto simp: preflight_warn preflight_unsupported preflight_single preflight_mixed)

lemma preflight_warn_iff:
  "pre_outcome (preflight_nodes u items) = OutcomeWarn \<longleftrightarrow> detected u items = {}"
  by (cases u items rule: detected_cases)
     (auto simp: preflight_warn preflight_unsupported preflight_single preflight_mixed)

lemma preflight_error_iff:
  "pre_outcome (preflight_nodes u items) = OutcomeError \<longleftrightarrow>
     (OSTypeUnknown, False) \<in> detected u items \<or>
     detected u items = {(OSTypeGardenLinux, True), (OSTypeUbuntu, True)}"
  by (cases u items rule: detected_cases)
     (auto simp: preflight_warn preflight_unsupported preflight_single preflight_mixed doubleton_eq_iff)

lemma preflight_no_os:
  "pre_outcome (preflight_nodes u items) \<noteq> OutcomeProceed \<Longrightarrow> pre_os (preflight_nodes u items) = []"
  by (auto simp: preflight_nodes_def Let_def split: prod.splits if_splits)

lemma preflight_summary:
  "(pre_outcome (preflight_nodes u items), pre_os (preflight_nodes u items)) =
     (let D = detected u items in
      if D = {} then (OutcomeWarn, [])
      else if D = {(OSTypeGardenLinux, True)} then (OutcomeProceed, OSTypeGardenLinux)
      else if D = {(OSTypeUbuntu, True)} then (OutcomeProceed, OSTypeUbuntu)
      else (OutcomeError, []))"
proof (cases u items rule: detected_cases)
  case none
  then show ?thesis using preflight_warn [OF none] preflight_no_os [of u items] by simp
next
  case unsupported
  then have "detected u items \<notin> {{}, {(OSTypeGardenLinux, True)}, {(OSTypeUbuntu, True)}}" by auto
  then show ?thesis
    using preflight_unsupported [OF unsupported] preflight_no_os [of u items] by simp
next
  case mixed
  then have "pre_outcome (preflight_nodes u items) = OutcomeError" by (intro preflight_mixed) simp_all
  then show ?thesis using preflight_no_os [of u items] by (simp add: mixed doubleton_eq_iff)
qed (simp_all add: preflight_single)

section \<open>Properties\<close>

text \<open>C14: The outcome of the preflight check, by the set of operating systems detected on the
  GPU nodes: it proceeds, and with system \<open>t\<close>, exactly when every GPU node runs the supported
  system \<open>t\<close>; it warns exactly when there are no GPU nodes; and it reports an error exactly when
  some GPU node runs an unsupported system or both supported systems occur.\<close>

theorem preflight_decision:
  "(pre_outcome (preflight_nodes u items) = OutcomeProceed \<and> pre_os (preflight_nodes u items) = t
      \<longleftrightarrow> detected u items = {(t, True)}) \<and>
   (pre_outcome (preflight_nodes u items) = OutcomeWarn \<longleftrightarrow> filter_gpu_nodes items = []) \<and>
   (pre_outcome (preflight_nodes u items) = OutcomeError \<longleftrightarrow>
      (OSTypeUnknown, False) \<in> detected u items \<or>
      detected u items = {(OSTypeGardenLinux, True), (OSTypeUbuntu, True)})"
  by (simp only: preflight_proceed_iff preflight_warn_iff preflight_error_iff detected_empty_iff simp_thms)

text \<open>The decision does not depend on the order in which the API server lists the nodes, nor
  on repetitions: two lists of the same nodes have the same outcome and operating system.\<close>

theorem preflight_order_independent:
  assumes "set items = set items'"
  shows "pre_outcome (preflight_nodes u items) = pre_outcome (preflight_nodes u items') \<and>
    pre_os (preflight_nodes u items) = pre_os (preflight_nodes u items')"
proof -
  have "detected u items = detected u items'"
    using assms by (simp add: detected_def)
  then have "(pre_outcome (preflight_nodes u items), pre_os (preflight_nodes u items)) =
      (pre_outcome (preflight_nodes u items'), pre_os (preflight_nodes u items'))"
    by (simp only: preflight_summary)
  then show ?thesis by simp
qed

theorem preflight_order_independent_witness:
  "pre_outcome (preflight_nodes id
      [\<lparr>node_name = ''a'', node_labels = [''node.kubernetes.io/instance-type'' \<mapsto> ''g4dn.xlarge''], os_image = ''Garden Linux 1592''\<rparr>,
       \<lparr>node_name = ''b'', node_labels = [''node.kubernetes.io/instance-type'' \<mapsto> ''g6.xlarge''], os_image = ''Ubuntu 22.04''\<rparr>])
   = pre_outcome (preflight_nodes id
      [\<lparr>node_name = ''b'', node_labels = [''node.kubernetes.io/instance-type'' \<mapsto> ''g6.xlarge''], os_image = ''Ubuntu 22.04''\<rparr>,
       \<lparr>node_name = ''a'', node_labels = [''node.kubernetes.io/instance-type'' \<mapsto> ''g4dn.xlarge''], os_image = ''Garden Linux 1592''\<rparr>])"
  by (rule preflight_order_independent [THEN conjunct1]) auto

end
