(* ===== verification/Chart.thy ===== *)
theory Chart
  imports Go_Prelude "HOL-Library.Multiset"
begin

text \<open>
  \<open>internal/chart/embed.go\<close>: the NVIDIA chart archives and the Garden Linux values embedded in
  the binary, and the choice of the archive with the highest semantic version. The embedded
  files, the semver package and \<open>sort.Slice\<close> are parameters (\<open>assets\<close>); the contract of
  \<open>sort.Slice\<close> is the locale \<open>slice_sorter\<close>, which Go's insertion sort satisfies.
\<close>

section \<open>sort.Slice\<close>

text \<open>
  \<open>sort.Slice(xs, less)\<close> requires a strict weak ordering; it permutes the slice and leaves no
  element after one that it should precede. It is not stable.
\<close>

definition strict_weak :: "('a \<Rightarrow> 'a \<Rightarrow> bool) \<Rightarrow> bool" where
  "strict_weak lt \<longleftrightarrow>
     (\<forall>x y. lt x y \<longrightarrow> \<not> lt y x) \<and>
     (\<forall>x y z. \<not> lt x y \<longrightarrow> \<not> lt y z \<longrightarrow> \<not> lt x z)"

lemma strict_weakD:
  assumes "strict_weak lt"
  shows strict_weak_irrefl: "\<not> lt x x"
    and strict_weak_asym: "lt x y \<Longrightarrow> \<not> lt y x"
    and strict_weak_negtrans: "\<not> lt x y \<Longrightarrow> \<not> lt y z \<Longrightarrow> \<not> lt x z"
  using assms unfolding strict_weak_def by blast+

lemma strict_weak_on: "strict_weak lt \<Longrightarrow> strict_weak (\<lambda>a b. lt (f a) (f b))"
  unfolding strict_weak_def by blast

locale slice_sorter =
  fixes sort_slice :: "('a \<Rightarrow> 'a \<Rightarrow> bool) \<Rightarrow> 'a list \<Rightarrow> 'a list"
  assumes mset_sort_slice: "mset (sort_slice lt xs) = mset xs"
    and sorted_sort_slice: "strict_weak lt \<Longrightarrow> sorted_wrt (\<lambda>a b. \<not> lt b a) (sort_slice lt xs)"
begin

lemma set_sort_slice: "set (sort_slice lt xs) = set xs"
  using mset_sort_slice by (metis set_mset_mset)

lemma sort_slice_eq_Nil_iff: "sort_slice lt xs = [] \<longleftrightarrow> xs = []"
  by (metis mset_sort_slice mset_zero_iff)

lemma head_in: "xs \<noteq> [] \<Longrightarrow> hd (sort_slice lt xs) \<in> set xs"
  by (metis hd_in_set set_sort_slice sort_slice_eq_Nil_iff)

lemma head_first:
  assumes "strict_weak lt" and "y \<in> set xs"
  shows "\<not> lt y (hd (sort_slice lt xs))"
proof (cases "sort_slice lt xs")
  case Nil
  with assms(2) show ?thesis by (simp add: sort_slice_eq_Nil_iff)
next
  case (Cons z zs)
  with sorted_sort_slice [OF assms(1), of xs] have "\<forall>w \<in> set zs. \<not> lt w z" by simp
  moreover from assms(2) Cons have "y = z \<or> y \<in> set zs"
    using set_sort_slice [of lt xs] by auto
  ultimately show ?thesis using Cons strict_weak_irrefl [OF assms(1)] by auto
qed

end

text \<open>
  For up to 12 elements \<open>sort.Slice\<close> is an insertion sort: element by element, swapped with its
  predecessor while it is less than it. The sorted part is kept here last element first.
\<close>

fun insert_back :: "('a \<Rightarrow> 'a \<Rightarrow> bool) \<Rightarrow> 'a \<Rightarrow> 'a list \<Rightarrow> 'a list" where
  "insert_back lt x [] = [x]"
| "insert_back lt x (p # ps) = (if lt x p then p # insert_back lt x ps else x # p # ps)"

definition insertion_sort :: "('a \<Rightarrow> 'a \<Rightarrow> bool) \<Rightarrow> 'a list \<Rightarrow> 'a list" where
  "insertion_sort lt xs = rev (foldl (\<lambda>done x. insert_back lt x done) [] xs)"

lemma mset_insert_back: "mset (insert_back lt x ps) = add_mset x (mset ps)"
  by (induction ps) auto

lemma set_insert_back: "set (insert_back lt x ps) = insert x (set ps)"
  by (metis mset_insert_back set_mset_add_mset_insert set_mset_mset)

lemma mset_insertion_foldl:
  "mset (foldl (\<lambda>done x. insert_back lt x done) acc xs) = mset acc + mset xs"
  by (induction xs arbitrary: acc) (auto simp: mset_insert_back)

lemma sorted_insert_back:
  assumes "strict_weak lt"
  shows "sorted_wrt (\<lambda>a b. \<not> lt a b) ps \<Longrightarrow> sorted_wrt (\<lambda>a b. \<not> lt a b) (insert_back lt x ps)"
  by (induction ps)
     (auto simp: set_insert_back dest: strict_weak_asym [OF assms] strict_weak_negtrans [OF assms])

lemma sorted_insertion_foldl:
  assumes "strict_weak lt"
  shows "sorted_wrt (\<lambda>a b. \<not> lt a b) acc \<Longrightarrow>
    sorted_wrt (\<lambda>a b. \<not> lt a b) (foldl (\<lambda>done x. insert_back lt x done) acc xs)"
  by (induction xs arbitrary: acc) (auto intro: sorted_insert_back [OF assms])

interpretation go_sort: slice_sorter insertion_sort
proof
  show "mset (insertion_sort lt xs) = mset xs" for lt :: "'a \<Rightarrow> 'a \<Rightarrow> bool" and xs
    by (simp add: insertion_sort_def mset_insertion_foldl)
  show "sorted_wrt (\<lambda>a b. \<not> lt b a) (insertion_sort lt xs)"
    if "strict_weak lt" for lt :: "'a \<Rightarrow> 'a \<Rightarrow> bool" and xs
    using sorted_insertion_foldl [OF that, of "[]" xs] by (simp add: insertion_sort_def sorted_wrt_rev)
qed

section \<open>The embedded files\<close>

record dir_entry =
  entry_name :: string
  entry_is_dir :: bool

record 'v chart_entry =
  ce_name :: string
  ce_version :: 'v

text \<open>
  \<open>fs.ReadDir(chartFS, dir)\<close>, \<open>ReadFile\<close> of the two embedded file systems,
  \<open>semver.NewVersion\<close>, \<open>Version.GreaterThan\<close> and \<open>sort.Slice\<close> on chart entries.
\<close>

record 'v assets =
  read_chart_dir :: "string \<Rightarrow> err + dir_entry list"
  read_chart_file :: "string \<Rightarrow> err + string"
  read_values_file :: "string \<Rightarrow> err + string"
  semver_new :: "string \<Rightarrow> err + 'v"
  semver_greater :: "'v \<Rightarrow> 'v \<Rightarrow> bool"
  chart_sort :: "('v chart_entry \<Rightarrow> 'v chart_entry \<Rightarrow> bool) \<Rightarrow> 'v chart_entry list \<Rightarrow> 'v chart_entry list"

section \<open>The functions of embed.go\<close>

definition version_from_filename :: "string \<Rightarrow> string" where
  "version_from_filename name = trim_suffix (trim_prefix name ''gpu-operator-'') ''.tgz''"

text \<open>The loop of \<open>latestChartFilename\<close> over the directory's entries.\<close>

fun chart_entries :: "'v assets \<Rightarrow> dir_entry list \<Rightarrow> 'v chart_entry list" where
  "chart_entries A [] = []"
| "chart_entries A (e # es) =
     (if entry_is_dir e \<or> \<not> has_suffix (entry_name e) ''.tgz'' then chart_entries A es
      else case semver_new A (version_from_filename (entry_name e)) of
          Inl _ \<Rightarrow> chart_entries A es
        | Inr sv \<Rightarrow> \<lparr>ce_name = entry_name e, ce_version = sv\<rparr> # chart_entries A es)"

definition chart_less :: "'v assets \<Rightarrow> 'v chart_entry \<Rightarrow> 'v chart_entry \<Rightarrow> bool" where
  "chart_less A a b = semver_greater A (ce_version a) (ce_version b)"

definition latest_chart_filename :: "'v assets \<Rightarrow> err + string" where
  "latest_chart_filename A =
     (case read_chart_dir A ''gpu-operator'' of
        Inl e \<Rightarrow> Inl (Wrap_Err ''reading embedded gpu-operator directory'' e)
      | Inr entries \<Rightarrow>
          let charts = chart_entries A entries in
          if charts = [] then Inl (Errorf ''no .tgz chart archive found in embedded gpu-operator directory'')
          else Inr (ce_name (hd (chart_sort A (chart_less A) charts))))"

definition gpu_operator_chart :: "'v assets \<Rightarrow> err + string" where
  "gpu_operator_chart A =
     (case latest_chart_filename A of
        Inl e \<Rightarrow> Inl e
      | Inr name \<Rightarrow>
          (case read_chart_file A (''gpu-operator/'' @ name) of
             Inl e \<Rightarrow> Inl (Wrap_Err (''reading embedded chart '' @ name) e)
           | Inr data \<Rightarrow> Inr data))"

definition garden_linux_values :: "'v assets \<Rightarrow> err + string" where
  "garden_linux_values A =
     (case read_values_file A ''values/gardenlinux.yaml'' of
        Inl e \<Rightarrow> Inl (Wrap_Err ''reading embedded gardenlinux values'' e)
      | Inr data \<Rightarrow> Inr data)"

definition gpu_operator_chart_version :: "'v assets \<Rightarrow> err + string" where
  "gpu_operator_chart_version A =
     (case latest_chart_filename A of
        Inl e \<Rightarrow> Inl e
      | Inr name \<Rightarrow> Inr (version_from_filename name))"

section \<open>Lemmas\<close>

text \<open>A candidate: a file of the directory named like an archive whose version parses.\<close>

definition is_chart :: "'v assets \<Rightarrow> dir_entry list \<Rightarrow> string \<Rightarrow> 'v \<Rightarrow> bool" where
  "is_chart A entries name v \<longleftrightarrow>
     (\<exists>e \<in> set entries. entry_name e = name \<and> \<not> entry_is_dir e) \<and>
     has_suffix name ''.tgz'' \<and> semver_new A (version_from_filename name) = Inr v"

lemma set_chart_entries:
  "set (chart_entries A es) = {\<lparr>ce_name = n, ce_version = v\<rparr> | n v. is_chart A es n v}"
proof (induction es)
  case Nil
  then show ?case by (simp add: is_chart_def)
next
  case (Cons e es)
  have "is_chart A (e # es) n v \<longleftrightarrow> is_chart A es n v \<or>
    (entry_name e = n \<and> \<not> entry_is_dir e \<and> has_suffix n ''.tgz'' \<and>
     semver_new A (version_from_filename n) = Inr v)" for n v
    unfolding is_chart_def by auto
  then show ?case using Cons.IH by (auto split: sum.splits)
qed

lemma latest_chart_head:
  assumes "slice_sorter (chart_sort A)" and "read_chart_dir A ''gpu-operator'' = Inr es"
    and "latest_chart_filename A = Inr name"
  obtains v where "is_chart A es name v"
    and "hd (chart_sort A (chart_less A) (chart_entries A es)) = \<lparr>ce_name = name, ce_version = v\<rparr>"
proof -
  let ?h = "hd (chart_sort A (chart_less A) (chart_entries A es))"
  from assms(2,3) have ne: "chart_entries A es \<noteq> []" and n: "ce_name ?h = name"
    by (auto simp: latest_chart_filename_def Let_def split: if_splits)
  from slice_sorter.head_in [OF assms(1) ne] have "?h \<in> set (chart_entries A es)" .
  with n that show thesis by (auto simp: set_chart_entries)
qed

lemma latest_chart_greatest:
  assumes "slice_sorter (chart_sort A)" and "strict_weak (semver_greater A)"
    and "read_chart_dir A ''gpu-operator'' = Inr es"
    and "latest_chart_filename A = Inr name" and "is_chart A es n' v'"
  obtains v where "is_chart A es name v" and "\<not> semver_greater A v' v"
proof -
  obtain v where v: "is_chart A es name v"
    and h: "hd (chart_sort A (chart_less A) (chart_entries A es)) = \<lparr>ce_name = name, ce_version = v\<rparr>"
    using latest_chart_head [OF assms(1,3,4)] .
  have "strict_weak (chart_less A)"
    using strict_weak_on [OF assms(2), of ce_version] by (simp add: chart_less_def [abs_def])
  moreover have "\<lparr>ce_name = n', ce_version = v'\<rparr> \<in> set (chart_entries A es)"
    using assms(5) by (auto simp: set_chart_entries)
  ultimately have "\<not> chart_less A \<lparr>ce_name = n', ce_version = v'\<rparr> \<lparr>ce_name = name, ce_version = v\<rparr>"
    using slice_sorter.head_first [OF assms(1)] h by metis
  with v that show thesis by (simp add: chart_less_def)
qed

section \<open>Properties\<close>

text \<open>C29: The archive that is installed has the highest version: it is one of the archives in the
  embedded directory whose file name carries a semantic version, and no other such archive has
  a greater one. (\<open>sort.Slice\<close> sorts, and the version order is a strict weak order.)\<close>

theorem latest_chart_is_greatest:
  assumes "slice_sorter (chart_sort A)" and "strict_weak (semver_greater A)"
    and "read_chart_dir A ''gpu-operator'' = Inr es" and "latest_chart_filename A = Inr name"
  shows "\<exists>v. is_chart A es name v \<and> (\<forall>n' v'. is_chart A es n' v' \<longrightarrow> \<not> semver_greater A v' v)"
proof -
  obtain v where v: "is_chart A es name v"
    using latest_chart_head [OF assms(1,3,4)] .
  have "\<not> semver_greater A v' v" if "is_chart A es n' v'" for n' v'
    using latest_chart_greatest [OF assms that] v by (auto simp: is_chart_def)
  with v show ?thesis by blast
qed

definition example_assets :: "nat assets" where
  "example_assets =
     \<lparr>read_chart_dir = (\<lambda>d. Inr (map (\<lambda>n. \<lparr>entry_name = n, entry_is_dir = False\<rparr>)
        [''gpu-operator-1.tgz'', ''gpu-operator-3.tgz'', ''gpu-operator-2.tgz'', ''notes.txt''])),
      read_chart_file = Inr, read_values_file = Inr,
      semver_new = (\<lambda>v. Inr (read_nat v)), semver_greater = (\<lambda>a b. b < a), chart_sort = insertion_sort\<rparr>"

lemma example_assets_laws:
  "slice_sorter (chart_sort example_assets)" "strict_weak (semver_greater example_assets)"
  by (auto simp: example_assets_def go_sort.slice_sorter_axioms strict_weak_def)

lemma example_assets_latest: "latest_chart_filename example_assets = Inr ''gpu-operator-3.tgz''"
  by code_simp

theorem latest_chart_is_greatest_witness:
  "\<exists>es v. is_chart example_assets es ''gpu-operator-3.tgz'' v \<and>
     (\<forall>n' v'. is_chart example_assets es n' v' \<longrightarrow> \<not> v < v')"
proof -
  obtain es where "read_chart_dir example_assets ''gpu-operator'' = Inr es" by (simp add: example_assets_def)
  from latest_chart_is_greatest [OF example_assets_laws this example_assets_latest]
  show ?thesis by (auto simp: example_assets_def)
qed

text \<open>C30: The version reported in the status is that of the archive whose bytes are installed: both
  functions pick the same file, and from the name \<open>gpu-operator-<version>.tgz\<close> the version is
  read back.\<close>

theorem chart_version_matches:
  assumes "gpu_operator_chart A = Inr data" and "gpu_operator_chart_version A = Inr version"
  shows "\<exists>name. read_chart_file A (''gpu-operator/'' @ name) = Inr data \<and>
    version = version_from_filename name \<and> (\<forall>v. name = ''gpu-operator-'' @ v @ ''.tgz'' \<longrightarrow> version = v)"
proof -
  have "version_from_filename (''gpu-operator-'' @ v @ ''.tgz'') = v" for v
    using trim_prefix_append [of "''gpu-operator-''" "v @ ''.tgz''"] trim_suffix_append [of v "''.tgz''"]
    unfolding version_from_filename_def by simp
  with assms show ?thesis
    by (auto simp: gpu_operator_chart_def gpu_operator_chart_version_def split: sum.splits)
qed

theorem chart_version_matches_witness:
  "\<exists>name. read_chart_file example_assets (''gpu-operator/'' @ name) = Inr ''gpu-operator/gpu-operator-3.tgz'' \<and>
    ''3'' = version_from_filename name"
  using chart_version_matches [of example_assets "''gpu-operator/gpu-operator-3.tgz''" "''3''"]
  by (auto simp: gpu_operator_chart_def gpu_operator_chart_version_def example_assets_latest
      version_from_filename_def trim_prefix_def trim_suffix_def has_prefix_def has_suffix_def
      example_assets_def)

end
