(* ===== verification/Values.thy ===== *)
theory Values
  imports Api_Types Detection Chart
begin

text \<open>
  \<open>internal/helm/values.go\<close>: the translation of the Gpu spec and the detected operating system
  into Helm values. Maps are updated in place in the code and returned updated here; a write
  to a nil map panics. The YAML parser is a parameter. The lemmas give the value found at each
  path of the result.
\<close>

section \<open>Parameters\<close>

text \<open>
  \<open>sigsyaml.Unmarshal(raw, &base)\<close>: the map it stores (nil for an empty document) or its error;
  and the result of \<open>int64(f)\<close> for a float64 outside the range of int64.
\<close>

record yaml =
  yaml_unmarshal :: "string \<Rightarrow> err + gomap"
  int64_unspecified :: "float64 \<Rightarrow> int"

section \<open>Time slicing names\<close>

definition time_slicing_config_map_prefix :: string where
  "time_slicing_config_map_prefix = ''gpu-time-slicing-config''"

definition replicas_config_map_name :: "int32 \<Rightarrow> string" where
  "replicas_config_map_name n = time_slicing_config_map_prefix @ ''-'' @ show_int32 n"

definition time_slicing_config_map_name :: "gpu_spec \<Rightarrow> string" where
  "time_slicing_config_map_name spec =
     (case spec_time_slicing spec of None \<Rightarrow> [] | Some ts \<Rightarrow> replicas_config_map_name (replicas ts))"

section \<open>BuildValues\<close>

record cluster_info =
  cluster_os :: os_type

definition nvidia_driver_repo :: string where
  "nvidia_driver_repo = ''nvcr.io/nvidia''"

definition normalize_driver_version :: "yaml \<Rightarrow> gomap \<Rightarrow> gomap" where
  "normalize_driver_version Y vals =
     (case as_map (map_read vals ''driver'') of
        None \<Rightarrow> vals
      | Some driver \<Rightarrow>
          (case map_of driver ''version'' of
             Some (Any_Float f) \<Rightarrow>
               map_option (AList.update ''driver'' (Any_Map (AList.update ''version''
                 (Any_Str (show_int (float_to_int64 (int64_unspecified Y) f))) driver))) vals
           | _ \<Rightarrow> vals))"

definition garden_linux_base :: "'v assets \<Rightarrow> yaml \<Rightarrow> err + gomap" where
  "garden_linux_base A Y =
     (case garden_linux_values A of
        Inl e \<Rightarrow> Inl (Wrap_Err ''loading garden linux base values'' e)
      | Inr raw \<Rightarrow>
          (case yaml_unmarshal Y raw of
             Inl e \<Rightarrow> Inl (Wrap_Err ''parsing garden linux base values'' e)
           | Inr base \<Rightarrow> Inr (normalize_driver_version Y base)))"

definition spec_driver_version :: "gpu_spec \<Rightarrow> string" where
  "spec_driver_version spec = (case spec_driver spec of None \<Rightarrow> [] | Some d \<Rightarrow> spec_version d)"

definition apply_spec_overrides :: "gomap \<Rightarrow> gpu_spec \<Rightarrow> gomap run" where
  "apply_spec_overrides vals spec =
     (let driver = (case as_map (map_read vals ''driver'') of
                      None \<Rightarrow> [(''enabled'', Any_Bool True), (''repository'', Any_Str nvidia_driver_repo)]
                    | Some d \<Rightarrow> d);
          v = spec_driver_version spec;
          driver = (if v \<noteq> [] then AList.update ''version'' (Any_Str v) driver else driver)
      in map_assign vals ''driver'' (Any_Map driver))"

text \<open>The YAML text of the device plugin's configuration; each line ends with a newline.\<close>

definition time_slicing_data :: "int32 \<Rightarrow> string" where
  "time_slicing_data n =
     concat (map (\<lambda>l. l @ [CHR 0x0A])
       [''version: v1'', ''sharing:'', ''  timeSlicing:'', ''    resources:'',
        ''    - name: nvidia.com/gpu'', ''      replicas: '' @ show_int32 n])"

definition apply_time_slicing_values :: "gomap \<Rightarrow> gpu_spec \<Rightarrow> gomap run" where
  "apply_time_slicing_values vals spec =
     (case spec_time_slicing spec of
        None \<Rightarrow> Done vals
      | Some ts \<Rightarrow>
          let data = time_slicing_data (replicas ts);
              dp = (case as_map (map_read vals ''devicePlugin'') of None \<Rightarrow> [] | Some d \<Rightarrow> d);
              dp = AList.update ''config'' (Any_Map
                     [(''create'', Any_Bool True),
                      (''name'', Any_Str (replicas_config_map_name (replicas ts))),
                      (''default'', Any_Str ''any''),
                      (''data'', Any_Map [(''any'', Any_Str data)])]) dp
          in map_assign vals ''devicePlugin'' (Any_Map dp))"

definition build_values :: "'v assets \<Rightarrow> yaml \<Rightarrow> gpu_spec \<Rightarrow> cluster_info \<Rightarrow> (err + gomap) run" where
  "build_values A Y spec cluster =
     (let finish = (\<lambda>vals. run_then (apply_spec_overrides vals spec) (\<lambda>vals.
                      run_then (apply_time_slicing_values vals spec) (\<lambda>vals. Done (Inr vals)))) in
      if cluster_os cluster = OSTypeGardenLinux then
        (case garden_linux_base A Y of
           Inl e \<Rightarrow> Done (Inl e)
         | Inr base \<Rightarrow> finish base)
      else finish (Some []))"

section \<open>Reading a path of nested maps\<close>

fun any_at :: "any \<Rightarrow> string list \<Rightarrow> any option" where
  "any_at v [] = Some v"
| "any_at (Any_Map kv) (k # ks) = (case map_of kv k of None \<Rightarrow> None | Some v \<Rightarrow> any_at v ks)"
| "any_at _ (k # ks) = None"

definition map_at :: "gomap \<Rightarrow> string list \<Rightarrow> any option" where
  "map_at m ks = (case m of None \<Rightarrow> None | Some kv \<Rightarrow> any_at (Any_Map kv) ks)"

lemma map_at_None [simp]: "map_at None ks = None"
  by (simp add: map_at_def)

lemma map_at_Cons:
  "map_at (Some kv) (k # ks) = (case map_of kv k of None \<Rightarrow> None | Some v \<Rightarrow> any_at v ks)"
  by (simp add: map_at_def)

lemma map_at_update:
  "map_at (Some (AList.update k v kv)) (j # ks) =
     (if j = k then any_at v ks else map_at (Some kv) (j # ks))"
  by (simp add: map_at_Cons update_conv)

lemma any_at_update:
  "any_at (Any_Map (AList.update k v kv)) (j # ks) =
     (if j = k then any_at v ks else any_at (Any_Map kv) (j # ks))"
  by (simp add: update_conv)

lemma map_at_as_map:
  "map_at m [k, j] = (case as_map (map_read m k) of None \<Rightarrow> None | Some kv \<Rightarrow> map_of kv j)"
proof (cases m)
  case (Some kv)
  then show ?thesis
    by (cases "map_of kv k"; cases "the (map_of kv k)")
       (auto simp: map_at_Cons as_map_def map_read_def split: option.splits)
qed (simp add: as_map_def map_read_def)

section \<open>Lemmas\<close>

lemma replicas_config_map_name_inject:
  "replicas_config_map_name m = replicas_config_map_name n \<longleftrightarrow> m = n"
  by (simp add: replicas_config_map_name_def show_int32_inject)

lemma replicas_config_map_name_nonempty: "replicas_config_map_name n \<noteq> []"
  by (simp add: replicas_config_map_name_def time_slicing_config_map_prefix_def)

text \<open>The base map the overrides start from: Garden Linux's file, or an empty map.\<close>

definition base_values :: "'v assets \<Rightarrow> yaml \<Rightarrow> cluster_info \<Rightarrow> err + gomap" where
  "base_values A Y cluster =
     (if cluster_os cluster = OSTypeGardenLinux then garden_linux_base A Y else Inr (Some []))"

text \<open>The two overrides of a map that is not nil.\<close>

definition override_driver :: "gpu_spec \<Rightarrow> kvs \<Rightarrow> kvs" where
  "override_driver spec kv =
     (let driver = (case as_map (map_of kv ''driver'') of
                      None \<Rightarrow> [(''enabled'', Any_Bool True), (''repository'', Any_Str nvidia_driver_repo)]
                    | Some d \<Rightarrow> d) in
      AList.update ''driver'' (Any_Map
        (if spec_driver_version spec \<noteq> []
         then AList.update ''version'' (Any_Str (spec_driver_version spec)) driver else driver)) kv)"

definition override_time_slicing :: "gpu_spec \<Rightarrow> kvs \<Rightarrow> kvs" where
  "override_time_slicing spec kv =
     (case spec_time_slicing spec of None \<Rightarrow> kv
      | Some ts \<Rightarrow> AList.update ''devicePlugin'' (Any_Map (AList.update ''config'' (Any_Map
             [(''create'', Any_Bool True),
              (''name'', Any_Str (replicas_config_map_name (replicas ts))),
              (''default'', Any_Str ''any''),
              (''data'', Any_Map [(''any'', Any_Str (time_slicing_data (replicas ts)))])])
           (case as_map (map_of kv ''devicePlugin'') of None \<Rightarrow> [] | Some d \<Rightarrow> d))) kv)"

lemma apply_spec_overrides_Some:
  "apply_spec_overrides (Some kv) spec = Done (Some (override_driver spec kv))"
  by (simp add: apply_spec_overrides_def override_driver_def Let_def map_read_def)

lemma apply_spec_overrides_None:
  "apply_spec_overrides None spec = Panic ''assignment to entry in nil map''"
  by (simp add: apply_spec_overrides_def Let_def)

lemma apply_time_slicing_Some:
  "apply_time_slicing_values (Some kv) spec = Done (Some (override_time_slicing spec kv))"
  by (simp add: apply_time_slicing_values_def override_time_slicing_def Let_def map_read_def
      split: option.splits)

lemma build_values_eq:
  "build_values A Y spec cluster =
     (case base_values A Y cluster of
        Inl e \<Rightarrow> Done (Inl e)
      | Inr None \<Rightarrow> Panic ''assignment to entry in nil map''
      | Inr (Some kv) \<Rightarrow> Done (Inr (Some (override_time_slicing spec (override_driver spec kv)))))"
  by (simp add: build_values_def base_values_def Let_def apply_spec_overrides_Some
      apply_spec_overrides_None apply_time_slicing_Some split: sum.splits option.splits)

lemma build_values_Done:
  assumes "build_values A Y spec cluster = Done (Inr vals)"
  obtains kv where "base_values A Y cluster = Inr (Some kv)"
    and "vals = Some (override_time_slicing spec (override_driver spec kv))"
  using assms by (auto simp: build_values_eq split: sum.splits option.splits)

lemma override_driver_lookup:
  "map_of (override_driver spec kv) k =
     (if k = ''driver'' then Some (Any_Map
        (if spec_driver_version spec \<noteq> []
         then AList.update ''version'' (Any_Str (spec_driver_version spec))
                (case as_map (map_of kv ''driver'') of
                   None \<Rightarrow> [(''enabled'', Any_Bool True), (''repository'', Any_Str nvidia_driver_repo)]
                 | Some d \<Rightarrow> d)
         else (case as_map (map_of kv ''driver'') of
                   None \<Rightarrow> [(''enabled'', Any_Bool True), (''repository'', Any_Str nvidia_driver_repo)]
                 | Some d \<Rightarrow> d)))
      else map_of kv k)"
  by (simp add: override_driver_def Let_def update_conv)

lemma override_time_slicing_other:
  "k \<noteq> ''devicePlugin'' \<Longrightarrow> map_of (override_time_slicing spec kv) k = map_of kv k"
  by (simp add: override_time_slicing_def update_conv split: option.splits)

lemma override_driver_other: "k \<noteq> ''driver'' \<Longrightarrow> map_of (override_driver spec kv) k = map_of kv k"
  by (simp add: override_driver_lookup)

lemma build_values_nonempty:
  assumes "build_values A Y spec cluster = Done (Inr vals)"
  shows "map_len vals \<noteq> 0"
proof -
  obtain kv where vals: "vals = Some (override_time_slicing spec (override_driver spec kv))"
    by (rule build_values_Done [OF assms])
  have "map_of (override_time_slicing spec (override_driver spec kv)) ''driver'' \<noteq> None"
    by (simp add: override_time_slicing_other override_driver_lookup)
  then have "override_time_slicing spec (override_driver spec kv) \<noteq> []" by (metis map_of.simps(1))
  then show ?thesis by (simp add: vals map_len_def)
qed

lemma driver_version_of_override:
  "any_at (Any_Map (override_driver spec kv)) [''driver'', ''version''] =
     (if spec_driver_version spec \<noteq> [] then Some (Any_Str (spec_driver_version spec))
      else map_at (Some kv) [''driver'', ''version''])"
  by (auto simp: override_driver_lookup map_at_as_map map_read_def update_conv split: option.splits)

lemma time_slicing_of_override:
  assumes "spec_time_slicing spec = Some ts"
  shows "map_at (Some (override_time_slicing spec kv)) (''devicePlugin'' # ''config'' # ks) = any_at (Any_Map
      [(''create'', Any_Bool True), (''name'', Any_Str (replicas_config_map_name (replicas ts))),
       (''default'', Any_Str ''any''),
       (''data'', Any_Map [(''any'', Any_Str (time_slicing_data (replicas ts)))])]) ks"
  by (simp add: override_time_slicing_def assms map_at_update any_at_update del: any_at.simps(2))

text \<open>The texts that the overrides write are ASCII.\<close>

lemma ascii_show_nat: "list_all ascii_byte (show_nat n)"
proof -
  have "list_all (\<lambda>n. ascii_byte (digit n)) [0..<10]" by code_simp
  then show ?thesis using show_nat_digits [of n] by (fastforce simp: list_all_iff)
qed

lemma ascii_show_int: "list_all ascii_byte (show_int i)"
  using ascii_show_nat by (simp add: show_int_def ascii_byte_def)

lemma ascii_config_map_name: "list_all ascii_byte (replicas_config_map_name n)"
  using ascii_show_int
  by (simp add: replicas_config_map_name_def time_slicing_config_map_prefix_def show_int32_def ascii_byte_def)

lemma ascii_data: "list_all ascii_byte (time_slicing_data n)"
  using ascii_show_int by (simp add: time_slicing_data_def show_int32_def ascii_byte_def)

text \<open>
  A property of values that good strings, booleans and empty maps have, that an update under a
  good key keeps and that the parts of a map inherit, where every ASCII string is good: then the
  values built have it, if what the YAML parser returns has and the version in the spec is good.
\<close>

locale value_law =
  fixes P :: "any \<Rightarrow> bool" and good :: "string \<Rightarrow> bool"
  assumes law_ascii: "list_all ascii_byte s \<Longrightarrow> good s"
    and law_string: "good s \<Longrightarrow> P (Any_Str s)" and law_bool: "P (Any_Bool b)" and law_empty: "P (Any_Map [])"
    and law_update: "P (Any_Map kv) \<Longrightarrow> P v \<Longrightarrow> good k \<Longrightarrow> P (Any_Map (AList.update k v kv))"
    and law_lookup: "P (Any_Map kv) \<Longrightarrow> map_of kv k = Some v \<Longrightarrow> P v"
begin

lemma law_keys [simp]:
  "good ''driver''" "good ''version''" "good ''devicePlugin''" "good ''config''"
  by (simp_all add: law_ascii ascii_byte_def)

lemma law_literal: "distinct (map fst kv) \<Longrightarrow> list_all ascii_byte (concat (map fst kv)) \<Longrightarrow> list_all P (map snd kv) \<Longrightarrow> P (Any_Map kv)"
proof (induction kv rule: rev_induct)
  case (snoc x kv)
  then have "AList.update (fst x) (snd x) kv = kv @ [x]"
    by (cases x) (simp add: update_new)
  with snoc law_update [of kv "snd x" "fst x"] show ?case by (simp add: law_ascii)
qed (simp add: law_empty)

lemma law_part: "P (Any_Map kv) \<Longrightarrow> P (Any_Map d) \<Longrightarrow>
    P (Any_Map (case as_map (map_of kv k) of None \<Rightarrow> d | Some m \<Rightarrow> m))"
  by (auto simp: as_map_Some_iff split: option.split dest: law_lookup)

lemma law_override_driver:
  assumes "P (Any_Map kv)" and "good (spec_driver_version spec)"
  shows "P (Any_Map (override_driver spec kv))"
proof -
  have "P (Any_Map [(''enabled'', Any_Bool True), (''repository'', Any_Str nvidia_driver_repo)])"
    by (rule law_literal) (simp_all add: law_string law_bool law_ascii nvidia_driver_repo_def ascii_byte_def)
  from law_part [OF assms(1) this] show ?thesis
    unfolding override_driver_def Let_def
    by (intro law_update assms law_keys) (simp add: law_update law_string assms(2))
qed

lemma law_override_time_slicing:
  assumes "P (Any_Map kv)"
  shows "P (Any_Map (override_time_slicing spec kv))"
proof (cases "spec_time_slicing spec")
  case (Some ts)
  have "P (Any_Map [(''any'', Any_Str (time_slicing_data (replicas ts)))])"
    by (rule law_literal) (simp_all add: law_string law_ascii ascii_data ascii_byte_def)
  then have "P (Any_Map [(''create'', Any_Bool True), (''name'', Any_Str (replicas_config_map_name (replicas ts))),
      (''default'', Any_Str ''any''), (''data'', Any_Map [(''any'', Any_Str (time_slicing_data (replicas ts)))])])"
    by (intro law_literal) (simp_all add: law_string law_bool law_ascii ascii_config_map_name ascii_byte_def)
  with law_part [OF assms law_empty] show ?thesis
    unfolding override_time_slicing_def Some option.case by (intro law_update assms law_keys)
qed (simp add: override_time_slicing_def assms)

lemma law_normalize:
  "P (Any_Map kv) \<Longrightarrow> normalize_driver_version Y (Some kv) = Some kv' \<Longrightarrow> P (Any_Map kv')"
  by (auto simp: normalize_driver_version_def map_read_def as_map_Some_iff law_string law_ascii ascii_show_int
      split: option.splits any.splits intro!: law_update dest: law_lookup)

lemma law_built:
  assumes "\<And>raw kv. yaml_unmarshal Y raw = Inr (Some kv) \<Longrightarrow> P (Any_Map kv)"
    and "good (spec_driver_version spec)" and "build_values A Y spec cluster = Done (Inr vals)"
  shows "\<exists>kv. vals = Some kv \<and> P (Any_Map kv)"
proof -
  obtain kv where base: "base_values A Y cluster = Inr (Some kv)"
    and vals: "vals = Some (override_time_slicing spec (override_driver spec kv))"
    by (rule build_values_Done [OF assms(3)])
  have "P (Any_Map kv)"
  proof (cases "cluster_os cluster = OSTypeGardenLinux")
    case True
    with base obtain raw parsed where "yaml_unmarshal Y raw = Inr parsed" "normalize_driver_version Y parsed = Some kv"
      by (auto simp: base_values_def garden_linux_base_def split: sum.splits)
    moreover from this(2) obtain m where "parsed = Some m"
      by (cases parsed) (auto simp: normalize_driver_version_def map_read_def as_map_def)
    ultimately show ?thesis using law_normalize [OF assms(1)] by blast
  next
    case False
    with base show ?thesis by (simp add: base_values_def law_empty)
  qed
  with vals show ?thesis by (blast intro: law_override_time_slicing law_override_driver assms(2))
qed

end

section \<open>Properties\<close>

text \<open>The driver map that the overrides start from: the one of the base, or the defaults.\<close>

definition base_driver :: "gomap \<Rightarrow> kvs" where
  "base_driver base =
     (case as_map (map_read base ''driver'') of
        None \<Rightarrow> [(''enabled'', Any_Bool True), (''repository'', Any_Str ''nvcr.io/nvidia'')]
      | Some driver \<Rightarrow> driver)"

lemma driver_of_override:
  "map_at (Some (override_driver spec kv)) [''driver'', k] =
     (if k = ''version'' \<and> spec_driver_version spec \<noteq> [] then Some (Any_Str (spec_driver_version spec))
      else map_of (base_driver (Some kv)) k)"
  by (simp add: map_at_Cons override_driver_lookup base_driver_def map_read_def nvidia_driver_repo_def update_conv
      split: option.split)

lemma as_map_map: "as_map (Some (Any_Map kv)) = Some kv"
  by (simp add: as_map_Some_iff)

lemma device_plugin_of_override:
  assumes "k \<noteq> ''config''"
  shows "map_at (Some (override_time_slicing spec kv)) [''devicePlugin'', k] = map_at (Some kv) [''devicePlugin'', k]"
  using assms
  by (cases "spec_time_slicing spec"; cases "as_map (map_of kv ''devicePlugin'')")
     (simp_all add: map_at_as_map map_read_def override_time_slicing_def update_conv as_map_Some_iff as_map_map)

text \<open>C24: The values that Helm gets, key by key. The driver version is the one of the Gpu spec when it
  names one; every other key of the driver map is as in the base values (Garden Linux's file, or
  nothing on Ubuntu), or as in the defaults (\<open>enabled\<close> and the repository, nothing else) when the
  base has no driver map. Time slicing only writes \<open>devicePlugin.config\<close>: the other keys of the
  device plugin stay, and without time slicing all of it. Every other key is passed on from
  the base unchanged.\<close>

theorem build_values_driver:
  assumes "build_values A Y spec cluster = Done (Inr vals)" and "base_values A Y cluster = Inr base"
  shows "(\<forall>k. map_at vals [''driver'', k] =
      (if k = ''version'' \<and> spec_driver_version spec \<noteq> [] then Some (Any_Str (spec_driver_version spec))
       else map_of (base_driver base) k)) \<and>
    (\<forall>k. k = ''config'' \<or> map_at vals [''devicePlugin'', k] = map_at base [''devicePlugin'', k]) \<and>
    (spec_time_slicing spec \<noteq> None \<or> map_read vals ''devicePlugin'' = map_read base ''devicePlugin'') \<and>
    (\<forall>k. k = ''driver'' \<or> k = ''devicePlugin'' \<or> map_read vals k = map_read base k)"
proof -
  obtain kv where "base_values A Y cluster = Inr (Some kv)"
    and vals: "vals = Some (override_time_slicing spec (override_driver spec kv))"
    by (rule build_values_Done [OF assms(1)])
  with assms(2) have base: "base = Some kv" by simp
  have driver: "map_at vals [''driver'', k] = map_at (Some (override_driver spec kv)) [''driver'', k]" for k
    by (simp add: vals map_at_Cons override_time_slicing_other)
  have plugin: "k = ''config'' \<or> map_at vals [''devicePlugin'', k] = map_at base [''devicePlugin'', k]" for k
    using device_plugin_of_override [of k spec "override_driver spec kv"]
    by (auto simp: vals base map_at_Cons override_driver_other)
  have other: "k = ''driver'' \<or> k = ''devicePlugin'' \<or> map_read vals k = map_read base k" for k
    by (cases "k = ''devicePlugin''"; cases "k = ''driver''")
       (simp_all add: base vals map_read_def override_time_slicing_other override_driver_other)
  have "spec_time_slicing spec \<noteq> None \<or> map_read vals ''devicePlugin'' = map_read base ''devicePlugin''"
    by (auto simp: vals base map_read_def override_time_slicing_def override_driver_other split: option.split)
  with driver plugin other show ?thesis
    by (simp add: driver_of_override base)
qed

definition example_yaml :: yaml where
  "example_yaml =
     \<lparr>yaml_unmarshal = (\<lambda>raw. Inr (Some
        [(''driver'', Any_Map [(''version'', Any_Float (Dyadic 595 0)), (''usePrecompiled'', Any_Bool True)]),
         (''toolkit'', Any_Map [(''enabled'', Any_Bool True)])])),
      int64_unspecified = (\<lambda>f. 0)\<rparr>"

definition example_spec :: gpu_spec where
  "example_spec = \<lparr>spec_driver = Some \<lparr>spec_version = ''570''\<rparr>, spec_time_slicing = Some \<lparr>replicas = 4\<rparr>\<rparr>"

lemma example_base:
  "base_values example_assets example_yaml \<lparr>cluster_os = ''gardenlinux''\<rparr> = Inr (Some
     [(''driver'', Any_Map [(''version'', Any_Str ''595''), (''usePrecompiled'', Any_Bool True)]),
      (''toolkit'', Any_Map [(''enabled'', Any_Bool True)])])"
  by code_simp

definition example_values :: kvs where
  "example_values = override_time_slicing example_spec (override_driver example_spec
     [(''driver'', Any_Map [(''version'', Any_Str ''595''), (''usePrecompiled'', Any_Bool True)]),
      (''toolkit'', Any_Map [(''enabled'', Any_Bool True)])])"

lemma example_built:
  "build_values example_assets example_yaml example_spec \<lparr>cluster_os = ''gardenlinux''\<rparr> = Done (Inr (Some example_values))"
  by (simp add: build_values_eq example_base example_values_def)

theorem build_values_driver_witness:
  "map_at (Some example_values) [''driver'', ''version''] = Some (Any_Str ''570'') \<and>
   map_at (Some example_values) [''driver'', ''usePrecompiled''] = Some (Any_Bool True) \<and>
   map_read (Some example_values) ''toolkit'' = Some (Any_Map [(''enabled'', Any_Bool True)])"
proof -
  note law = build_values_driver [OF example_built example_base]
  from law [THEN conjunct1, THEN spec, of "''version''"] law [THEN conjunct1, THEN spec, of "''usePrecompiled''"]
    law [THEN conjunct2, THEN conjunct2, THEN conjunct2, THEN spec, of "''toolkit''"]
  show ?thesis by (simp add: example_spec_def spec_driver_version_def map_read_def base_driver_def as_map_def)
qed

text \<open>C26: \<open>BuildValues\<close> by what the embedded file and the YAML parser give. On Garden Linux it fails
  when \<open>values/gardenlinux.yaml\<close> cannot be read or parsed, with that error wrapped, panics when the file is an
  empty document (a nil map), and otherwise returns values with a driver map; on any other system the file
  is not consulted and there are always values with a driver map.\<close>

theorem build_values_outcome:
  "if cluster_os cluster = ''gardenlinux'' then
     (case read_values_file A ''values/gardenlinux.yaml'' of
        Inl e \<Rightarrow> build_values A Y spec cluster = Done (Inl (Wrap_Err ''loading garden linux base values''
                   (Wrap_Err ''reading embedded gardenlinux values'' e)))
      | Inr raw \<Rightarrow>
          (case yaml_unmarshal Y raw of
             Inl e \<Rightarrow> build_values A Y spec cluster = Done (Inl (Wrap_Err ''parsing garden linux base values'' e))
           | Inr None \<Rightarrow> build_values A Y spec cluster = Panic ''assignment to entry in nil map''
           | Inr (Some parsed) \<Rightarrow> (\<exists>kv driver. build_values A Y spec cluster = Done (Inr (Some kv)) \<and>
               map_of kv ''driver'' = Some (Any_Map driver))))
   else \<exists>kv driver. build_values A Y spec cluster = Done (Inr (Some kv)) \<and> map_of kv ''driver'' = Some (Any_Map driver)"
proof -
  have driver: "\<exists>driver. map_of (override_time_slicing spec (override_driver spec kv)) ''driver'' = Some (Any_Map driver)" for kv
    by (simp add: override_time_slicing_other override_driver_lookup)
  have "normalize_driver_version Y None = None"
    by (simp add: normalize_driver_version_def map_read_def as_map_def)
  moreover have "\<exists>kv. normalize_driver_version Y (Some parsed) = Some kv" for parsed
    by (simp add: normalize_driver_version_def split: option.split any.split)
  then obtain norm where "normalize_driver_version Y (Some parsed) = Some (norm parsed)" for parsed by metis
  ultimately show ?thesis
    using driver
    by (simp add: build_values_eq base_values_def garden_linux_base_def garden_linux_values_def
        split: sum.split option.split)
qed

text \<open>C25: Time slicing: with it, the values point the device plugin to a configuration map of the
  name that \<open>TimeSlicingConfigMapName\<close> gives and embed a configuration with that number of
  replicas; two specs with different numbers of replicas (or one without time slicing) never
  share the name, so a change of the number always restarts the device plugin.\<close>

theorem time_slicing_configuration:
  assumes "build_values A Y spec cluster = Done (Inr vals)" and "spec_time_slicing spec = Some ts"
  shows "map_at vals [''devicePlugin'', ''config'', ''name''] = Some (Any_Str (time_slicing_config_map_name spec)) \<and>
    map_at vals [''devicePlugin'', ''config'', ''data'', ''any''] = Some (Any_Str (time_slicing_data (replicas ts))) \<and>
    map_at vals [''devicePlugin'', ''config'', ''create''] = Some (Any_Bool True) \<and>
    (time_slicing_config_map_name spec = time_slicing_config_map_name spec'
       \<longleftrightarrow> map_option replicas (spec_time_slicing spec') = Some (replicas ts))"
proof -
  obtain kv where vals: "vals = Some (override_time_slicing spec (override_driver spec kv))"
    by (rule build_values_Done [OF assms(1)])
  note time_slicing_of_override [OF assms(2), of "override_driver spec kv"]
  moreover have "time_slicing_config_map_name spec = time_slicing_config_map_name spec'
       \<longleftrightarrow> map_option replicas (spec_time_slicing spec') = Some (replicas ts)"
    using replicas_config_map_name_nonempty [of "replicas ts"]
    by (auto simp: time_slicing_config_map_name_def assms(2) replicas_config_map_name_inject split: option.split)
  ultimately show ?thesis
    by (simp add: vals time_slicing_config_map_name_def assms(2))
qed

theorem time_slicing_configuration_witness:
  "map_at (Some example_values) [''devicePlugin'', ''config'', ''name''] = Some (Any_Str ''gpu-time-slicing-config-4'')"
proof -
  have "spec_time_slicing example_spec = Some \<lparr>replicas = 4\<rparr>" by (simp add: example_spec_def)
  from time_slicing_configuration [OF example_built this] 
  have "map_at (Some example_values) [''devicePlugin'', ''config'', ''name''] =
      Some (Any_Str (time_slicing_config_map_name example_spec))" by simp
  also have "time_slicing_config_map_name example_spec = ''gpu-time-slicing-config-4''" by code_simp
  finally show ?thesis .
qed



text \<open>A DNS label, the names Kubernetes accepts everywhere.\<close>

definition dns_char :: "char \<Rightarrow> bool" where
  "dns_char c \<longleftrightarrow> c \<in> set ''abcdefghijklmnopqrstuvwxyz0123456789-''"

definition dns_label :: "string \<Rightarrow> bool" where
  "dns_label s \<longleftrightarrow> s \<noteq> [] \<and> length s \<le> 63 \<and> list_all dns_char s \<and> hd s \<noteq> CHR ''-'' \<and> last s \<noteq> CHR ''-''"

lemma dns_digit: "d < 10 \<Longrightarrow> dns_char (digit d) \<and> digit d \<noteq> CHR ''-''"
proof -
  have "list_all (\<lambda>d. dns_char (digit d) \<and> digit d \<noteq> CHR ''-'') [0..<10]" by code_simp
  then show "d < 10 \<Longrightarrow> ?thesis" by (auto simp: list_all_iff)
qed

lemma dns_show_int32: "list_all dns_char (show_int32 n) \<and> last (show_int32 n) \<noteq> CHR ''-'' \<and> show_int32 n \<noteq> []"
proof -
  have "list_all dns_char (show_nat k)" for k
    using show_nat_digits [of k] dns_digit by (fastforce simp: list_all_iff)
  moreover have "last (show_nat k) \<noteq> CHR ''-''" for k
    using last_show_nat [of k] dns_digit by metis
  moreover have "dns_char (CHR ''-'')" by code_simp
  ultimately show ?thesis
    by (simp add: show_int32_def show_int_def show_nat_nonempty)
qed

text \<open>C28: The name of the time slicing configuration is a valid Kubernetes name, of at most 35
  characters, for every number of replicas an int32 can hold (negative ones included).\<close>

theorem config_map_name_valid:
  "dns_label (replicas_config_map_name n) \<and> length (replicas_config_map_name n) \<le> 35"
proof -
  have "list_all dns_char (time_slicing_config_map_prefix @ ''-'')" by code_simp
  moreover have "length (time_slicing_config_map_prefix @ ''-'') = 24"
    "hd (time_slicing_config_map_prefix @ ''-'') = CHR ''g''"
    by (simp_all add: time_slicing_config_map_prefix_def)
  ultimately show ?thesis
    using length_show_int32 [of n] dns_show_int32 [of n]
    by (auto simp: dns_label_def replicas_config_map_name_def hd_append)
qed

end
