(* ===== verification/Conditions.thy ===== *)
theory Conditions
  imports Cluster
begin

text \<open>
  \<open>internal/controller/conditions.go\<close>: the condition types and reasons, and the Ready summary
  computed from the four managed conditions. The lemmas characterise each of its three
  results by the statuses of the managed conditions.
\<close>

section \<open>Types and reasons\<close>

abbreviation (input) condReady :: string where "condReady \<equiv> ''Ready''"
abbreviation (input) condPreflight :: string where "condPreflight \<equiv> ''Preflight''"
abbreviation (input) condHelmInstalled :: string where "condHelmInstalled \<equiv> ''HelmInstalled''"
abbreviation (input) condDriverReady :: string where "condDriverReady \<equiv> ''DriverReady''"
abbreviation (input) condValidatorPassed :: string where "condValidatorPassed \<equiv> ''ValidatorPassed''"
abbreviation (input) condWorkloadProtection :: string where "condWorkloadProtection \<equiv> ''WorkloadProtection''"

abbreviation (input) reasonWaiting :: string where "reasonWaiting \<equiv> ''Waiting''"
abbreviation (input) reasonProgressing :: string where "reasonProgressing \<equiv> ''Progressing''"
abbreviation (input) reasonReady :: string where "reasonReady \<equiv> ''Ready''"
abbreviation (input) reasonPassed :: string where "reasonPassed \<equiv> ''Passed''"
abbreviation (input) reasonFailed :: string where "reasonFailed \<equiv> ''Failed''"
abbreviation (input) reasonInstalled :: string where "reasonInstalled \<equiv> ''Installed''"
abbreviation (input) reasonUninstalling :: string where "reasonUninstalling \<equiv> ''Uninstalling''"
abbreviation (input) reasonReadError :: string where "reasonReadError \<equiv> ''ReadError''"
abbreviation (input) reasonForbiddenName :: string where "reasonForbiddenName \<equiv> ''ForbiddenCRName''"
abbreviation (input) reasonActiveWorkloads :: string where "reasonActiveWorkloads \<equiv> ''ActiveGPUWorkloads''"

section \<open>computeReadySummary\<close>

definition managed :: "string list" where
  "managed = [condPreflight, condHelmInstalled, condDriverReady, condValidatorPassed]"

definition ready_condition :: "string \<Rightarrow> string \<Rightarrow> string \<Rightarrow> int64 \<Rightarrow> condition" where
  "ready_condition status reason message gen =
     (new_condition condReady status reason message)\<lparr>c_observed_generation := gen\<rparr>"

text \<open>The first pass looks for a False, the second for an Unknown or an absent condition.\<close>

fun false_pass :: "'w kube \<Rightarrow> condition list \<Rightarrow> int64 \<Rightarrow> string list \<Rightarrow> condition option" where
  "false_pass K cs gen [] = None"
| "false_pass K cs gen (t # ts) =
     (case find_condition K cs t of
        Some c \<Rightarrow> if c_status c = ConditionFalse
                  then Some (ready_condition ConditionFalse (c_reason c) (c_message c) gen)
                  else false_pass K cs gen ts
      | None \<Rightarrow> false_pass K cs gen ts)"

fun unknown_pass :: "'w kube \<Rightarrow> condition list \<Rightarrow> int64 \<Rightarrow> string list \<Rightarrow> condition option" where
  "unknown_pass K cs gen [] = None"
| "unknown_pass K cs gen (t # ts) =
     (case find_condition K cs t of
        None \<Rightarrow> Some (ready_condition ConditionUnknown reasonWaiting [] gen)
      | Some c \<Rightarrow> if c_status c = ConditionUnknown
                  then Some (ready_condition ConditionUnknown (c_reason c) (c_message c) gen)
                  else unknown_pass K cs gen ts)"

definition compute_ready_summary :: "'w kube \<Rightarrow> condition list \<Rightarrow> int64 \<Rightarrow> condition" where
  "compute_ready_summary K cs gen =
     (case false_pass K cs gen managed of
        Some c \<Rightarrow> c
      | None \<Rightarrow>
          (case unknown_pass K cs gen managed of
             Some c \<Rightarrow> c
           | None \<Rightarrow> ready_condition ConditionTrue reasonReady ''GPU Operator is fully operational'' gen))"

section \<open>Lemmas\<close>

lemma ready_condition_sel [simp]:
  "c_type (ready_condition s r m gen) = condReady"
  "c_status (ready_condition s r m gen) = s"
  "c_reason (ready_condition s r m gen) = r"
  "c_message (ready_condition s r m gen) = m"
  "c_observed_generation (ready_condition s r m gen) = gen"
  "c_last_transition (ready_condition s r m gen) = 0"
  by (simp_all add: ready_condition_def)

text \<open>The status a condition list gives to a type: what the API reports for it, if anything.\<close>

definition status_of :: "'w kube \<Rightarrow> condition list \<Rightarrow> string \<Rightarrow> string option" where
  "status_of K cs t = map_option c_status (find_condition K cs t)"

lemma false_pass_None_iff:
  "false_pass K cs gen ts = None \<longleftrightarrow> Some ConditionFalse \<notin> status_of K cs ` set ts"
  by (induction ts) (auto simp: status_of_def split: option.splits)

lemma false_pass_status: "false_pass K cs gen ts = Some c \<Longrightarrow> c_status c = ConditionFalse"
  by (induction ts) (auto split: option.splits if_splits)

lemma unknown_pass_None_iff:
  "unknown_pass K cs gen ts = None \<longleftrightarrow>
     None \<notin> status_of K cs ` set ts \<and> Some ConditionUnknown \<notin> status_of K cs ` set ts"
  by (induction ts) (auto simp: status_of_def split: option.splits)

lemma unknown_pass_status: "unknown_pass K cs gen ts = Some c \<Longrightarrow> c_status c = ConditionUnknown"
  by (induction ts) (auto split: option.splits if_splits)

lemma pass_shape:
  "false_pass K cs gen ts = Some c \<Longrightarrow> \<exists>r m. c = ready_condition ConditionFalse r m gen"
  "unknown_pass K cs gen ts = Some c \<Longrightarrow> \<exists>r m. c = ready_condition ConditionUnknown r m gen"
  by (induction ts) (auto split: option.splits if_splits)

lemma summary_shape:
  "\<exists>s r m. compute_ready_summary K cs gen = ready_condition s r m gen"
proof -
  have "\<exists>r m. c = ready_condition ConditionFalse r m gen" if "false_pass K cs gen managed = Some c" for c
    using that by (rule pass_shape)
  moreover have "\<exists>r m. c = ready_condition ConditionUnknown r m gen" if "unknown_pass K cs gen managed = Some c" for c
    using that by (rule pass_shape)
  ultimately show ?thesis
    unfolding compute_ready_summary_def by (fastforce split: option.split)
qed

lemma summary_sel [simp]:
  "c_type (compute_ready_summary K cs gen) = condReady"
  "c_observed_generation (compute_ready_summary K cs gen) = gen"
  "c_last_transition (compute_ready_summary K cs gen) = 0"
  using summary_shape [of K cs gen] by auto

lemma summary_status:
  "c_status (compute_ready_summary K cs gen) =
     (let sts = status_of K cs ` set managed in
      if Some ConditionFalse \<in> sts then ConditionFalse
      else if None \<in> sts \<or> Some ConditionUnknown \<in> sts then ConditionUnknown
      else ConditionTrue)"
proof -
  have f: "false_pass K cs gen managed = None \<longleftrightarrow> Some ConditionFalse \<notin> status_of K cs ` set managed"
    by (rule false_pass_None_iff)
  have u: "unknown_pass K cs gen managed = None \<longleftrightarrow>
      None \<notin> status_of K cs ` set managed \<and> Some ConditionUnknown \<notin> status_of K cs ` set managed"
    by (rule unknown_pass_None_iff)
  show ?thesis
    using f u unfolding Let_def
    by (cases "false_pass K cs gen managed"; cases "unknown_pass K cs gen managed")
       (simp_all add: compute_ready_summary_def false_pass_status unknown_pass_status)
qed

text \<open>The summary depends on the managed conditions only: not on Ready itself, nor on any other.\<close>

lemma summary_cong:
  assumes "\<And>t. t \<in> set managed \<Longrightarrow> find_condition K cs t = find_condition K ds t"
  shows "compute_ready_summary K cs gen = compute_ready_summary K ds gen"
proof -
  have "false_pass K cs gen ts = false_pass K ds gen ts \<and> unknown_pass K cs gen ts = unknown_pass K ds gen ts"
    if "set ts \<subseteq> set managed" for ts
    using that assms by (induction ts) (auto split: option.splits)
  note same = this [OF subset_refl [of "set managed"]]
  show ?thesis unfolding compute_ready_summary_def
    by (simp only: conjunct1 [OF same] conjunct2 [OF same])
qed

text \<open>The condition of type \<open>t\<close> is the one that the summary \<open>c\<close> takes over; a missing one is waited for.\<close>

definition taken_from :: "'w kube \<Rightarrow> condition list \<Rightarrow> condition \<Rightarrow> string \<Rightarrow> bool" where
  "taken_from K cs c t \<longleftrightarrow>
     (case find_condition K cs t of
        Some d \<Rightarrow> c_status d = c_status c \<and> c_reason c = c_reason d \<and> c_message c = c_message d
      | None \<Rightarrow> c_status c = ConditionUnknown \<and> c_reason c = reasonWaiting \<and> c_message c = [])"

lemma pass_taken:
  "false_pass K cs gen ts = Some c \<Longrightarrow> list_ex (taken_from K cs c) ts"
  "unknown_pass K cs gen ts = Some c \<Longrightarrow> list_ex (taken_from K cs c) ts"
  by (induction ts) (auto simp: taken_from_def split: option.splits if_splits)

lemma summary_taken:
  "compute_ready_summary K cs gen = ready_condition ConditionTrue reasonReady ''GPU Operator is fully operational'' gen \<or>
   list_ex (taken_from K cs (compute_ready_summary K cs gen)) managed"
  unfolding compute_ready_summary_def by (auto split: option.split dest: pass_taken)

section \<open>Properties\<close>

text \<open>C19: The Ready summary follows the documented precedence: it is False when one of the four
  managed conditions is False; otherwise Unknown when one of them is Unknown or missing; and
  True only when all four are present with another status, which for the statuses the API
  knows means that all four are True. It has the reason \<open>Ready\<close> then; otherwise it takes its status,
  reason and message over from one of the managed conditions, or waits for one that is missing.\<close>

theorem ready_summary:
  "(let c = compute_ready_summary K cs gen; sts = status_of K cs ` set managed in
    c_type c = condReady \<and> c_observed_generation c = gen \<and>
    (c_status c = ConditionFalse \<longleftrightarrow> Some ConditionFalse \<in> sts) \<and>
    (c_status c = ConditionUnknown \<longleftrightarrow>
       Some ConditionFalse \<notin> sts \<and> (None \<in> sts \<or> Some ConditionUnknown \<in> sts)) \<and>
    (c_status c = ConditionTrue \<longleftrightarrow> sts \<inter> {None, Some ConditionFalse, Some ConditionUnknown} = {}) \<and>
    (c = ready_condition ConditionTrue reasonReady ''GPU Operator is fully operational'' gen \<or>
       list_ex (taken_from K cs c) managed))"
  using summary_taken [of K cs gen] by (auto simp: Let_def summary_status)

end
