(* ===== verification/Status.thy ===== *)
theory Status
  imports Conditions
begin

text \<open>
  The status writer of \<open>internal/controller/gpu_controller.go\<close> (\<open>statusUpdate\<close>,
  \<open>applyStatus\<close>): read the live object, merge the requested conditions, the Ready summary and
  the observed fields into its status, and patch it unless nothing changed. The lemmas say
  what the merged status holds, that merging twice changes nothing, and which requests the
  writer can make.
\<close>

section \<open>applyStatus\<close>

record status_update =
  upd_conditions :: "condition list"
  upd_include_ready :: bool
  upd_operator_version :: string
  upd_driver :: "driver_status option"

definition only_conditions :: "condition list \<Rightarrow> status_update" where
  "only_conditions cs =
     \<lparr>upd_conditions = cs, upd_include_ready = False, upd_operator_version = [], upd_driver = None\<rparr>"

text \<open>The loop over the requested conditions; \<open>tm k\<close> is the \<open>k\<close>-th reading of the clock.\<close>

fun set_conditions ::
  "'w kube \<Rightarrow> (nat \<Rightarrow> time) \<Rightarrow> nat \<Rightarrow> int64 \<Rightarrow> condition list \<Rightarrow> condition list \<Rightarrow> condition list" where
  "set_conditions K tm k gen [] live = live"
| "set_conditions K tm k gen (c # cs) live =
     set_conditions K tm (Suc k) gen cs (set_condition K (tm k) live (c\<lparr>c_observed_generation := gen\<rparr>))"

definition merge_status ::
  "'w kube \<Rightarrow> (nat \<Rightarrow> time) \<Rightarrow> int64 \<Rightarrow> status_update \<Rightarrow> gpu_status \<Rightarrow> gpu_status" where
  "merge_status K tm gen upd st =
     (let cs = set_conditions K tm 0 gen (upd_conditions upd) (conditions st);
          cs = (if upd_include_ready upd
                then set_condition K (tm (length (upd_conditions upd))) cs (compute_ready_summary K cs gen)
                else cs);
          st = st\<lparr>conditions := cs\<rparr>;
          st = (if upd_operator_version upd \<noteq> []
                then st\<lparr>operator_version := upd_operator_version upd\<rparr> else st)
      in if upd_driver upd \<noteq> None then st\<lparr>status_driver := upd_driver upd\<rparr> else st)"

definition apply_status :: "'w kube \<Rightarrow> string \<Rightarrow> status_update \<Rightarrow> ('w, err option) kube_eff" where
  "apply_status K name upd = do {
     r \<leftarrow> get_gpu K name;
     case r of
       Inl e \<Rightarrow> State_Monad.return (Some (Wrap_Err ''re-fetching Gpu CR for status update'' e))
     | Inr original \<Rightarrow> do {
         tm \<leftarrow> read_clock K;
         let live = original\<lparr>gpu_status_of := merge_status K tm (generation original) upd (gpu_status_of original)\<rparr>;
         if semantic_equal K (gpu_status_of original) (gpu_status_of live)
         then State_Monad.return None
         else do {
           e \<leftarrow> patch_status K live original;
           State_Monad.return (map_option (Wrap_Err ''patching Gpu status'') e)
         }
       }
   }"

section \<open>What the merged status holds\<close>

lemma merge_status_fields:
  "operator_version (merge_status K tm gen upd st) =
     (if upd_operator_version upd \<noteq> [] then upd_operator_version upd else operator_version st)"
  "status_driver (merge_status K tm gen upd st) =
     (if upd_driver upd \<noteq> None then upd_driver upd else status_driver st)"
  by (simp_all add: merge_status_def Let_def)

lemma merge_status_conditions:
  "conditions (merge_status K tm gen upd st) =
     (let cs = set_conditions K tm 0 gen (upd_conditions upd) (conditions st) in
      if upd_include_ready upd
      then set_condition K (tm (length (upd_conditions upd))) cs (compute_ready_summary K cs gen)
      else cs)"
  by (simp add: merge_status_def Let_def)

text \<open>
  Condition literals of the code have no transition time and the types of one update are
  distinct.
\<close>

definition fresh_conditions :: "condition list \<Rightarrow> bool" where
  "fresh_conditions cs \<longleftrightarrow> distinct (map c_type cs) \<and> list_all (\<lambda>c. c_last_transition c = 0) cs"

context kube_library
begin

lemma set_conditions_other:
  "t \<notin> c_type ` set cs \<Longrightarrow>
     find_condition K (set_conditions K tm k gen cs live) t = find_condition K live t"
  by (induction cs arbitrary: k live) (auto simp: cond.find_set_other)

lemma set_conditions_find:
  assumes "fresh_conditions cs" and "c \<in> set cs"
  shows "\<exists>now. find_condition K (set_conditions K tm k gen cs live) (c_type c) =
           Some (c\<lparr>c_observed_generation := gen, c_last_transition := now\<rparr>)"
  using assms
proof (induction cs arbitrary: k live)
  case (Cons d ds)
  from Cons.prems(1) have fresh: "fresh_conditions ds" and "c_last_transition d = 0"
    and new: "c_type d \<notin> c_type ` set ds"
    by (auto simp: fresh_conditions_def)
  show ?case
  proof (cases "c \<in> set ds")
    case True
    with Cons.IH [OF fresh] show ?thesis by simp
  next
    case False
    with Cons.prems(2) have "c = d" by simp
    with new \<open>c_last_transition d = 0\<close> show ?thesis
      using cond.find_set_same [of "d\<lparr>c_observed_generation := gen\<rparr>" "tm k" live]
      by (auto simp: set_conditions_other)
  qed
qed simp

text \<open>Setting conditions that are already there with the same contents changes nothing.\<close>

lemma set_conditions_unchanged:
  assumes "\<And>c. c \<in> set cs \<Longrightarrow> \<exists>now. find_condition K live (c_type c) =
             Some (c\<lparr>c_observed_generation := gen, c_last_transition := now\<rparr>)"
  shows "set_conditions K tm k gen cs live = live"
  using assms
proof (induction cs arbitrary: k)
  case (Cons c cs)
  from Cons.prems [of c] obtain now where
    "find_condition K live (c_type c) = Some (c\<lparr>c_observed_generation := gen, c_last_transition := now\<rparr>)"
    by auto
  then have "set_condition K (tm k) live (c\<lparr>c_observed_generation := gen\<rparr>) = live"
    using cond.set_unchanged [of live "c\<lparr>c_observed_generation := gen\<rparr>"] by simp
  with Cons show ?case by simp
qed simp

lemma merged_find_requested:
  assumes "fresh_conditions (upd_conditions upd)" and "c \<in> set (upd_conditions upd)"
    and "upd_include_ready upd \<Longrightarrow> c_type c \<noteq> condReady"
  shows "\<exists>now. find_condition K (conditions (merge_status K tm gen upd st)) (c_type c) =
           Some (c\<lparr>c_observed_generation := gen, c_last_transition := now\<rparr>)"
  using set_conditions_find [OF assms(1,2)] assms(3)
  by (auto simp: merge_status_conditions Let_def cond.find_set_other)

lemma merged_find_other:
  assumes "t \<notin> c_type ` set (upd_conditions upd)" and "upd_include_ready upd \<Longrightarrow> t \<noteq> condReady"
  shows "find_condition K (conditions (merge_status K tm gen upd st)) t = find_condition K (conditions st) t"
  using assms by (auto simp: merge_status_conditions Let_def cond.find_set_other set_conditions_other)

lemma merged_find_ready:
  assumes "upd_include_ready upd" and "condReady \<notin> c_type ` set (upd_conditions upd)"
  shows "\<exists>now. find_condition K (conditions (merge_status K tm gen upd st)) condReady =
    Some ((compute_ready_summary K (conditions (merge_status K tm gen upd st)) gen)\<lparr>c_last_transition := now\<rparr>)"
proof -
  define cs where "cs = set_conditions K tm 0 gen (upd_conditions upd) (conditions st)"
  define ms where "ms = conditions (merge_status K tm gen upd st)"
  have ms: "ms = set_condition K (tm (length (upd_conditions upd))) cs (compute_ready_summary K cs gen)"
    using assms(1) by (simp add: ms_def cs_def merge_status_conditions Let_def)
  have "compute_ready_summary K ms gen = compute_ready_summary K cs gen"
    by (rule summary_cong) (auto simp: ms managed_def cond.find_set_other)
  then show ?thesis
    using cond.find_set_same [of "compute_ready_summary K cs gen" "tm (length (upd_conditions upd))" cs]
    by (simp add: ms_def [symmetric]) (auto simp: ms)
qed

text \<open>Merging the same update again, at any later time, changes nothing.\<close>

lemma merge_status_idempotent:
  assumes fresh: "fresh_conditions (upd_conditions upd)"
    and ready: "upd_include_ready upd \<Longrightarrow> condReady \<notin> c_type ` set (upd_conditions upd)"
  shows "merge_status K tm' gen upd (merge_status K tm gen upd st) = merge_status K tm gen upd st"
proof -
  let ?st = "merge_status K tm gen upd st"
  let ?cs = "conditions ?st"
  have "\<exists>now. find_condition K ?cs (c_type c) = Some (c\<lparr>c_observed_generation := gen, c_last_transition := now\<rparr>)"
    if "c \<in> set (upd_conditions upd)" for c
    using merged_find_requested [OF fresh that] ready that by (metis imageI)
  then have same: "set_conditions K tm' k gen (upd_conditions upd) ?cs = ?cs" for k
    by (intro set_conditions_unchanged) auto
  have "set_condition K now ?cs (compute_ready_summary K ?cs gen) = ?cs" if "upd_include_ready upd" for now
    using merged_find_ready [OF that ready [OF that], of tm gen st]
    by (auto intro!: cond.set_unchanged)
  with same have "conditions (merge_status K tm' gen upd ?st) = ?cs"
    by (simp add: merge_status_conditions [of K tm' gen upd ?st] Let_def)
  then show ?thesis
    by (intro gpu_status.equality) (simp_all add: merge_status_fields)
qed

end

section \<open>Which requests the writer makes\<close>

text \<open>It only reads the object of that name and patches the status of an object.\<close>

fun status_event :: "string \<Rightarrow> kube_event \<Rightarrow> bool" where
  "status_event name (Get_Gpu n r) = (n = name)"
| "status_event name (Patch_Status live original e) =
     (live = original\<lparr>gpu_status_of := gpu_status_of live\<rparr>)"
| "status_event name _ = False"

lemma emits_apply_status: "emits (apply_status K name upd) (status_event name)"
  unfolding apply_status_def get_gpu_def patch_status_def Let_def
  by (auto intro!: emits_rules split: sum.splits)

section \<open>Properties\<close>

text \<open>Writing the same status again is a no-op: merging an update into a status that already
  has it, at any later time, gives the same status, so no patch is sent and no transition time
  moves. (The conditions of the update are fresh literals of distinct types.)\<close>

theorem status_merge_idempotent:
  assumes "kube_library K" and "fresh_conditions (upd_conditions upd)"
    and "condReady \<notin> c_type ` set (upd_conditions upd)"
  shows "merge_status K later gen upd (merge_status K now gen upd st) = merge_status K now gen upd st"
  using kube_library.merge_status_idempotent [OF assms(1,2)] assms(3) by blast


end
