(* ===== verification/Observe.thy ===== *)
theory Observe
  imports Conditions
begin

text \<open>
  What the controller observes of NVIDIA's operator (\<open>gpu_controller.go\<close>): the state of the
  driver DaemonSets, the driver version in their images, and the ClusterPolicy. The counters
  of the DaemonSets are int32 and wrap around. The lemmas reduce the verdict to the single
  DaemonSets where the counters are as the DaemonSet controller keeps them.
\<close>

definition gpu_operator_namespace :: string where "gpu_operator_namespace = ''gpu-operator''"
definition driver_app_label :: string where "driver_app_label = ''nvidia-driver-daemonset''"
definition cluster_policy_name :: string where "cluster_policy_name = ''cluster-policy''"

definition cluster_policy_gvk :: gvk where
  "cluster_policy_gvk = \<lparr>gvk_group = ''nvidia.com'', gvk_version = ''v1'', gvk_kind = ''ClusterPolicy''\<rparr>"

section \<open>The driver version\<close>

definition driver_version_from_daemon_set :: "daemon_set \<Rightarrow> string" where
  "driver_version_from_daemon_set ds =
     (case ds_containers ds of
        [] \<Rightarrow> []
      | c # _ \<Rightarrow>
          let image = c_image c;
              idx = last_index image (CHR '':'')
          in if idx < 0 then []
             else let tag = drop (nat (idx + 1)) image in
               (case cut_str tag (CHR ''-'') of (before, after, found) \<Rightarrow>
                  if found then before else tag))"

section \<open>checkDriverDaemonSet\<close>

record totals =
  total_desired :: int32
  total_ready :: int32
  total_available :: int32
  total_updated :: int32

fun add_totals :: "daemon_set list \<Rightarrow> totals \<Rightarrow> totals" where
  "add_totals [] t = t"
| "add_totals (d # ds) t = add_totals ds
     \<lparr>total_desired = total_desired t + ds_desired d,
      total_ready = total_ready t + ds_ready d,
      total_available = total_available t + ds_available d,
      total_updated = total_updated t + ds_updated d\<rparr>"

definition sum_totals :: "daemon_set list \<Rightarrow> totals" where
  "sum_totals ds = add_totals ds
     \<lparr>total_desired = 0, total_ready = 0, total_available = 0, total_updated = 0\<rparr>"

fun agreed_version :: "string \<Rightarrow> daemon_set list \<Rightarrow> string" where
  "agreed_version v [] = v"
| "agreed_version v (d # ds) = (if driver_version_from_daemon_set d \<noteq> v then [] else agreed_version v ds)"

type_synonym observation = "string \<times> string \<times> string"

definition ratio :: "int32 \<Rightarrow> int32 \<Rightarrow> string" where
  "ratio a b = show_int32 a @ ''/'' @ show_int32 b"

definition observe_daemon_sets :: "daemon_set list \<Rightarrow> observation \<times> driver_status option" where
  "observe_daemon_sets items =
     (case items of
        [] \<Rightarrow> ((ConditionUnknown, reasonWaiting,
               ''nvidia-driver-daemonset not found; driver installation may still be in progress''),
              Some empty_driver_status)
      | first # rest \<Rightarrow>
          let t = sum_totals items;
              version = agreed_version (driver_version_from_daemon_set first) rest;
              driver_info = Some \<lparr>status_version = version, nodes_ready = total_ready t\<rparr>
          in if total_desired t = 0 then
               ((ConditionUnknown, reasonWaiting,
                 ''driver DaemonSet has no scheduled pods; no GPU nodes may be present''), driver_info)
             else if total_ready t <s total_desired t \<or> total_available t <s total_desired t
                     \<or> total_updated t <s total_desired t then
               ((ConditionUnknown, reasonProgressing,
                 ''driver DaemonSet: '' @ ratio (total_ready t) (total_desired t) @ '' nodes ready, ''
                 @ ratio (total_available t) (total_desired t) @ '' available, ''
                 @ ratio (total_updated t) (total_desired t) @ '' updated''), driver_info)
             else
               ((ConditionTrue, reasonReady,
                 ''driver DaemonSet: '' @ ratio (total_ready t) (total_desired t) @ '' nodes ready''), driver_info))"

definition check_driver_daemon_set :: "'w kube \<Rightarrow> ('w, observation \<times> driver_status option) kube_eff" where
  "check_driver_daemon_set K = do {
     r \<leftarrow> list_daemon_sets K gpu_operator_namespace [(''app'', driver_app_label)];
     case r of
       Inl e \<Rightarrow> State_Monad.return
         ((ConditionFalse, reasonReadError, ''error listing driver DaemonSets: '' @ err_text e),
          Some empty_driver_status)
     | Inr items \<Rightarrow> State_Monad.return (observe_daemon_sets items)
   }"

section \<open>checkClusterPolicy\<close>

definition observe_policy_state :: "(string \<Rightarrow> string) \<Rightarrow> string \<Rightarrow> observation" where
  "observe_policy_state unicode state =
     (if state = ''ready'' then
        (ConditionTrue, reasonReady, ''ClusterPolicy state is ready; NVIDIA validator passed'')
      else if state = ''notReady'' then
        (ConditionUnknown, reasonProgressing, ''ClusterPolicy state is notReady; NVIDIA validator has not passed yet'')
      else if state = ''ignored'' then
        (ConditionUnknown, reasonWaiting, ''ClusterPolicy state is ignored'')
      else
        (ConditionUnknown, reasonProgressing,
         ''ClusterPolicy state is '' @ quote_str unicode state @ ''; waiting for ready''))"

definition check_cluster_policy :: "'w kube \<Rightarrow> ('w, observation) kube_eff" where
  "check_cluster_policy K = do {
     r \<leftarrow> get_object K cluster_policy_gvk cluster_policy_name;
     case r of
       Inl e \<Rightarrow> State_Monad.return
         (if is_not_found K e
          then (ConditionUnknown, reasonWaiting, ''ClusterPolicy not found; GPU Operator may still be starting'')
          else (ConditionFalse, reasonReadError, ''error reading ClusterPolicy: '' @ err_text e))
     | Inr object \<Rightarrow> State_Monad.return
         (case nested_string K object [''status'', ''state''] of
            (state, found, e) \<Rightarrow> observe_policy_state (unicode_quote K) state)
   }"

section \<open>Lemmas: version\<close>

lemma driver_version_tagged:
  assumes "ds_containers d = c # cs" and "c_image c = repo @ '':'' @ tag" and "CHR '':'' \<notin> set tag"
  shows "driver_version_from_daemon_set d = fst (cut_str tag (CHR ''-''))"
proof -
  have "last_index (repo @ CHR '':'' # tag) (CHR '':'') = int (length repo)"
    using assms(3) by (rule last_index_append)
  then show ?thesis
    using assms(1,2) cut_str_absent [of "CHR ''-''" tag]
    by (cases "CHR ''-'' \<in> set tag")
       (auto simp: driver_version_from_daemon_set_def nat_add_distrib split: prod.splits
          dest!: split_list_first simp: cut_str_append)
qed

lemma agreed_version_eq:
  "agreed_version v ds = (if set (map driver_version_from_daemon_set ds) \<subseteq> {v} then v else [])"
  by (induction ds) auto

section \<open>Lemmas: counters\<close>

text \<open>The counters as the DaemonSet controller keeps them, and a DaemonSet that is rolled out.\<close>

definition counter_within :: "(daemon_set \<Rightarrow> int32) \<Rightarrow> daemon_set \<Rightarrow> bool" where
  "counter_within f d \<longleftrightarrow> 0 \<le> sint (f d) \<and> sint (f d) \<le> sint (ds_desired d)"

definition ds_sane :: "daemon_set \<Rightarrow> bool" where
  "ds_sane d \<longleftrightarrow> counter_within ds_ready d \<and> counter_within ds_available d \<and> counter_within ds_updated d"

definition ds_complete :: "daemon_set \<Rightarrow> bool" where
  "ds_complete d \<longleftrightarrow> ds_ready d = ds_desired d \<and> ds_available d = ds_desired d \<and> ds_updated d = ds_desired d"

definition sum_field :: "(daemon_set \<Rightarrow> int32) \<Rightarrow> daemon_set list \<Rightarrow> int" where
  "sum_field f ds = (\<Sum>d\<leftarrow>ds. sint (f d))"

lemma add_totals_eq:
  "add_totals ds t =
     \<lparr>total_desired = total_desired t + (\<Sum>d\<leftarrow>ds. ds_desired d),
      total_ready = total_ready t + (\<Sum>d\<leftarrow>ds. ds_ready d),
      total_available = total_available t + (\<Sum>d\<leftarrow>ds. ds_available d),
      total_updated = total_updated t + (\<Sum>d\<leftarrow>ds. ds_updated d)\<rparr>"
  by (induction ds arbitrary: t) (simp_all add: add.assoc)

lemma sum_totals_eq:
  "sum_totals ds =
     \<lparr>total_desired = (\<Sum>d\<leftarrow>ds. ds_desired d), total_ready = (\<Sum>d\<leftarrow>ds. ds_ready d),
      total_available = (\<Sum>d\<leftarrow>ds. ds_available d), total_updated = (\<Sum>d\<leftarrow>ds. ds_updated d)\<rparr>"
  by (simp add: sum_totals_def add_totals_eq)

lemma word_sum_of_int: "(\<Sum>d\<leftarrow>ds. f d) = (of_int (sum_field f ds) :: int32)"
  by (induction ds) (simp_all add: sum_field_def)

lemma sint_sum:
  assumes "0 \<le> sum_field f ds" and "sum_field f ds < 2 ^ 31"
  shows "sint (\<Sum>d\<leftarrow>ds. f d) = sum_field f ds"
  unfolding word_sum_of_int
  using assms by (simp add: signed_of_int signed_take_bit_int_eq_self)

lemma sum_field_bounds:
  assumes "list_all (counter_within f) ds"
  shows sum_field_nonneg: "0 \<le> sum_field f ds"
    and sum_field_le: "sum_field f ds \<le> sum_field ds_desired ds"
  using assms by (induction ds) (simp_all add: sum_field_def counter_within_def)

lemma sum_field_eq_iff:
  assumes "list_all (counter_within f) ds"
  shows "sum_field f ds = sum_field ds_desired ds \<longleftrightarrow> list_all (\<lambda>d. f d = ds_desired d) ds"
  using assms
proof (induction ds)
  case (Cons d ds)
  then have rest: "list_all (counter_within f) ds" and d: "sint (f d) \<le> sint (ds_desired d)"
    by (simp, simp add: counter_within_def)
  have "f d = ds_desired d \<longleftrightarrow> sint (f d) = sint (ds_desired d)"
    by (auto intro: signed_word_eqI)
  with d sum_field_le [OF rest] Cons.IH [OF rest] Cons.prems show ?case by (auto simp: sum_field_def)
qed (simp add: sum_field_def)

text \<open>Summed without overflow, a counter reaches the desired number iff it does in every DaemonSet.\<close>

lemma counter_short_iff:
  assumes "list_all (counter_within f) ds" and "sum_field ds_desired ds < 2 ^ 31"
  shows "(\<Sum>d\<leftarrow>ds. f d) <s (\<Sum>d\<leftarrow>ds. ds_desired d) \<longleftrightarrow> \<not> list_all (\<lambda>d. f d = ds_desired d) ds"
proof -
  note bounds = sum_field_nonneg [OF assms(1)] sum_field_le [OF assms(1)]
  have "sint (\<Sum>d\<leftarrow>ds. f d) = sum_field f ds" "sint (\<Sum>d\<leftarrow>ds. ds_desired d) = sum_field ds_desired ds"
    using bounds assms(2) by (simp_all add: sint_sum)
  with sum_field_eq_iff [OF assms(1)] bounds show ?thesis
    by (auto simp: word_sless_alt)
qed

lemma list_all_ds_sane:
  "list_all ds_sane ds \<longleftrightarrow> list_all (counter_within ds_ready) ds \<and>
     list_all (counter_within ds_available) ds \<and> list_all (counter_within ds_updated) ds"
  by (auto simp: list_all_iff ds_sane_def)

lemma desired_zero_iff:
  assumes "list_all (counter_within f) ds" and "sum_field ds_desired ds < 2 ^ 31"
  shows "(\<Sum>d\<leftarrow>ds. ds_desired d) = 0 \<longleftrightarrow> list_all (\<lambda>d. ds_desired d = 0) ds"
proof -
  have "0 \<le> sum_field ds_desired ds"
    using sum_field_nonneg [OF assms(1)] sum_field_le [OF assms(1)] by linarith
  then have "sint (\<Sum>d\<leftarrow>ds. ds_desired d) = sum_field ds_desired ds"
    using assms(2) by (rule sint_sum)
  then have "(\<Sum>d\<leftarrow>ds. ds_desired d) = 0 \<longleftrightarrow> sum_field ds_desired ds = 0"
    by (metis signed_0 signed_word_eqI)
  also have "\<dots> \<longleftrightarrow> list_all (\<lambda>d. ds_desired d = 0) ds"
    using assms(1)
  proof (induction ds)
    case (Cons d ds)
    then have rest: "list_all (counter_within f) ds" and d: "0 \<le> sint (ds_desired d)"
      by (simp, auto simp: counter_within_def)
    have "ds_desired d = 0 \<longleftrightarrow> sint (ds_desired d) = 0"
      by (metis signed_0 signed_word_eqI)
    with d sum_field_nonneg [OF rest] sum_field_le [OF rest] Cons.IH [OF rest] Cons.prems
    show ?case by (auto simp: sum_field_def)
  qed (simp add: sum_field_def)
  finally show ?thesis .
qed

lemma observed_ready_iff:
  assumes "list_all ds_sane items" and "sum_field ds_desired items < 2 ^ 31"
  shows "fst (fst (observe_daemon_sets items)) = ConditionTrue \<longleftrightarrow>
    list_all ds_complete items \<and> \<not> list_all (\<lambda>d. ds_desired d = 0) items"
proof (cases items)
  case Nil
  then show ?thesis by (simp add: observe_daemon_sets_def)
next
  case (Cons d ds)
  have sane: "list_all (counter_within ds_ready) items" "list_all (counter_within ds_available) items"
    "list_all (counter_within ds_updated) items"
    using assms(1) by (simp_all add: list_all_ds_sane)
  have complete: "list_all ds_complete items \<longleftrightarrow> list_all (\<lambda>d. ds_ready d = ds_desired d) items \<and>
      list_all (\<lambda>d. ds_available d = ds_desired d) items \<and> list_all (\<lambda>d. ds_updated d = ds_desired d) items"
    by (auto simp: list_all_iff ds_complete_def)
  have "fst (fst (observe_daemon_sets items)) = ConditionTrue \<longleftrightarrow>
    total_desired (sum_totals items) \<noteq> 0 \<and>
    \<not> (total_ready (sum_totals items) <s total_desired (sum_totals items) \<or>
       total_available (sum_totals items) <s total_desired (sum_totals items) \<or>
       total_updated (sum_totals items) <s total_desired (sum_totals items))"
    by (simp add: Cons observe_daemon_sets_def Let_def)
  then show ?thesis
    by (simp only: sum_totals_eq totals.select_convs counter_short_iff [OF sane(1) assms(2)]
        counter_short_iff [OF sane(2) assms(2)] counter_short_iff [OF sane(3) assms(2)]
        desired_zero_iff [OF sane(1) assms(2)] complete) blast
qed

section \<open>Properties\<close>

text \<open>C17: DriverReady is True exactly when every driver DaemonSet is complete (all scheduled pods
  ready, available and updated) and some pod is scheduled, for DaemonSets whose counters are
  between 0 and the desired number and whose desired numbers do not overflow an int32 when
  added up. A node of any kernel version that is not ready keeps the condition from being
  True.\<close>

theorem driver_ready_iff:
  assumes "list_all ds_sane items" and "sum_field ds_desired items < 2 ^ 31"
  shows "fst (fst (observe_daemon_sets items)) = ConditionTrue \<longleftrightarrow>
    list_all ds_complete items \<and> \<not> list_all (\<lambda>d. ds_desired d = 0) items"
  by (rule observed_ready_iff [OF assms])

theorem driver_ready_iff_witness:
  "fst (fst (observe_daemon_sets
     [\<lparr>ds_namespace = ''gpu-operator'', ds_labels = Map.empty, ds_desired = 2, ds_ready = 2, ds_available = 2,
        ds_updated = 2, ds_containers = []\<rparr>,
      \<lparr>ds_namespace = ''gpu-operator'', ds_labels = Map.empty, ds_desired = 1, ds_ready = 0, ds_available = 0,
        ds_updated = 1, ds_containers = []\<rparr>])) \<noteq> ConditionTrue"
  by (subst driver_ready_iff) (simp_all add: ds_sane_def counter_within_def sum_field_def ds_complete_def)

text \<open>C38: The version read from an image \<open>repo:version-os\<close> is its version, whatever colons and
  dashes the repository has, provided the tag has no further colon.\<close>

theorem driver_version_of_image:
  assumes "ds_containers d = c # cs" and "c_image c = repo @ '':'' @ version @ ''-'' @ os"
    and "CHR '':'' \<notin> set version" and "CHR '':'' \<notin> set os" and "CHR ''-'' \<notin> set version"
  shows "driver_version_from_daemon_set d = version"
  using driver_version_tagged [of d c cs repo "version @ ''-'' @ os"] assms
  by (simp add: cut_str_append)

theorem driver_version_of_image_witness:
  "driver_version_from_daemon_set
     \<lparr>ds_namespace = ''gpu-operator'', ds_labels = Map.empty, ds_desired = 1, ds_ready = 1, ds_available = 1,
      ds_updated = 1, ds_containers =
        [\<lparr>c_image = ''registry:5000/nvidia/driver:535.129.03-ubuntu22.04'', c_limits = []\<rparr>]\<rparr>
   = ''535.129.03''"
  by (rule driver_version_of_image [where cs = "[]" and repo = "''registry:5000/nvidia/driver''" and os = "''ubuntu22.04''"
        and c = "\<lparr>c_image = ''registry:5000/nvidia/driver:535.129.03-ubuntu22.04'', c_limits = []\<rparr>"])
     simp_all

text \<open>A version is reported only when the images of all driver DaemonSets agree on it: with
  at least one DaemonSet the reported version is theirs if all have the same, and empty
  otherwise; the number of ready nodes is the int32 sum over all of them.\<close>

theorem driver_status_reported:
  "snd (observe_daemon_sets (d # ds)) = Some
     \<lparr>status_version =
        (if set (map driver_version_from_daemon_set ds) \<subseteq> {driver_version_from_daemon_set d}
         then driver_version_from_daemon_set d else []),
      nodes_ready = (\<Sum>d \<leftarrow> d # ds. ds_ready d)\<rparr>"
  by (simp add: observe_daemon_sets_def Let_def agreed_version_eq sum_totals_eq)

section \<open>Images without a tag\<close>

text \<open>An image without a tag on a registry with a port: what follows the port's colon is taken for
  the tag. A digest is cut likewise.\<close>

lemma driver_version_untagged_port:
  "driver_version_from_daemon_set
     \<lparr>ds_namespace = ''gpu-operator'', ds_labels = Map.empty, ds_desired = 1, ds_ready = 1, ds_available = 1,
      ds_updated = 1, ds_containers = [\<lparr>c_image = ''registry:5000/nvidia/driver'', c_limits = []\<rparr>]\<rparr>
   = ''5000/nvidia/driver''"
  by code_simp

end
