(* ===== verification/Workloads.thy ===== *)
theory Workloads
  imports Observe Detection
begin

text \<open>
  The workload guard of \<open>gpu_controller.go\<close>: which pods outside the operator's namespace use
  a GPU and block the deletion of the Gpu resource.
\<close>

definition gpu_resource_prefixes :: "string list" where
  "gpu_resource_prefixes = [''nvidia.com/gpu'']"

text \<open>
  The three nested loops of \<open>podRequestsGPU\<close>; the range over the limits visits the keys in
  the order of the list.
\<close>

definition pod_requests_gpu :: "pod \<Rightarrow> bool" where
  "pod_requests_gpu p =
     list_ex (\<lambda>containers.
       list_ex (\<lambda>c.
         list_ex (\<lambda>(name, quantity).
           list_ex (\<lambda>prefix. has_prefix name prefix) gpu_resource_prefixes) (c_limits c)) containers)
       [pod_containers p, pod_init_containers p]"

definition namespaced_name :: "pod \<Rightarrow> string" where
  "namespaced_name p = pod_namespace p @ ''/'' @ pod_name p"

fun active_workloads :: "pod list \<Rightarrow> string list" where
  "active_workloads [] = []"
| "active_workloads (p # ps) =
     (if pod_namespace p = gpu_operator_namespace then active_workloads ps
      else if pod_deletion p \<noteq> None then active_workloads ps
      else if pod_phase p \<noteq> PodRunning \<and> pod_phase p \<noteq> PodPending then active_workloads ps
      else if pod_requests_gpu p then namespaced_name p # active_workloads ps
      else active_workloads ps)"

definition detect_active_gpu_workloads :: "'w kube \<Rightarrow> ('w, err + string list) kube_eff" where
  "detect_active_gpu_workloads K = do {
     r \<leftarrow> list_pods K;
     case r of
       Inl e \<Rightarrow> State_Monad.return (Inl (Wrap_Err ''listing pods'' e))
     | Inr pods \<Rightarrow> State_Monad.return (Inr (active_workloads pods))
   }"

section \<open>Lemmas\<close>

lemma pod_requests_gpu_iff:
  "pod_requests_gpu p \<longleftrightarrow>
     (\<exists>c \<in> set (pod_containers p) \<union> set (pod_init_containers p).
        \<exists>name \<in> fst ` set (c_limits c). has_prefix name ''nvidia.com/gpu'')"
  by (auto simp: pod_requests_gpu_def gpu_resource_prefixes_def list_ex_iff case_prod_beta)

definition blocks_deletion :: "pod \<Rightarrow> bool" where
  "blocks_deletion p \<longleftrightarrow>
     pod_namespace p \<noteq> gpu_operator_namespace \<and> pod_deletion p = None \<and>
     pod_phase p \<in> {PodRunning, PodPending} \<and> pod_requests_gpu p"

lemma active_workloads_filter:
  "active_workloads ps = map namespaced_name (filter blocks_deletion ps)"
  by (induction ps) (auto simp: blocks_deletion_def)

lemma active_workloads_empty_iff: "active_workloads ps = [] \<longleftrightarrow> \<not> list_ex blocks_deletion ps"
  by (induction ps) (auto simp: blocks_deletion_def)

section \<open>Properties\<close>

text \<open>C21: The workload guard reports exactly the pods outside the operator's namespace that are
  Running or Pending, not already being deleted, and have a container or init container with a
  limit on a resource whose name starts with \<open>nvidia.com/gpu\<close>; each by namespace and name, in
  the order listed.\<close>

theorem workload_guard:
  "active_workloads ps = map namespaced_name
     (filter (\<lambda>p. pod_namespace p \<noteq> ''gpu-operator'' \<and> pod_deletion p = None \<and>
        (pod_phase p = ''Running'' \<or> pod_phase p = ''Pending'') \<and>
        (\<exists>c \<in> set (pod_containers p) \<union> set (pod_init_containers p).
           \<exists>name \<in> fst ` set (c_limits c). prefix ''nvidia.com/gpu'' name)) ps)"
  by (simp add: active_workloads_filter blocks_deletion_def [abs_def] pod_requests_gpu_iff has_prefix_iff
      gpu_operator_namespace_def)

end
