(* ===== verification/Reconcile.thy ===== *)
theory Reconcile
  imports Values Status Workloads
begin

text \<open>
  The controller itself (\<open>internal/controller/gpu_controller.go\<close>): one reconciliation of a Gpu
  resource, with the preflight check, the installation, the observation of NVIDIA's operator
  and the deletion. Everything it calls outside is in the reconciler record. The rules at the
  end describe what each step does to the log, whatever the cluster answers.
\<close>

section \<open>The reconciler\<close>

record ('w, 'v) reconciler =
  r_kube :: "'w kube"
  r_installer :: "'w installer"
  r_assets :: "'v assets"
  r_yaml :: yaml

text \<open>\<open>ctrl.Result\<close>, its duration in nanoseconds, and what \<open>Reconcile\<close> returns.\<close>

record ctrl_result =
  requeue_after :: int

type_synonym reconcile_return = "ctrl_result \<times> err option"

definition second :: int where "second = 10 ^ 9"
definition requeue_warn :: int where "requeue_warn = 30 * second"
definition gpu_finalizer :: string where "gpu_finalizer = ''gpu.kyma-project.io/gpu-operator''"
definition expected_cr_name :: string where "expected_cr_name = ''gpu''"

definition no_result :: ctrl_result where "no_result = \<lparr>requeue_after = 0\<rparr>"
definition requeue_later :: ctrl_result where "requeue_later = \<lparr>requeue_after = requeue_warn\<rparr>"

text \<open>\<open>(*metav1.Time).IsZero\<close>: a nil pointer or the zero time.\<close>

definition is_zero_time :: "time option \<Rightarrow> bool" where
  "is_zero_time t = (case t of None \<Rightarrow> True | Some n \<Rightarrow> n = 0)"

section \<open>Preflight and installation\<close>

definition preflight_passed :: "os_type \<Rightarrow> condition" where
  "preflight_passed os =
     new_condition condPreflight ConditionTrue reasonPassed (''all GPU nodes are running '' @ os)"

definition reconciler_run_preflight ::
  "('w, 'v) reconciler \<Rightarrow> gpu \<Rightarrow> ('w, condition option \<times> os_type \<times> ctrl_result \<times> err option) kube_eff" where
  "reconciler_run_preflight R g = do {
     pre \<leftarrow> run_preflight (r_kube R);
     case pre of
       Inl e \<Rightarrow> State_Monad.return (None, OSTypeUnknown, no_result, Some (Wrap_Err ''running preflight'' e))
     | Inr p \<Rightarrow>
         (case pre_outcome p of
            OutcomeWarn \<Rightarrow> do {
              e \<leftarrow> apply_status (r_kube R) (gpu_name g) (only_conditions
                [new_condition condPreflight ConditionUnknown reasonWaiting (pre_reason p)]);
              State_Monad.return (case e of
                Some x \<Rightarrow> (None, OSTypeUnknown, no_result, Some x)
              | None \<Rightarrow> (None, OSTypeUnknown, requeue_later, None))
            }
          | OutcomeError \<Rightarrow> do {
              e \<leftarrow> apply_status (r_kube R) (gpu_name g) (only_conditions
                [new_condition condPreflight ConditionFalse reasonFailed (pre_reason p)]);
              State_Monad.return (case e of
                Some x \<Rightarrow> (None, OSTypeUnknown, no_result, Some x)
              | None \<Rightarrow> (None, OSTypeUnknown, no_result, None))
            }
          | OutcomeProceed \<Rightarrow>
              State_Monad.return (Some (preflight_passed (pre_os p)), pre_os p, no_result, None))
   }"

definition helm_installed :: "string \<Rightarrow> condition" where
  "helm_installed version = new_condition condHelmInstalled ConditionTrue reasonInstalled
     (''GPU Operator '' @ version @ '' installed successfully'')"

definition helm_failed :: "err \<Rightarrow> condition" where
  "helm_failed e = new_condition condHelmInstalled ConditionFalse reasonFailed (err_text e)"

definition reconciler_install_or_upgrade ::
  "('w, 'v) reconciler \<Rightarrow> gpu \<Rightarrow> condition \<Rightarrow> os_type \<Rightarrow> ('w, (err + condition \<times> string) run) kube_eff" where
  "reconciler_install_or_upgrade R g preflight_cond os =
     (case gpu_operator_chart (r_assets R) of
        Inl e \<Rightarrow> State_Monad.return (Done (Inl (Wrap_Err ''loading embedded chart'' e)))
      | Inr chart_data \<Rightarrow>
          (case build_values (r_assets R) (r_yaml R) (gpu_spec_of g) \<lparr>cluster_os = os\<rparr> of
             Panic p \<Rightarrow> State_Monad.return (Panic p)
           | Done (Inl e) \<Rightarrow> State_Monad.return (Done (Inl (Wrap_Err ''building helm values'' e)))
           | Done (Inr vals) \<Rightarrow> do {
               r \<leftarrow> install_or_upgrade (r_installer R) chart_data vals;
               case r of
                 Panic p \<Rightarrow> State_Monad.return (Panic p)
               | Done (Inl e) \<Rightarrow> do {
                   status_err \<leftarrow> apply_status (r_kube R) (gpu_name g)
                     (only_conditions [preflight_cond, helm_failed e]);
                   State_Monad.return (Done (Inl (Wrap_Err ''helm install/upgrade'' e)))
                 }
               | Done (Inr changed) \<Rightarrow>
                   State_Monad.return
                     (case gpu_operator_chart_version (r_assets R) of
                        Inl e \<Rightarrow> Done (Inl (Wrap_Err ''reading chart version'' e))
                      | Inr version \<Rightarrow> Done (Inr (helm_installed version, version)))
             }))"

section \<open>Deletion\<close>

definition delete_namespace :: "'w kube \<Rightarrow> string \<Rightarrow> ('w, err option) kube_eff" where
  "delete_namespace K name = do {
     e \<leftarrow> delete_object_namespace K name ''Foreground'';
     State_Monad.return (case e of
       None \<Rightarrow> None
     | Some x \<Rightarrow> if is_not_found K x then None else Some (Wrap_Err (''deleting namespace '' @ name) x))
   }"

text \<open>\<open>controllerutil.AddFinalizer\<close> and \<open>RemoveFinalizer\<close> on the object.\<close>

definition with_finalizer :: "'w kube \<Rightarrow> gpu \<Rightarrow> gpu" where
  "with_finalizer K g = g\<lparr>finalizers := add_finalizer K (finalizers g) gpu_finalizer\<rparr>"

definition without_finalizer :: "'w kube \<Rightarrow> gpu \<Rightarrow> gpu" where
  "without_finalizer K g = g\<lparr>finalizers := remove_finalizer K (finalizers g) gpu_finalizer\<rparr>"

definition has_finalizer :: "'w kube \<Rightarrow> gpu \<Rightarrow> bool" where
  "has_finalizer K g = contains_finalizer K (finalizers g) gpu_finalizer"

definition release_finalizer :: "'w kube \<Rightarrow> string \<Rightarrow> ('w, reconcile_return) kube_eff" where
  "release_finalizer K name = do {
     r \<leftarrow> get_gpu K name;
     case r of
       Inl e \<Rightarrow> State_Monad.return (no_result,
         if is_not_found K e then None
         else Some (Wrap_Err ''re-fetching Gpu CR for finalizer removal'' e))
     | Inr live \<Rightarrow> do {
         e \<leftarrow> update_gpu K (without_finalizer K live);
         State_Monad.return (no_result, map_option (Wrap_Err ''removing finalizer'') e)
       }
   }"

definition uninstalling :: condition where
  "uninstalling =
     new_condition condHelmInstalled ConditionUnknown reasonUninstalling ''uninstalling GPU Operator''"

definition deletion_blocked :: "string list \<Rightarrow> condition" where
  "deletion_blocked active =
     new_condition condWorkloadProtection ConditionFalse reasonActiveWorkloads
       (''deletion blocked: '' @ show_nat (length active) @ '' pod(s) are actively using GPU resources: ''
        @ show_strings active
        @ ''; delete or wait for these workloads to complete before removing GPU support'')"

definition finish_delete :: "('w, 'v) reconciler \<Rightarrow> gpu \<Rightarrow> ('w, reconcile_return run) kube_eff" where
  "finish_delete R g = do {
     r \<leftarrow> uninstall (r_installer R);
     case r of
       Panic p \<Rightarrow> State_Monad.return (Panic p)
     | Done (Some e) \<Rightarrow> State_Monad.return (Done (no_result, Some (Wrap_Err ''helm uninstall'' e)))
     | Done None \<Rightarrow> do {
         d \<leftarrow> delete_namespace (r_kube R) gpu_operator_namespace;
         case d of
           Some e \<Rightarrow> State_Monad.return (Done (no_result, Some e))
         | None \<Rightarrow> do {
             res \<leftarrow> release_finalizer (r_kube R) (gpu_name g);
             State_Monad.return (Done res)
           }
       }
   }"

definition reconcile_delete :: "('w, 'v) reconciler \<Rightarrow> gpu \<Rightarrow> ('w, reconcile_return run) kube_eff" where
  "reconcile_delete R g =
     (let K = r_kube R in
      if \<not> has_finalizer K g then State_Monad.return (Done (no_result, None))
      else if gpu_name g \<noteq> expected_cr_name then do {
        e \<leftarrow> update_gpu K (without_finalizer K g);
        State_Monad.return (Done (no_result, map_option (Wrap_Err ''removing finalizer from rogue CR'') e))
      }
      else do {
        status_err \<leftarrow> apply_status K (gpu_name g) (only_conditions [uninstalling]);
        r \<leftarrow> detect_active_gpu_workloads K;
        case r of
          Inl e \<Rightarrow> finish_delete R g
        | Inr active \<Rightarrow>
            if 0 < length active then do {
              status_err \<leftarrow> apply_status K (gpu_name g) (only_conditions [deletion_blocked active]);
              State_Monad.return (Done (requeue_later, None))
            }
            else finish_delete R g
      })"

section \<open>Reconcile\<close>

definition forbidden_name :: "'w kube \<Rightarrow> condition" where
  "forbidden_name K =
     new_condition condReady ConditionFalse reasonForbiddenName
       (''only a singleton Gpu CR named '' @ quote_str (unicode_quote K) expected_cr_name
        @ '' is reconciled; this CR is ignored'')"

definition observation_condition :: "string \<Rightarrow> observation \<Rightarrow> condition" where
  "observation_condition t obs = (case obs of (status, reason, message) \<Rightarrow> new_condition t status reason message)"

definition full_update ::
  "condition \<Rightarrow> condition \<Rightarrow> observation \<Rightarrow> observation \<Rightarrow> string \<Rightarrow> driver_status option \<Rightarrow> status_update" where
  "full_update preflight_cond helm_cond driver_obs validator_obs version driver_info =
     \<lparr>upd_conditions = [preflight_cond, helm_cond,
        observation_condition condDriverReady driver_obs,
        observation_condition condValidatorPassed validator_obs],
      upd_include_ready = True, upd_operator_version = version, upd_driver = driver_info\<rparr>"

definition observe_and_report ::
  "('w, 'v) reconciler \<Rightarrow> gpu \<Rightarrow> condition \<Rightarrow> condition \<Rightarrow> string \<Rightarrow> ('w, reconcile_return) kube_eff" where
  "observe_and_report R g preflight_cond helm_cond version = do {
     d \<leftarrow> check_driver_daemon_set (r_kube R);
     v \<leftarrow> check_cluster_policy (r_kube R);
     e \<leftarrow> apply_status (r_kube R) (gpu_name g) (full_update preflight_cond helm_cond (fst d) v version (snd d));
     State_Monad.return (case e of Some x \<Rightarrow> (no_result, Some x) | None \<Rightarrow> (requeue_later, None))
   }"

definition reconcile_installed :: "('w, 'v) reconciler \<Rightarrow> gpu \<Rightarrow> ('w, reconcile_return run) kube_eff" where
  "reconcile_installed R g = do {
     p \<leftarrow> reconciler_run_preflight R g;
     case p of (preflight_cond, os, result, e) \<Rightarrow>
       (case preflight_cond of
          None \<Rightarrow> State_Monad.return (Done (result, e))
        | Some pc \<Rightarrow>
            if e \<noteq> None then State_Monad.return (Done (result, e))
            else do {
              h \<leftarrow> reconciler_install_or_upgrade R g pc os;
              case h of
                Panic m \<Rightarrow> State_Monad.return (Panic m)
              | Done (Inl x) \<Rightarrow> State_Monad.return (Done (no_result, Some x))
              | Done (Inr (hc, version)) \<Rightarrow> do {
                  res \<leftarrow> observe_and_report R g pc hc version;
                  State_Monad.return (Done res)
                }
            })
   }"

definition reconcile :: "('w, 'v) reconciler \<Rightarrow> string \<Rightarrow> ('w, reconcile_return run) kube_eff" where
  "reconcile R req = do {
     let K = r_kube R;
     r \<leftarrow> get_gpu K req;
     case r of
       Inl e \<Rightarrow> State_Monad.return (Done (no_result,
         if is_not_found K e then None else Some (Wrap_Err ''fetching Gpu CR'' e)))
     | Inr g \<Rightarrow>
         if \<not> is_zero_time (deletion_timestamp g) then reconcile_delete R g
         else if gpu_name g \<noteq> expected_cr_name then do {
           e \<leftarrow> apply_status K (gpu_name g) (only_conditions [forbidden_name K]);
           State_Monad.return (Done (no_result, e))
         }
         else if \<not> has_finalizer K g then do {
           e \<leftarrow> update_gpu K (with_finalizer K g);
           State_Monad.return (Done (no_result, map_option (Wrap_Err ''adding finalizer'') e))
         }
         else reconcile_installed R g
   }"

end
