(* ===== verification/Watches.thy ===== *)
theory Watches
  imports Detection Observe
begin

text \<open>
  What triggers a reconciliation (\<open>SetupWithManager\<close>, \<open>gpuNodeChangedPredicate\<close> and
  \<open>driverDaemonSetPredicate\<close> of \<open>gpu_controller.go\<close>): events of the Gpu resources, of the
  nodes that pass the first predicate and of the DaemonSets that pass the second. The lemmas
  relate the predicates to what a reconciliation reads: an event that is filtered out cannot
  change its outcome.
\<close>

section \<open>Events\<close>

text \<open>An object of the API as a predicate sees it; any other kind has a namespace and labels.\<close>

datatype kobject =
    Node_Object node
  | Daemon_Set_Object daemon_set
  | Other_Object string "string \<rightharpoonup> string"

fun get_labels :: "kobject \<Rightarrow> string \<rightharpoonup> string" where
  "get_labels (Node_Object n) = node_labels n"
| "get_labels (Daemon_Set_Object d) = ds_labels d"
| "get_labels (Other_Object ns l) = l"

fun get_namespace :: "kobject \<Rightarrow> string" where
  "get_namespace (Node_Object n) = []"
| "get_namespace (Daemon_Set_Object d) = ds_namespace d"
| "get_namespace (Other_Object ns l) = ns"

datatype watch_event =
    Create_Event kobject
  | Update_Event kobject kobject
  | Delete_Event kobject
  | Generic_Event kobject

section \<open>The predicates\<close>

definition node_update_relevant :: "kobject \<Rightarrow> kobject \<Rightarrow> bool" where
  "node_update_relevant old_object new_object =
     (case (old_object, new_object) of
        (Node_Object old, Node_Object new) \<Rightarrow>
          let was_gpu = is_gpu_node (node_labels old);
              is_gpu = is_gpu_node (node_labels new)
          in if \<not> was_gpu \<and> \<not> is_gpu then False
             else if was_gpu \<noteq> is_gpu then True
             else os_image old \<noteq> os_image new
      | _ \<Rightarrow> False)"

fun gpu_node_changed_predicate :: "watch_event \<Rightarrow> bool" where
  "gpu_node_changed_predicate (Create_Event ob) = is_gpu_node (get_labels ob)"
| "gpu_node_changed_predicate (Delete_Event ob) = is_gpu_node (get_labels ob)"
| "gpu_node_changed_predicate (Update_Event old new) = node_update_relevant old new"
| "gpu_node_changed_predicate (Generic_Event ob) = False"

text \<open>\<open>m[k]\<close> of a map of strings: the empty string when the key is absent.\<close>

definition label_value :: "(string \<rightharpoonup> string) \<Rightarrow> string \<Rightarrow> string" where
  "label_value labels k = (case labels k of None \<Rightarrow> [] | Some v \<Rightarrow> v)"

definition is_driver_daemon_set :: "kobject \<Rightarrow> bool" where
  "is_driver_daemon_set ob \<longleftrightarrow>
     get_namespace ob = gpu_operator_namespace \<and> label_value (get_labels ob) ''app'' = driver_app_label"

text \<open>\<open>predicate.NewPredicateFuncs\<close> asks the filter about the (new) object of every event.\<close>

fun driver_daemon_set_predicate :: "watch_event \<Rightarrow> bool" where
  "driver_daemon_set_predicate (Create_Event ob) = is_driver_daemon_set ob"
| "driver_daemon_set_predicate (Delete_Event ob) = is_driver_daemon_set ob"
| "driver_daemon_set_predicate (Update_Event old new) = is_driver_daemon_set new"
| "driver_daemon_set_predicate (Generic_Event ob) = is_driver_daemon_set ob"

section \<open>SetupWithManager\<close>

text \<open>The map function: one request per Gpu resource, none when they cannot be listed.\<close>

definition enqueue_gpu :: "'w kube \<Rightarrow> ('w, string list) kube_eff" where
  "enqueue_gpu K = do {
     r \<leftarrow> list_gpus K;
     case r of
       Inl e \<Rightarrow> State_Monad.return []
     | Inr items \<Rightarrow> State_Monad.return (map gpu_name items)
   }"

text \<open>The three registrations: which requests an event of each watched kind enqueues.\<close>

datatype watched = Gpu_Changed string | Node_Watch watch_event | Daemon_Set_Watch watch_event

fun setup_with_manager :: "'w kube \<Rightarrow> watched \<Rightarrow> ('w, string list) kube_eff" where
  "setup_with_manager K (Gpu_Changed name) = State_Monad.return [name]"
| "setup_with_manager K (Node_Watch ev) =
     (if gpu_node_changed_predicate ev then enqueue_gpu K else State_Monad.return [])"
| "setup_with_manager K (Daemon_Set_Watch ev) =
     (if driver_daemon_set_predicate ev then enqueue_gpu K else State_Monad.return [])"

section \<open>Lemmas\<close>

text \<open>An event happens to a list of nodes: one appears, disappears or is replaced.\<close>

inductive node_event :: "node list \<Rightarrow> watch_event \<Rightarrow> node list \<Rightarrow> bool" where
  created: "node_event (xs @ ys) (Create_Event (Node_Object n)) (xs @ n # ys)"
| deleted: "node_event (xs @ n # ys) (Delete_Event (Node_Object n)) (xs @ ys)"
| updated: "node_name m = node_name n \<Longrightarrow>
    node_event (xs @ m # ys) (Update_Event (Node_Object m) (Node_Object n)) (xs @ n # ys)"

lemma filter_gpu_nodes_append [simp]:
  "filter_gpu_nodes (xs @ ys) = filter_gpu_nodes xs @ filter_gpu_nodes ys"
  "filter_gpu_nodes (n # ys) = (if is_gpu_node (node_labels n) then n # filter_gpu_nodes ys else filter_gpu_nodes ys)"
  by (simp_all add: filter_gpu_nodes_def)

lemma scan_nodes_append:
  "scan_nodes u (xs @ ys) uns os = (case scan_nodes u xs uns os of (uns', os') \<Rightarrow> scan_nodes u ys uns' os')"
  by (induction xs arbitrary: uns os) (auto split: prod.splits)

lemma scan_nodes_replace:
  assumes "node_name m = node_name n" and "os_image m = os_image n"
  shows "scan_nodes u (xs @ m # ys) uns os = scan_nodes u (xs @ n # ys) uns os"
  using assms detect_cong [OF assms(2), of u] by (simp add: scan_nodes_append split: prod.splits)

lemma preflight_filter_cong:
  "filter_gpu_nodes xs = filter_gpu_nodes ys \<Longrightarrow> preflight_nodes u xs = preflight_nodes u ys"
  by (simp add: preflight_nodes_def)

lemma preflight_replace:
  assumes "node_name m = node_name n" and "os_image m = os_image n"
    and "is_gpu_node (node_labels m) = is_gpu_node (node_labels n)"
  shows "preflight_nodes u (xs @ m # ys) = preflight_nodes u (xs @ n # ys)"
  using assms by (simp add: preflight_nodes_def scan_nodes_replace [OF assms(1,2)])

lemma filtered_node_event:
  assumes "node_event items ev items'" and "\<not> gpu_node_changed_predicate ev"
  shows "preflight_nodes u items' = preflight_nodes u items"
  using assms
proof (cases rule: node_event.cases)
  case (updated m n xs ys)
  show ?thesis
  proof (cases "is_gpu_node (node_labels m)")
    case True
    with updated assms(2) show ?thesis
      by (auto simp: node_update_relevant_def Let_def intro!: preflight_replace split: if_splits)
  next
    case False
    with updated assms(2) show ?thesis
      by (auto simp: node_update_relevant_def Let_def intro!: preflight_filter_cong)
  qed
qed (auto intro!: preflight_filter_cong)

text \<open>What the list request of \<open>checkDriverDaemonSet\<close> selects (namespace and label selector).\<close>

definition selects :: "string \<Rightarrow> (string \<times> string) list \<Rightarrow> daemon_set \<Rightarrow> bool" where
  "selects ns labels d \<longleftrightarrow> ds_namespace d = ns \<and> list_all (\<lambda>(k, v). ds_labels d k = Some v) labels"

lemma driver_daemon_set_selected:
  "is_driver_daemon_set (Daemon_Set_Object d) \<longleftrightarrow>
     selects gpu_operator_namespace [(''app'', driver_app_label)] d"
  by (auto simp: is_driver_daemon_set_def selects_def label_value_def driver_app_label_def split: option.splits)

section \<open>Properties\<close>

text \<open>C18: An event of a node that the predicate filters out (a kubelet heartbeat, a node without
  GPU) cannot change the result of the preflight check: outcome, reason and system are the same
  before and after it. So no change that matters is lost by filtering.\<close>

theorem filtered_event_irrelevant:
  assumes "node_event items ev items'" and "\<not> gpu_node_changed_predicate ev"
  shows "preflight_nodes u items' = preflight_nodes u items"
  using assms by (rule filtered_node_event)

theorem filtered_event_irrelevant_witness:
  "(let n = \<lparr>node_name = ''a'', node_labels = [''node.kubernetes.io/instance-type'' \<mapsto> ''g4dn.xlarge''], os_image = ''Ubuntu 22.04''\<rparr>;
        m = \<lparr>node_name = ''a'', node_labels = [''node.kubernetes.io/instance-type'' \<mapsto> ''g6.xlarge''], os_image = ''Ubuntu 22.04''\<rparr>
    in preflight_nodes id [m] = preflight_nodes id [n])"
  unfolding Let_def
  by (rule filtered_event_irrelevant [where ev = "Update_Event
        (Node_Object \<lparr>node_name = ''a'', node_labels = [''node.kubernetes.io/instance-type'' \<mapsto> ''g4dn.xlarge''], os_image = ''Ubuntu 22.04''\<rparr>)
        (Node_Object \<lparr>node_name = ''a'', node_labels = [''node.kubernetes.io/instance-type'' \<mapsto> ''g6.xlarge''], os_image = ''Ubuntu 22.04''\<rparr>)"],
      rule node_event.updated [of _ _ "[]" "[]", simplified])
     (simp_all add: node_update_relevant_def is_gpu_node_def instance_type_label_def instance_type_prefixes_def
       has_prefix_def)

text \<open>The watch on DaemonSets fires for exactly those that the status check lists: a
  DaemonSet passes the predicate iff it is in the namespace and has the label that
  \<open>checkDriverDaemonSet\<close> asks the API server for.\<close>

theorem watched_daemon_sets:
  "(driver_daemon_set_predicate (Create_Event (Daemon_Set_Object d)) \<longleftrightarrow>
      selects gpu_operator_namespace [(''app'', driver_app_label)] d) \<and>
   (driver_daemon_set_predicate (Update_Event old (Daemon_Set_Object d)) \<longleftrightarrow>
      selects gpu_operator_namespace [(''app'', driver_app_label)] d) \<and>
   (driver_daemon_set_predicate (Delete_Event (Daemon_Set_Object d)) \<longleftrightarrow>
      selects gpu_operator_namespace [(''app'', driver_app_label)] d)"
  by (simp add: driver_daemon_set_selected)

end
