(* ===== verification/Reference_Cluster.thy ===== *)
theory Reference_Cluster
  imports Reconcile Watches
begin

text \<open>
  A small executable cluster: an API server that keeps its objects in a record, an installer
  that keeps one release, a YAML parser that reads one document and embedded files with two
  chart archives. It satisfies the documented behaviour the theorems rely on
  (\<open>kube_library\<close>, \<open>slice_sorter\<close>), so none of them is vacuous, and the witnesses run on it.
\<close>

section \<open>The API server\<close>

record cluster =
  cl_gpu :: "gpu option"
  cl_nodes :: "node list"
  cl_pods :: "pod list"
  cl_daemon_sets :: "daemon_set list"
  cl_policy :: "any option"
  cl_namespace :: bool
  cl_release :: "(string \<times> gomap) option"
  cl_now :: nat

definition not_found :: err where "not_found = Lib_Err ''NotFound'' ''not found''"

fun ref_nested_string :: "any \<Rightarrow> string list \<Rightarrow> string \<times> bool \<times> err option" where
  "ref_nested_string (Any_Str s) [] = (s, True, None)"
| "ref_nested_string v [] = ([], False, Some (Lib_Err ''Type'' ''not a string''))"
| "ref_nested_string (Any_Map kv) (k # ks) =
     (case map_of kv k of None \<Rightarrow> ([], False, None) | Some v \<Rightarrow> ref_nested_string v ks)"
| "ref_nested_string v (k # ks) = ([], False, Some (Lib_Err ''Type'' ''not a map''))"

definition ref_get_gpu :: "string \<Rightarrow> cluster \<Rightarrow> (err + gpu) \<times> cluster" where
  "ref_get_gpu name c =
     ((case cl_gpu c of None \<Rightarrow> Inl not_found
       | Some g \<Rightarrow> if gpu_name g = name then Inr g else Inl not_found), c)"

text \<open>
  An update of an object under deletion that removes its last finalizer removes the object; a
  patch of the status changes nothing else of it.
\<close>

definition ref_stored :: "cluster \<Rightarrow> string \<Rightarrow> bool" where
  "ref_stored c name = (case cl_gpu c of None \<Rightarrow> False | Some g \<Rightarrow> gpu_name g = name)"

definition ref_update_gpu :: "gpu \<Rightarrow> cluster \<Rightarrow> err option \<times> cluster" where
  "ref_update_gpu g c =
     (if ref_stored c (gpu_name g)
      then (None, c\<lparr>cl_gpu := (if deletion_timestamp g \<noteq> None \<and> finalizers g = [] then None else Some g)\<rparr>)
      else (Some not_found, c))"

definition ref_patch_status :: "gpu \<Rightarrow> gpu \<Rightarrow> cluster \<Rightarrow> err option \<times> cluster" where
  "ref_patch_status live original c =
     (if ref_stored c (gpu_name live)
      then (None, c\<lparr>cl_gpu := map_option (\<lambda>g. g\<lparr>gpu_status_of := gpu_status_of live\<rparr>) (cl_gpu c),
                    cl_now := cl_now c + 1\<rparr>)
      else (Some not_found, c))"

definition ref_delete_namespace :: "string \<Rightarrow> string \<Rightarrow> cluster \<Rightarrow> err option \<times> cluster" where
  "ref_delete_namespace name propagation c =
     (if cl_namespace c
      then (None, c\<lparr>cl_namespace := False, cl_daemon_sets := filter (\<lambda>d. ds_namespace d \<noteq> name) (cl_daemon_sets c)\<rparr>)
      else (Some not_found, c))"

definition ref_kube :: "cluster kube" where
  "ref_kube =
     \<lparr>find_condition = find_cond_list, set_condition = set_cond_list,
      contains_finalizer = (\<lambda>fs f. f \<in> set fs), add_finalizer = add_fin, remove_finalizer = remove_fin,
      semantic_equal = (\<lambda>a b. a = b), nested_string = ref_nested_string,
      is_not_found = (\<lambda>e. e = not_found), unicode_lower = (\<lambda>s. s), unicode_quote = (\<lambda>s. s),
      clock = (\<lambda>c k. cl_now c + 1),
      k_get_gpu = ref_get_gpu, k_update_gpu = ref_update_gpu, k_patch_status = ref_patch_status,
      k_list_gpus = (\<lambda>c. (Inr (case cl_gpu c of None \<Rightarrow> [] | Some g \<Rightarrow> [g]), c)),
      k_list_nodes = (\<lambda>c. (Inr (cl_nodes c), c)),
      k_list_pods = (\<lambda>c. (Inr (cl_pods c), c)),
      k_list_daemon_sets = (\<lambda>ns labels c. (Inr (filter (selects ns labels) (cl_daemon_sets c)), c)),
      k_get_object = (\<lambda>kind name c. (case cl_policy c of None \<Rightarrow> Inl not_found | Some p \<Rightarrow> Inr p, c)),
      k_delete_namespace = ref_delete_namespace\<rparr>"

lemmas ref_kube_simps = ref_kube_def ref_get_gpu_def ref_update_gpu_def ref_patch_status_def
  ref_stored_def ref_delete_namespace_def

interpretation ref: kube_library ref_kube
proof (intro kube_library.intro kube_library_axioms.intro)
  show "condition_list (find_condition ref_kube) (set_condition ref_kube)"
    using cond_ref.condition_list_axioms by (simp add: ref_kube_def)
  show "finalizer_list (contains_finalizer ref_kube) (add_finalizer ref_kube) (remove_finalizer ref_kube)"
    using fin_ref.finalizer_list_axioms by (simp add: ref_kube_def)
  show "semantic_equal ref_kube a b \<longleftrightarrow> a = b" for a b
    by (simp add: ref_kube_def)
qed

section \<open>The installer, the parser and the files\<close>

definition ref_installer :: "cluster installer" where
  "ref_installer =
     \<lparr>install_or_upgrade_op = (\<lambda>data vals c.
        (Done (Inr (cl_release c \<noteq> Some (data, vals))),
         c\<lparr>cl_release := Some (data, vals), cl_namespace := True\<rparr>)),
      uninstall_op = (\<lambda>c. (Done None, c\<lparr>cl_release := None\<rparr>))\<rparr>"

definition ref_yaml :: yaml where
  "ref_yaml =
     \<lparr>yaml_unmarshal = (\<lambda>raw. Inr (Some
        [(''driver'', Any_Map [(''version'', Any_Float (Dyadic 595 0)), (''usePrecompiled'', Any_Bool True)]),
         (''toolkit'', Any_Map [(''enabled'', Any_Bool True)])])),
      int64_unspecified = (\<lambda>f. 0)\<rparr>"

text \<open>Versions are read as the number of their first digit here.\<close>

definition ref_assets :: "nat assets" where
  "ref_assets =
     \<lparr>read_chart_dir = (\<lambda>d. Inr
        [\<lparr>entry_name = ''README.md'', entry_is_dir = False\<rparr>,
         \<lparr>entry_name = ''gpu-operator-v1.tgz'', entry_is_dir = False\<rparr>,
         \<lparr>entry_name = ''gpu-operator-v2.tgz'', entry_is_dir = False\<rparr>]),
      read_chart_file = (\<lambda>f. Inr f), read_values_file = (\<lambda>f. Inr f),
      semver_new = (\<lambda>v. case v of _ # d # _ \<Rightarrow> Inr (digit_val d) | _ \<Rightarrow> Inl (Errorf ''invalid'')),
      semver_greater = (\<lambda>a b. b < a), chart_sort = insertion_sort\<rparr>"

lemma ref_assets_sorter: "slice_sorter (chart_sort ref_assets)"
  by (simp add: ref_assets_def go_sort.slice_sorter_axioms)

lemma ref_assets_order: "strict_weak (semver_greater ref_assets)"
  by (auto simp: ref_assets_def strict_weak_def)

definition ref_reconciler :: "(cluster, nat) reconciler" where
  "ref_reconciler =
     \<lparr>r_kube = ref_kube, r_installer = ref_installer, r_assets = ref_assets, r_yaml = ref_yaml\<rparr>"

section \<open>Objects\<close>

definition ref_gpu :: gpu where
  "ref_gpu =
     \<lparr>gpu_name = ''gpu'', generation = 1, resource_version = ''1'', deletion_timestamp = None,
      finalizers = [gpu_finalizer], gpu_spec_of = \<lparr>spec_driver = None, spec_time_slicing = None\<rparr>,
      gpu_status_of = \<lparr>operator_version = [], status_driver = None, conditions = []\<rparr>\<rparr>"

definition ref_node :: node where
  "ref_node =
     \<lparr>node_name = ''node-1'', node_labels = [''node.kubernetes.io/instance-type'' \<mapsto> ''g4dn.xlarge''],
      os_image = ''Garden Linux 1592''\<rparr>"

definition ref_daemon_set :: daemon_set where
  "ref_daemon_set =
     \<lparr>ds_namespace = ''gpu-operator'', ds_labels = [''app'' \<mapsto> ''nvidia-driver-daemonset''],
      ds_desired = 1, ds_ready = 1, ds_available = 1, ds_updated = 1,
      ds_containers = [\<lparr>c_image = ''nvcr.io/nvidia/driver:535.129.03-ubuntu22.04'', c_limits = []\<rparr>]\<rparr>"

definition ref_pod :: pod where
  "ref_pod =
     \<lparr>pod_namespace = ''default'', pod_name = ''train'', pod_deletion = None, pod_phase = ''Running'',
      pod_containers = [\<lparr>c_image = ''cuda'', c_limits = [(''nvidia.com/gpu'', ''1'')]\<rparr>],
      pod_init_containers = []\<rparr>"

definition ref_cluster :: cluster where
  "ref_cluster =
     \<lparr>cl_gpu = Some ref_gpu, cl_nodes = [ref_node], cl_pods = [], cl_daemon_sets = [ref_daemon_set],
      cl_policy = Some (Any_Map [(''status'', Any_Map [(''state'', Any_Str ''ready'')])]),
      cl_namespace = False, cl_release = None, cl_now = 7\<rparr>"

text \<open>The same cluster once the resource has been deleted by its user.\<close>

definition ref_deleted :: cluster where
  "ref_deleted = ref_cluster\<lparr>cl_gpu := Some (ref_gpu\<lparr>deletion_timestamp := Some 5\<rparr>), cl_namespace := True\<rparr>"

section \<open>Two runs\<close>

text \<open>
  A reconciliation that installs and reports, one that removes everything; the positions of
  the calls the witnesses are about.
\<close>

definition ref_install_trace :: "kube_event list" where
  "ref_install_trace = trace_of (reconcile ref_reconciler ''gpu'') ref_cluster"

definition ref_delete_trace :: "kube_event list" where
  "ref_delete_trace = trace_of (reconcile ref_reconciler ''gpu'') ref_deleted"

lemma split_at: "i < length tr \<Longrightarrow> tr ! i = e \<Longrightarrow> tr = take i tr @ e # drop (Suc i) tr"
  using id_take_nth_drop by blast

section \<open>Witnesses of the status properties\<close>

definition ref_update :: status_update where
  "ref_update = full_update (preflight_passed ''ubuntu'') (helm_installed ''v2'')
     (ConditionTrue, reasonReady, ''driver'') (ConditionUnknown, reasonWaiting, ''validator'') ''v2'' None"

lemma ref_update_fresh:
  "fresh_conditions (upd_conditions ref_update)" "condReady \<notin> c_type ` set (upd_conditions ref_update)"
  by (simp_all add: ref_update_def full_update_def fresh_conditions_def preflight_passed_def helm_installed_def
      observation_condition_def)

theorem status_merge_idempotent_witness:
  "merge_status ref_kube (\<lambda>k. 9 + k) 1 ref_update (merge_status ref_kube (\<lambda>k. 4 + k) 1 ref_update (gpu_status_of ref_gpu))
     = merge_status ref_kube (\<lambda>k. 4 + k) 1 ref_update (gpu_status_of ref_gpu)"
  by (rule status_merge_idempotent [OF ref.kube_library_axioms ref_update_fresh])


end
