(* ===== verification/Live_Status.thy ===== *)
theory Live_Status
  imports Deep_Copy Reference_Cluster
begin

text \<open>
  \<open>applyStatus\<close> of \<open>internal/controller/gpu_controller.go\<close> as it runs on the heap: the live object
  is changed in place after \<open>original := live.DeepCopy()\<close>, through the pointer
  \<open>&live.Status.Conditions\<close> and by assignments to fields. \<open>Status.apply_status\<close> describes the
  same steps on values; the property of this theory is that the two agree, that is, that no
  write through \<open>live\<close> reaches \<open>original\<close>, the metadata, the spec or the update.
\<close>

section \<open>The code on the heap\<close>

text \<open>
  \<open>meta.SetStatusCondition\<close> at a time, on a slice: it may overwrite elements of the backing
  array, extend it, or return a slice with a new array.
\<close>

type_synonym slice_setter = "time \<Rightarrow> slice option \<Rightarrow> condition \<Rightarrow> slice option heap_op"

record live_update =
  lu_conditions :: "condition list"
  lu_ready :: bool
  lu_operator_version :: string
  lu_driver :: "addr option"

definition modify_status :: "addr \<Rightarrow> (status_struct \<Rightarrow> status_struct) \<Rightarrow> unit heap_op" where
  "modify_status live f = do {
     g \<leftarrow> read_at gpus live;
     write_at gpus live (g\<lparr>gs_status := f (gs_status g)\<rparr>)
   }"

definition set_live_condition :: "slice_setter \<Rightarrow> time \<Rightarrow> addr \<Rightarrow> condition \<Rightarrow> unit heap_op" where
  "set_live_condition S now live c = do {
     g \<leftarrow> read_at gpus live;
     s \<leftarrow> S now (st_conditions (gs_status g)) c;
     modify_status live (st_conditions_update (\<lambda>_. s))
   }"

fun set_live_conditions :: "slice_setter \<Rightarrow> (nat \<Rightarrow> time) \<Rightarrow> nat \<Rightarrow> addr \<Rightarrow> condition list \<Rightarrow> unit heap_op" where
  "set_live_conditions S tm k live [] = State_Monad.return ()"
| "set_live_conditions S tm k live (c # cs) = do {
     g \<leftarrow> read_at gpus live;
     set_live_condition S (tm k) live (c\<lparr>c_observed_generation := om_generation (gs_meta g)\<rparr>);
     set_live_conditions S tm (Suc k) live cs
   }"

text \<open>The elements of the slice that the live object has now.\<close>

definition live_elements :: "addr \<Rightarrow> condition list heap_op" where
  "live_elements live = do {
     g \<leftarrow> read_at gpus live;
     (case st_conditions (gs_status g) of
        None \<Rightarrow> State_Monad.return []
      | Some sl \<Rightarrow> do {
          xs \<leftarrow> read_at condition_arrays (sl_array sl);
          State_Monad.return (take (sl_len sl) xs)
        })
   }"

definition set_live_ready :: "'w kube \<Rightarrow> slice_setter \<Rightarrow> time \<Rightarrow> addr \<Rightarrow> unit heap_op" where
  "set_live_ready K S now live = do {
     g \<leftarrow> read_at gpus live;
     cs \<leftarrow> live_elements live;
     set_live_condition S now live (compute_ready_summary K cs (om_generation (gs_meta g)))
   }"

definition set_live_fields :: "addr \<Rightarrow> live_update \<Rightarrow> unit heap_op" where
  "set_live_fields live upd = do {
     (if lu_operator_version upd \<noteq> []
      then modify_status live (st_operator_version_update (\<lambda>_. lu_operator_version upd))
      else State_Monad.return ());
     (if lu_driver upd \<noteq> None
      then modify_status live (st_driver_update (\<lambda>_. lu_driver upd))
      else State_Monad.return ())
   }"

text \<open>From the copy up to the comparison; returns \<open>original\<close>.\<close>

definition merge_live_status ::
  "meta_library \<Rightarrow> 'w kube \<Rightarrow> slice_setter \<Rightarrow> (nat \<Rightarrow> time) \<Rightarrow> addr \<Rightarrow> live_update \<Rightarrow> addr option heap_op" where
  "merge_live_status M K S tm live upd = do {
     original \<leftarrow> gpu_deep_copy M (Some live);
     set_live_conditions S tm 0 live (lu_conditions upd);
     (if lu_ready upd then set_live_ready K S (tm (length (lu_conditions upd))) live else State_Monad.return ());
     set_live_fields live upd;
     State_Monad.return original
   }"

text \<open>The update as a value.\<close>

definition update_value :: "heap \<Rightarrow> live_update \<Rightarrow> status_update" where
  "update_value h upd =
     \<lparr>upd_conditions = lu_conditions upd, upd_include_ready = lu_ready upd,
      upd_operator_version = lu_operator_version upd,
      upd_driver = map_option (h_driver_status h) (lu_driver upd)\<rparr>"

section \<open>The contract of SetStatusCondition on slices\<close>

text \<open>
  The elements afterwards are those that the library's function on lists gives; of what existed,
  only the backing array of the given slice changes; the result is in that array or a new one.
\<close>

locale slice_conditions =
  fixes K :: "'w kube" and S :: slice_setter
  assumes setter_spec: "slice_ptrs s \<subseteq> {..<h_limit h} \<Longrightarrow>
    wp (S now s c) (\<lambda>t h'. h_limit h \<le> h_limit h' \<and> agree ({..<h_limit h} - slice_ptrs s) h h' \<and>
      elements (h_conditions h') t = set_condition K now (elements (h_conditions h) s) c \<and>
      slice_ptrs t \<subseteq> slice_ptrs s \<union> {h_limit h..<h_limit h'}) h"
begin

text \<open>
  The live variable while it is being changed: its conditions are \<open>cs\<close> in an array that is
  not among the protected variables \<open>P\<close>, which still hold what they held in \<open>k\<close>; the other
  fields are those of \<open>g\<close>.
\<close>

definition live_at :: "addr set \<Rightarrow> heap \<Rightarrow> addr \<Rightarrow> gpu_struct \<Rightarrow> condition list \<Rightarrow> heap \<Rightarrow> bool" where
  "live_at P k live g cs h \<longleftrightarrow>
     live < h_limit h \<and> P \<subseteq> {..<h_limit h} \<and> live \<notin> P \<and> agree P k h \<and>
     (\<exists>s. h_gpu h live = g\<lparr>gs_status := (gs_status g)\<lparr>st_conditions := s\<rparr>\<rparr> \<and>
        slice_ptrs s \<subseteq> {..<h_limit h} - insert live P \<and> elements (h_conditions h) s = cs)"

lemma wp_set_live_condition:
  assumes live: "live_at P k live g cs h"
    and "\<And>h'. live_at P k live g (set_condition K now cs c) h' \<Longrightarrow> Q () h'"
  shows "wp (set_live_condition S now live c) Q h"
proof -
  from live obtain s where s: "h_gpu h live = g\<lparr>gs_status := (gs_status g)\<lparr>st_conditions := s\<rparr>\<rparr>"
    "slice_ptrs s \<subseteq> {..<h_limit h} - insert live P" "elements (h_conditions h) s = cs"
    and h: "live < h_limit h" "P \<subseteq> {..<h_limit h}" "live \<notin> P" "agree P k h"
    by (auto simp: live_at_def)
  have "wp (S now s c) (\<lambda>s. wp (modify_status live (st_conditions_update (\<lambda>_. s))) Q) h"
  proof (rule wp_mono [OF setter_spec])
    show "slice_ptrs s \<subseteq> {..<h_limit h}" using s(2) by auto
  next
    fix t h'
    assume t: "h_limit h \<le> h_limit h' \<and> agree ({..<h_limit h} - slice_ptrs s) h h' \<and>
      elements (h_conditions h') t = set_condition K now (elements (h_conditions h) s) c \<and>
      slice_ptrs t \<subseteq> slice_ptrs s \<union> {h_limit h..<h_limit h'}"
    have "insert live P \<subseteq> {..<h_limit h} - slice_ptrs s" using h(1,2) s(2) by blast
    with t have "agree (insert live P) h h'" by (blast intro: agree_mono)
    then have kept: "h_gpu h' live = h_gpu h live" "agree P h h'" by (auto simp: agree_def)
    let ?g = "g\<lparr>gs_status := (gs_status g)\<lparr>st_conditions := t\<rparr>\<rparr>"
    let ?h = "h_gpu_update (\<lambda>f. f(live := ?g)) h'"
    have "agree P h' ?h"
      using gpus.update_elsewhere [of live P h' ?g] h(3) by (simp add: region_defs)
    then have "agree P k ?h" by (rule agree_trans [OF agree_trans [OF h(4) kept(2)]])
    moreover have "slice_ptrs t \<subseteq> {..<h_limit ?h} - insert live P"
    proof
      fix a assume "a \<in> slice_ptrs t"
      with t consider "a \<in> slice_ptrs s" | "h_limit h \<le> a" "a < h_limit h'" by auto
      then show "a \<in> {..<h_limit ?h} - insert live P"
        using s(2) t h(1,2) by cases (auto simp: subset_iff)
    qed
    ultimately have "live_at P k live g (set_condition K now cs c) ?h"
      unfolding live_at_def using t h(1-3) s(3)
      by (intro conjI exI [of _ t]) (simp_all add: subset_iff, meson order.strict_trans2)+
    then show "wp (modify_status live (st_conditions_update (\<lambda>_. t))) Q h'"
      using assms(2) by (simp add: modify_status_def wp_simps region_defs kept(1) s(1))
  qed
  then show ?thesis by (simp add: set_live_condition_def wp_simps region_defs s(1))
qed

lemma live_at_generation: "live_at P k live g cs h \<Longrightarrow> gs_meta (h_gpu h live) = gs_meta g"
  by (auto simp: live_at_def)

lemma wp_set_live_conditions:
  assumes "live_at P k live g ds h"
    and "\<And>h'. live_at P k live g (set_conditions K tm i (om_generation (gs_meta g)) cs ds) h' \<Longrightarrow> Q () h'"
  shows "wp (set_live_conditions S tm i live cs) Q h"
  using assms
proof (induction cs arbitrary: ds i h)
  case (Cons c cs)
  show ?case
    unfolding set_live_conditions.simps wp_simps gpus_def fst_conv live_at_generation [OF Cons.prems(1)]
    by (rule wp_set_live_condition [OF Cons.prems(1)], rule Cons.IH, assumption)
      (use Cons.prems(2) in simp)
qed (simp add: wp_simps)

lemma wp_set_live_ready:
  assumes live: "live_at P k live g cs h"
    and post: "\<And>h'. live_at P k live g (set_condition K now cs (compute_ready_summary K cs (om_generation (gs_meta g)))) h' \<Longrightarrow> Q () h'"
  shows "wp (set_live_ready K S now live) Q h"
proof -
  have "wp (live_elements live) R h = R cs h" for R
    using live by (auto simp: live_at_def live_elements_def wp_simps region_defs elements_def split: option.splits)
  then show ?thesis
    using wp_set_live_condition [OF live, of now "compute_ready_summary K cs (om_generation (gs_meta g))" Q] post
    by (simp add: set_live_ready_def wp_simps region_defs live_at_generation [OF live])
qed

lemma wp_set_live_fields:
  assumes live: "live_at P k live g cs h"
    and post: "\<And>s h'. agree P k h' \<Longrightarrow> elements (h_conditions h') s = cs \<Longrightarrow>
      h_gpu h' live = g\<lparr>gs_status := \<lparr>st_operator_version =
          (if lu_operator_version upd \<noteq> [] then lu_operator_version upd else st_operator_version (gs_status g)),
        st_driver = (if lu_driver upd \<noteq> None then lu_driver upd else st_driver (gs_status g)),
        st_conditions = s\<rparr>\<rparr> \<Longrightarrow> Q () h'"
  shows "wp (set_live_fields live upd) Q h"
proof -
  from live obtain s where s: "h_gpu h live = g\<lparr>gs_status := (gs_status g)\<lparr>st_conditions := s\<rparr>\<rparr>"
    "elements (h_conditions h) s = cs" and h: "live \<notin> P" "agree P k h"
    by (auto simp: live_at_def)
  have elsewhere: "agree P k (h_gpu_update (\<lambda>f. f(live := x)) h')" if "agree P k h'" for x h'
    using agree_trans [OF that gpus.update_elsewhere [of live P h' x]] h(1) by (simp add: region_defs)
  show ?thesis
    using elsewhere [OF h(2)] elsewhere [OF elsewhere [OF h(2)]] h(2) s
    by (auto simp: set_live_fields_def modify_status_def wp_simps region_defs intro!: post [of _ s] status_struct.equality)
qed

end

section \<open>The whole step\<close>

text \<open>
  What the step needs of the memory: the live object exists, it points neither to itself nor, as
  its conditions, to the other variables that it or the update uses.
\<close>

definition other_vars :: "heap \<Rightarrow> addr \<Rightarrow> live_update \<Rightarrow> addr set" where
  "other_vars h live upd =
     (let g = h_gpu h live in
      meta_ptrs h (gs_meta g) \<union> spec_ptrs h (gs_spec g) \<union> set_option (st_driver (gs_status g)) \<union>
      set_option (lu_driver upd))"

definition separate :: "heap \<Rightarrow> addr \<Rightarrow> live_update \<Rightarrow> bool" where
  "separate h live upd \<longleftrightarrow>
     live < h_limit h \<and> live \<notin> other_vars h live upd \<and> other_vars h live upd \<subseteq> {..<h_limit h} \<and>
     slice_ptrs (st_conditions (gs_status (h_gpu h live))) \<subseteq> {..<h_limit h} - insert live (other_vars h live upd)"

lemma separate_vars: "separate h live upd \<Longrightarrow> gpu_vars h (Some live) \<subseteq> {..<h_limit h}"
  by (auto simp: separate_def gpu_vars_def var_ptrs_def region_defs gpu_ptrs_def status_ptrs_def other_vars_def Let_def)

lemma gpu_value_merged:
  assumes "agree (other_vars h live upd) h h'" and "elements (h_conditions h') s = cs"
    and "h_gpu h' live = (h_gpu h live)\<lparr>gs_status := \<lparr>st_operator_version =
          (if lu_operator_version upd \<noteq> [] then lu_operator_version upd
           else st_operator_version (gs_status (h_gpu h live))),
        st_driver = (if lu_driver upd \<noteq> None then lu_driver upd else st_driver (gs_status (h_gpu h live))),
        st_conditions = s\<rparr>\<rparr>"
    and "gpu_value h (h_gpu h live) = (ty, original)"
    and "cs = conditions (merge_status K tm (generation original) (update_value h upd) (gpu_status_of original))"
  shows "gpu_value h' (h_gpu h' live) =
    (ty, original\<lparr>gpu_status_of :=
       merge_status K tm (generation original) (update_value h upd) (gpu_status_of original)\<rparr>)"
proof -
  have "meta_value h' (gs_meta (h_gpu h live)) = meta_value h (gs_meta (h_gpu h live))"
    "spec_value h' (gs_spec (h_gpu h live)) = spec_value h (gs_spec (h_gpu h live))"
    using meta_frame [of h "gs_meta (h_gpu h live)" h'] spec_frame [of h "gs_spec (h_gpu h live)" h'] assms(1)
    by (simp_all add: other_vars_def Let_def agree_Un)
  moreover have "map_option (h_driver_status h') d = map_option (h_driver_status h) d"
    if "set_option d \<subseteq> other_vars h live upd" for d
    using that assms(1) by (cases d) (auto simp: agree_def)
  then have "map_option (h_driver_status h') (lu_driver upd) = map_option (h_driver_status h) (lu_driver upd)"
    "map_option (h_driver_status h') (st_driver (gs_status (h_gpu h live))) =
      map_option (h_driver_status h) (st_driver (gs_status (h_gpu h live)))"
    by (auto simp: other_vars_def Let_def)
  ultimately show ?thesis
    using assms(2-5)
    by (auto simp: gpu_value_def meta_value_def status_value_def update_value_def merge_status_fields
        intro!: gpu_status.equality)
qed

locale live_writer = meta_copies M + slice_conditions K S
  for M :: meta_library and K :: "'w kube" and S :: slice_setter
begin

lemma wp_merge_live_status:
  assumes sep: "separate h live upd" and original: "gpu_at h (Some live) = Some (ty, original)"
  shows "wp (merge_live_status M K S tm live upd) (\<lambda>q h'.
    gpu_at h' q = Some (ty, original) \<and>
    gpu_at h' (Some live) = Some (ty, original\<lparr>gpu_status_of :=
      merge_status K tm (generation original) (update_value h upd) (gpu_status_of original)\<rparr>)) h"
    (is "wp _ ?Q h")
proof -
  let ?g = "h_gpu h live"
  have val: "gpu_value h ?g = (ty, original)"
    using original by (simp add: gpu_at_def var_value_def region_defs)
  have gen: "om_generation (gs_meta ?g) = generation original"
    and conds: "elements (h_conditions h) (st_conditions (gs_status ?g)) = conditions (gpu_status_of original)"
    using val by (auto simp: gpu_value_def status_value_def)
  show ?thesis
    unfolding merge_live_status_def wp_bind
  proof (rule wp_gpu_deep_copy [OF separate_vars [OF sep] order_refl])
    fix q k
    assume k: "h_limit h \<le> h_limit k" "agree {..<h_limit h} h k" "gpu_at k q = gpu_at h (Some live)"
      "gpu_vars k q \<subseteq> {h_limit h..<h_limit k}"
    define P where "P = other_vars h live upd \<union> gpu_vars k q"
    let ?merged = "merge_status K tm (generation original) (update_value h upd) (gpu_status_of original)"
    have live: "live_at P k live ?g (conditions (gpu_status_of original)) k"
      unfolding live_at_def
    proof (intro conjI exI)
      have new: "a \<in> gpu_vars k q \<Longrightarrow> h_limit h \<le> a \<and> a < h_limit k" for a using k(4) by auto
      show "live < h_limit k" "live \<notin> P" "P \<subseteq> {..<h_limit k}"
        using sep k(1) new by (fastforce simp: separate_def P_def subset_iff)+
      have "agree {live} h k" using agree_mono [OF k(2)] sep by (simp add: separate_def)
      then show "h_gpu k live = ?g\<lparr>gs_status := (gs_status ?g)\<lparr>st_conditions := st_conditions (gs_status ?g)\<rparr>\<rparr>"
        by (simp add: agree_def)
      have vars: "slice_ptrs (st_conditions (gs_status ?g)) \<subseteq> {..<h_limit h} - insert live (other_vars h live upd)"
        using sep by (simp add: separate_def)
      then show "slice_ptrs (st_conditions (gs_status ?g)) \<subseteq> {..<h_limit k} - insert live P"
        using k(1) new by (fastforce simp: P_def subset_iff)
      have "agree (slice_ptrs (st_conditions (gs_status ?g))) h k" using agree_mono [OF k(2)] vars by blast
      then show "elements (h_conditions k) (st_conditions (gs_status ?g)) = conditions (gpu_status_of original)"
        using conds by (simp add: elements_frame)
    qed simp
    have final: "?Q q h'" if "agree P k h'" "elements (h_conditions h') s = conditions ?merged"
      "h_gpu h' live = ?g\<lparr>gs_status := \<lparr>st_operator_version =
          (if lu_operator_version upd \<noteq> [] then lu_operator_version upd else st_operator_version (gs_status ?g)),
        st_driver = (if lu_driver upd \<noteq> None then lu_driver upd else st_driver (gs_status ?g)),
        st_conditions = s\<rparr>\<rparr>" for s h'
    proof
      have "gpu_at h' q = gpu_at k q"
        using gpu_var.var.frame [unfolded at_folds, of k q h'] that(1) by (simp add: P_def agree_Un)
      then show "gpu_at h' q = Some (ty, original)" using k(3) original by simp
      have "agree (other_vars h live upd) h h'"
        using agree_trans [OF agree_mono [OF k(2)]] sep that(1) by (simp add: separate_def P_def agree_Un)
      from gpu_value_merged [OF this that(2,3) val refl]
      show "gpu_at h' (Some live) = Some (ty, original\<lparr>gpu_status_of := ?merged\<rparr>)"
        by (simp add: gpu_at_def var_value_def region_defs)
    qed
    let ?fields = "wp (set_live_fields live upd) (\<lambda>_. wp (State_Monad.return q) ?Q)"
    have fields: "?fields h'" if "live_at P k live ?g (conditions ?merged) h'" for h'
      using final by (intro wp_set_live_fields [OF that]) (simp add: wp_simps)
    show "wp (set_live_conditions S tm 0 live (lu_conditions upd)) (\<lambda>_.
        wp (if lu_ready upd then set_live_ready K S (tm (length (lu_conditions upd))) live else State_Monad.return ())
          (\<lambda>_. ?fields)) k"
    proof (rule wp_set_live_conditions [OF live])
      fix h' assume "live_at P k live ?g
        (set_conditions K tm 0 (om_generation (gs_meta ?g)) (lu_conditions upd) (conditions (gpu_status_of original))) h'"
      then show "wp (if lu_ready upd then set_live_ready K S (tm (length (lu_conditions upd))) live else State_Monad.return ())
          (\<lambda>_. ?fields) h'"
        using fields by (auto simp: wp_simps gen merge_status_conditions update_value_def Let_def intro: wp_set_live_ready)
    qed
  qed
qed

end

section \<open>The library's function, for reference\<close>

text \<open>
  A condition that is there is overwritten in place; a further one goes to a new array.
\<close>

definition ref_setter :: slice_setter where
  "ref_setter now s c =
     (case s of
        None \<Rightarrow> do {
          out \<leftarrow> alloc condition_arrays (set_cond_list now [] c);
          State_Monad.return (Some \<lparr>sl_array = out, sl_len = length (set_cond_list now [] c)\<rparr>)
        }
      | Some sl \<Rightarrow> do {
          xs \<leftarrow> read_at condition_arrays (sl_array sl);
          let ys = set_cond_list now (take (sl_len sl) xs) c;
          (if length ys \<le> sl_len sl
           then do {
             write_at condition_arrays (sl_array sl) (ys @ drop (length ys) xs);
             State_Monad.return (Some (sl\<lparr>sl_len := length ys\<rparr>))
           }
           else do {
             out \<leftarrow> alloc condition_arrays ys;
             State_Monad.return (Some \<lparr>sl_array = out, sl_len = length ys\<rparr>)
           })
        })"

interpretation ref_writer: live_writer ref_meta ref_kube ref_setter
proof (intro live_writer.intro slice_conditions.intro)
  show "meta_copies ref_meta" by (rule ref_copies.meta_copies_axioms)
  fix s :: "slice option" and h :: heap and now c
  have K: "set_condition ref_kube = set_cond_list" by (simp add: ref_kube_def)
  assume "slice_ptrs s \<subseteq> {..<h_limit h}"
  then show "wp (ref_setter now s c) (\<lambda>t h'. h_limit h \<le> h_limit h' \<and> agree ({..<h_limit h} - slice_ptrs s) h h' \<and>
      elements (h_conditions h') t = set_condition ref_kube now (elements (h_conditions h) s) c \<and>
      slice_ptrs t \<subseteq> slice_ptrs s \<union> {h_limit h..<h_limit h'}) h"
    by (cases s) (auto simp: ref_setter_def wp_simps region_defs Let_def K elements_def slice_ptrs_def agree_def)
qed

section \<open>Properties\<close>

text \<open>C16: Run on the heap, the merge of \<open>applyStatus\<close> leaves \<open>original\<close> as the object was read and
  makes \<open>live\<close> the same object with the status that \<open>merge_status\<close> computes on values: writing
  conditions in place through the live object never reaches the copy, and nothing but the status
  changes. This is what justifies the pure description of the status writer.\<close>

theorem live_status_merge:
  assumes "meta_copies M" and "slice_conditions K S" and "separate h live upd"
    and "gpu_at h (Some live) = Some (ty, original)"
    and "run_state (merge_live_status M K S tm live upd) h = (q, h')"
  shows "gpu_at h' q = Some (ty, original) \<and>
    gpu_at h' (Some live) = Some (ty, original\<lparr>gpu_status_of :=
      merge_status K tm (generation original) (update_value h upd) (gpu_status_of original)\<rparr>)"
  using live_writer.wp_merge_live_status [OF live_writer.intro [OF assms(1,2)] assms(3,4), of tm]
  by (simp add: wp_def assms(5))

text \<open>Overwriting Ready in place and pointing the status to another driver status (at 5).\<close>

definition example_update :: live_update where
  "example_update =
     \<lparr>lu_conditions = [new_condition ''Ready'' ''False'' ''Busy'' []], lu_ready = False,
      lu_operator_version = ''v3'', lu_driver = Some 5\<rparr>"

theorem live_status_merge_witness:
  "(let (q, h') = run_state (merge_live_status ref_meta ref_kube ref_setter (\<lambda>k. 4) 0 example_update) example_heap in
    map_option (map c_status o conditions o gpu_status_of o snd) (gpu_at h' q) = Some [''True''] \<and>
    map_option (map c_status o conditions o gpu_status_of o snd) (gpu_at h' (Some 0)) = Some [''False''] \<and>
    map_option (operator_version o gpu_status_of o snd) (gpu_at h' (Some 0)) = Some ''v3'')"
proof -
  let ?run = "run_state (merge_live_status ref_meta ref_kube ref_setter (\<lambda>k. 4) 0 example_update) example_heap"
  let ?v = "gpu_value example_heap example_struct"
  have "separate example_heap 0 example_update"
    by (simp add: separate_def other_vars_def example_heap_def example_struct_def example_update_def
        meta_ptrs_def spec_ptrs_def slice_ptrs_def)
  note merge = live_status_merge [OF ref_copies.meta_copies_axioms ref_writer.slice_conditions_axioms this,
      of "fst ?v" "snd ?v" "\<lambda>k. 4" "fst ?run" "snd ?run"]
  have at: "gpu_at example_heap (Some 0) = Some (fst ?v, snd ?v)"
    by (simp add: gpu_at_def var_value_def region_defs example_heap_def)
  have "map c_status (conditions (gpu_status_of (snd ?v))) = [''True'']"
    "map c_status (conditions (merge_status ref_kube (\<lambda>k. 4) (generation (snd ?v))
      (update_value example_heap example_update) (gpu_status_of (snd ?v)))) = [''False'']"
    "operator_version (merge_status ref_kube (\<lambda>k. 4) (generation (snd ?v))
      (update_value example_heap example_update) (gpu_status_of (snd ?v))) = ''v3''" by code_simp+
  moreover have "gpu_status_of (g\<lparr>gpu_status_of := st\<rparr>) = st" for g :: gpu and st by simp
  ultimately show ?thesis
    using merge [OF at prod.collapse [symmetric]]
    by (simp only: Let_def case_prod_beta fst_conv snd_conv option.map o_apply simp_thms)
qed

end
