(* ===== verification/Json.thy ===== *)
theory Json
  imports Go_Any "HOL-Library.Char_ord" "HOL-Library.List_Lexorder"
begin

text \<open>
  \<open>json.Marshal\<close> of the package encoding/json on values of type \<open>any\<close>, which the installer
  compares Helm values with. Strings are escaped rune by rune, map keys are sorted, and a
  non-finite float is an error (\<open>None\<close>). The text of a float that is not a small integer
  (the shortest decimal that reads back) is an argument.
\<close>

section \<open>Strings\<close>

text \<open>The number of bytes of the rune at the front (\<open>utf8.DecodeRune\<close>), 0 when invalid.\<close>

definition byte_in :: "char \<Rightarrow> nat \<Rightarrow> nat \<Rightarrow> bool" where
  "byte_in c lo hi \<longleftrightarrow> lo \<le> of_char c \<and> of_char c \<le> hi"

definition second_of_three :: "char \<Rightarrow> char \<Rightarrow> bool" where
  "second_of_three a b \<longleftrightarrow>
     byte_in b (if byte_in a 0xE0 0xE0 then 0xA0 else 0x80) (if byte_in a 0xED 0xED then 0x9F else 0xBF)"

definition second_of_four :: "char \<Rightarrow> char \<Rightarrow> bool" where
  "second_of_four a b \<longleftrightarrow>
     byte_in b (if byte_in a 0xF0 0xF0 then 0x90 else 0x80) (if byte_in a 0xF4 0xF4 then 0x8F else 0xBF)"

definition rune_size :: "string \<Rightarrow> nat" where
  "rune_size s =
     (case s of
        [] \<Rightarrow> 0
      | a # t \<Rightarrow>
          if byte_in a 0 0x7F then 1
          else if byte_in a 0xC2 0xDF then
            (case t of b # _ \<Rightarrow> if byte_in b 0x80 0xBF then 2 else 0 | _ \<Rightarrow> 0)
          else if byte_in a 0xE0 0xEF then
            (case t of b # c # _ \<Rightarrow> if second_of_three a b \<and> byte_in c 0x80 0xBF then 3 else 0 | _ \<Rightarrow> 0)
          else if byte_in a 0xF0 0xF4 then
            (case t of b # c # d # _ \<Rightarrow>
               if second_of_four a b \<and> byte_in c 0x80 0xBF \<and> byte_in d 0x80 0xBF then 4 else 0
             | _ \<Rightarrow> 0)
          else 0)"

text \<open>A valid UTF-8 string is a sequence of runes.\<close>

function utf8 :: "string \<Rightarrow> bool" where
  "utf8 [] = True"
| "utf8 (a # s) = (if rune_size (a # s) = 0 then False else utf8 (drop (rune_size (a # s)) (a # s)))"
  by pat_completeness auto
termination
  by (relation "measure length") auto

declare utf8.simps(2) [simp del]

lemma rune_size_ascii: "byte_in a 0 0x7F \<Longrightarrow> rune_size (a # s) = 1"
  by (simp add: rune_size_def)

lemma utf8_ascii: "list_all ascii_byte s \<Longrightarrow> utf8 s"
  by (induction s) (auto simp: utf8.simps rune_size_ascii byte_in_def ascii_byte_def)

definition backslash :: char where "backslash = CHR 0x5C"
definition dquote :: char where "dquote = CHR 0x22"

text \<open>An ASCII byte: quoted by name, as \<open>\u00xx\<close> (controls and the HTML characters), or as it is.\<close>

definition json_ascii :: "char \<Rightarrow> string" where
  "json_ascii c =
     (let n = (of_char c :: nat) in
      if c = backslash \<or> c = dquote then [backslash, c]
      else if n = 8 then [backslash, CHR ''b'']
      else if n = 12 then [backslash, CHR ''f'']
      else if n = 10 then [backslash, CHR ''n'']
      else if n = 13 then [backslash, CHR ''r'']
      else if n = 9 then [backslash, CHR ''t'']
      else if n < 32 \<or> c = CHR ''<'' \<or> c = CHR ''>'' \<or> c = CHR ''&'' then
        [backslash, CHR ''u'', CHR ''0'', CHR ''0'', hex_digit (n div 16), hex_digit (n mod 16)]
      else [c])"

function json_body :: "string \<Rightarrow> string" where
  "json_body [] = []"
| "json_body (a # s) =
     (if byte_in a 0 0x7F then json_ascii a @ json_body s
      else if rune_size (a # s) = 0 then backslash # ''ufffd'' @ json_body s
      else if take 3 (a # s) = [CHR 0xE2, CHR 0x80, CHR 0xA8] then backslash # ''u2028'' @ json_body (drop 2 s)
      else if take 3 (a # s) = [CHR 0xE2, CHR 0x80, CHR 0xA9] then backslash # ''u2029'' @ json_body (drop 2 s)
      else a # take (rune_size (a # s) - 1) s @ json_body (drop (rune_size (a # s) - 1) s))"
  by pat_completeness auto
termination
  by (relation "measure length") auto

definition json_string :: "string \<Rightarrow> string" where
  "json_string s = dquote # json_body s @ [dquote]"

section \<open>Values\<close>

definition small_integer :: "int \<Rightarrow> int \<Rightarrow> bool" where
  "small_integer m e \<longleftrightarrow> (0 \<le> e \<or> 2 ^ nat (- e) dvd m) \<and> \<bar>dyadic_trunc m e\<bar> < 2 ^ 53"

type_synonym float_text = "int \<Rightarrow> int \<Rightarrow> string"

definition json_float :: "float_text \<Rightarrow> int \<Rightarrow> int \<Rightarrow> string" where
  "json_float ft m e = (if small_integer m e then show_int (dyadic_trunc m e) else ft m e)"

definition json_object :: "(string \<times> string) list \<Rightarrow> string" where
  "json_object members =
     ''{'' @ join_str '','' (map (\<lambda>(k, t). json_string k @ '':'' @ t) (sort_key fst members)) @ ''}''"

fun has_nonfinite :: "any \<Rightarrow> bool" where
  "has_nonfinite (Any_Float (Nonfinite t)) = True"
| "has_nonfinite (Any_List xs) = list_ex has_nonfinite xs"
| "has_nonfinite (Any_Map kv) = list_ex has_nonfinite (map snd kv)"
| "has_nonfinite _ = False"

fun json_text :: "float_text \<Rightarrow> any \<Rightarrow> string" where
  "json_text ft Any_Nil = ''null''"
| "json_text ft (Any_Bool b) = (if b then ''true'' else ''false'')"
| "json_text ft (Any_Str s) = json_string s"
| "json_text ft (Any_Int i) = show_int i"
| "json_text ft (Any_Float (Dyadic m e)) = json_float ft m e"
| "json_text ft (Any_Float (Nonfinite t)) = []"
| "json_text ft (Any_List xs) = ''['' @ join_str '','' (map (json_text ft) xs) @ '']''"
| "json_text ft (Any_Map kv) = json_object (zip (map fst kv) (map (json_text ft) (map snd kv)))"

definition json_marshal :: "float_text \<Rightarrow> gomap \<Rightarrow> string option" where
  "json_marshal ft m =
     (case m of
        None \<Rightarrow> Some ''null''
      | Some kv \<Rightarrow> if has_nonfinite (Any_Map kv) then None else Some (json_text ft (Any_Map kv)))"

section \<open>Values that survive a round trip\<close>

text \<open>
  Helm stores the values of a release as JSON and reads them back with \<open>json.Unmarshal\<close>: all
  numbers become float64 and invalid bytes of strings become U+FFFD. The values below have the
  same text after that as before: their strings are valid UTF-8 and their integers are exact as
  float64. (A finite float64 reads back from its shortest decimal as itself.)
\<close>

fun survives :: "any \<Rightarrow> bool" where
  "survives (Any_Str s) = utf8 s"
| "survives (Any_Int i) = (\<bar>i\<bar> < 2 ^ 53)"
| "survives (Any_Float (Dyadic m e)) = True"
| "survives (Any_Float (Nonfinite t)) = False"
| "survives (Any_List xs) = list_all survives xs"
| "survives (Any_Map kv) = (list_all utf8 (map fst kv) \<and> list_all survives (map snd kv))"
| "survives _ = True"

text \<open>A map of values that Helm stores faithfully: not empty, and all of it survives.\<close>

definition storable :: "gomap \<Rightarrow> bool" where
  "storable m \<longleftrightarrow> (case m of None \<Rightarrow> False | Some kv \<Rightarrow> kv \<noteq> [] \<and> survives (Any_Map kv))"

lemma survives_finite: "survives v \<Longrightarrow> \<not> has_nonfinite v"
proof (induction v)
  case (Any_Float f)
  then show ?case by (cases f) simp_all
qed (fastforce simp: list_all_iff list_ex_iff)+

lemma storable_marshals: "storable m \<Longrightarrow> json_marshal ft m \<noteq> None"
  using survives_finite by (cases m) (simp_all add: storable_def json_marshal_def del: survives.simps has_nonfinite.simps)

end
