(* ===== verification/Helm_Client.thy ===== *)
theory Helm_Client
  imports Json Cluster
begin

text \<open>
  \<open>internal/helm/installer.go\<close>: the Helm client that installs, upgrades and removes the
  release \<open>gpu-operator\<close>, recovering it first when an earlier operation was interrupted. The
  Helm SDK is a parameter (\<open>helm_sdk\<close>), each of whose actions may fail and may change the
  cluster; every action and its answer is logged. The kubeconfig plumbing that
  \<open>action.Configuration.Init\<close> gets is in \<open>Rest_Getter\<close>, where \<open>sdk_init\<close> is built from it.
\<close>

section \<open>The Helm SDK\<close>

record chart_metadata =
  md_version :: string

record helm_chart =
  chart_metadata_of :: "chart_metadata option"
  chart_content :: string

record release_info =
  info_status :: string

record release =
  rel_name :: string
  rel_info :: "release_info option"
  rel_chart :: "helm_chart option"
  rel_config :: gomap

abbreviation (input) StatusDeployed :: string where "StatusDeployed \<equiv> ''deployed''"
abbreviation (input) StatusFailed :: string where "StatusFailed \<equiv> ''failed''"
abbreviation (input) StatusPendingInstall :: string where "StatusPendingInstall \<equiv> ''pending-install''"
abbreviation (input) StatusPendingUpgrade :: string where "StatusPendingUpgrade \<equiv> ''pending-upgrade''"

datatype list_state = ListDeployed | ListFailed | ListPendingInstall | ListPendingUpgrade

record install_options =
  io_release_name :: string
  io_namespace :: string
  io_create_namespace :: bool
  io_wait :: bool

record upgrade_options =
  uo_namespace :: string
  uo_wait :: bool
  uo_max_history :: nat

text \<open>
  \<open>cfg.Init(getter, namespace, driver, log)\<close>, \<open>action.NewList\<close> with a state mask,
  \<open>NewRollback\<close>, \<open>NewUninstall\<close> (with \<open>Wait\<close>), \<open>NewInstall\<close>, \<open>NewUpgrade\<close>,
  \<open>loader.LoadArchive\<close>, and the float formatting of encoding/json.
\<close>

record 'h helm_sdk =
  sdk_init :: "string \<Rightarrow> string \<Rightarrow> 'h \<Rightarrow> err option \<times> 'h"
  sdk_list :: "list_state list \<Rightarrow> 'h \<Rightarrow> (err + release list) \<times> 'h"
  sdk_rollback :: "string \<Rightarrow> 'h \<Rightarrow> err option \<times> 'h"
  sdk_uninstall :: "bool \<Rightarrow> string \<Rightarrow> 'h \<Rightarrow> err option \<times> 'h"
  sdk_install :: "install_options \<Rightarrow> helm_chart \<Rightarrow> gomap \<Rightarrow> 'h \<Rightarrow> err option \<times> 'h"
  sdk_upgrade :: "upgrade_options \<Rightarrow> string \<Rightarrow> helm_chart \<Rightarrow> gomap \<Rightarrow> 'h \<Rightarrow> err option \<times> 'h"
  sdk_load_archive :: "string \<Rightarrow> err + helm_chart"
  sdk_float_text :: float_text

datatype helm_event =
    Helm_Init string string "err option"
  | Helm_List "list_state list" "err + release list"
  | Helm_Rollback string "err option"
  | Helm_Uninstall bool string "err option"
  | Helm_Install install_options helm_chart gomap "err option"
  | Helm_Upgrade upgrade_options string helm_chart gomap "err option"

type_synonym ('h, 'a) helm_eff = "('h, helm_event, 'a) eff"

text \<open>A nil pointer dereference.\<close>

definition nil_deref :: string where
  "nil_deref = ''invalid memory address or nil pointer dereference''"

definition wrap_opt :: "string \<Rightarrow> err option \<Rightarrow> err option" where
  "wrap_opt msg e = map_option (Wrap_Err msg) e"

section \<open>The functions of installer.go\<close>

definition release_name :: string where "release_name = ''gpu-operator''"
definition release_namespace :: string where "release_namespace = ''gpu-operator''"
definition max_release_history :: nat where "max_release_history = 3"

definition action_config :: "'h helm_sdk \<Rightarrow> ('h, err option) helm_eff" where
  "action_config H = do {
     e \<leftarrow> call (sdk_init H release_namespace ''secret'') (Helm_Init release_namespace ''secret'');
     State_Monad.return (wrap_opt ''initialising helm action config'' e)
   }"

text \<open>The loop of \<open>recoverPending\<close> over the pending releases.\<close>

fun recover_each :: "'h helm_sdk \<Rightarrow> release list \<Rightarrow> ('h, err option run) helm_eff" where
  "recover_each H [] = State_Monad.return (Done None)"
| "recover_each H (r # rs) =
     (if rel_name r \<noteq> release_name then recover_each H rs
      else case rel_info r of
        None \<Rightarrow> State_Monad.return (Panic nil_deref)
      | Some info \<Rightarrow>
          if info_status info = StatusPendingUpgrade then do {
            e \<leftarrow> call (sdk_rollback H release_name) (Helm_Rollback release_name);
            case e of
              Some x \<Rightarrow> State_Monad.return (Done (Some (Wrap_Err ''rolling back pending-upgrade release'' x)))
            | None \<Rightarrow> recover_each H rs
          }
          else if info_status info = StatusPendingInstall then do {
            e \<leftarrow> call (sdk_uninstall H False release_name) (Helm_Uninstall False release_name);
            case e of
              Some x \<Rightarrow> State_Monad.return (Done (Some (Wrap_Err ''removing pending-install release'' x)))
            | None \<Rightarrow> recover_each H rs
          }
          else recover_each H rs)"

definition recover_pending :: "'h helm_sdk \<Rightarrow> ('h, err option run) helm_eff" where
  "recover_pending H = do {
     r \<leftarrow> call (sdk_list H [ListPendingInstall, ListPendingUpgrade]) (Helm_List [ListPendingInstall, ListPendingUpgrade]);
     case r of
       Inl e \<Rightarrow> State_Monad.return (Done (Some (Wrap_Err ''listing pending releases'' e)))
     | Inr releases \<Rightarrow> recover_each H releases
   }"

fun find_release :: "release list \<Rightarrow> release option" where
  "find_release [] = None"
| "find_release (r # rs) = (if rel_name r = release_name then Some r else find_release rs)"

definition current_release :: "'h helm_sdk \<Rightarrow> ('h, err + release option) helm_eff" where
  "current_release H = do {
     r \<leftarrow> call (sdk_list H [ListDeployed, ListFailed]) (Helm_List [ListDeployed, ListFailed]);
     case r of
       Inl e \<Rightarrow> State_Monad.return (Inl (Wrap_Err ''listing helm releases'' e))
     | Inr releases \<Rightarrow> State_Monad.return (Inr (find_release releases))
   }"

definition helm_install :: "'h helm_sdk \<Rightarrow> helm_chart \<Rightarrow> gomap \<Rightarrow> ('h, err option) helm_eff" where
  "helm_install H chrt vals = do {
     let opts = \<lparr>io_release_name = release_name, io_namespace = release_namespace,
                 io_create_namespace = True, io_wait = False\<rparr>;
     e \<leftarrow> call (sdk_install H opts chrt vals) (Helm_Install opts chrt vals);
     State_Monad.return (wrap_opt ''installing gpu-operator'' e)
   }"

definition helm_upgrade :: "'h helm_sdk \<Rightarrow> helm_chart \<Rightarrow> gomap \<Rightarrow> ('h, err option) helm_eff" where
  "helm_upgrade H chrt vals = do {
     let opts = \<lparr>uo_namespace = release_namespace, uo_wait = False,
                 uo_max_history = max_release_history\<rparr>;
     e \<leftarrow> call (sdk_upgrade H opts release_name chrt vals) (Helm_Upgrade opts release_name chrt vals);
     State_Monad.return (wrap_opt ''upgrading gpu-operator'' e)
   }"

definition load_chart :: "'h helm_sdk \<Rightarrow> string \<Rightarrow> err + helm_chart" where
  "load_chart H data =
     (case sdk_load_archive H data of
        Inl e \<Rightarrow> Inl (Wrap_Err ''loading chart archive'' e)
      | Inr chrt \<Rightarrow> Inr chrt)"

definition values_equal :: "float_text \<Rightarrow> gomap \<Rightarrow> gomap \<Rightarrow> bool" where
  "values_equal ft a b =
     (if map_len a = 0 \<and> map_len b = 0 then True
      else case json_marshal ft a of
        None \<Rightarrow> False
      | Some aj \<Rightarrow> (case json_marshal ft b of None \<Rightarrow> False | Some bj \<Rightarrow> aj = bj))"

definition release_up_to_date :: "float_text \<Rightarrow> release \<Rightarrow> helm_chart \<Rightarrow> gomap \<Rightarrow> bool run" where
  "release_up_to_date ft rel chrt vals =
     (case rel_info rel of
        None \<Rightarrow> Done False
      | Some info \<Rightarrow>
          if info_status info \<noteq> StatusDeployed then Done False
          else case rel_chart rel of
            None \<Rightarrow> Done False
          | Some c \<Rightarrow>
              (case chart_metadata_of c of
                 None \<Rightarrow> Done False
               | Some md \<Rightarrow>
                   (case chart_metadata_of chrt of
                      None \<Rightarrow> Panic nil_deref
                    | Some want \<Rightarrow>
                        if md_version md \<noteq> md_version want then Done False
                        else Done (values_equal ft (rel_config rel) vals))))"

definition client_install_or_upgrade ::
  "'h helm_sdk \<Rightarrow> string \<Rightarrow> gomap \<Rightarrow> ('h, (err + bool) run) helm_eff" where
  "client_install_or_upgrade H data vals = do {
     c \<leftarrow> action_config H;
     case c of
       Some e \<Rightarrow> State_Monad.return (Done (Inl e))
     | None \<Rightarrow> do {
         p \<leftarrow> recover_pending H;
         case p of
           Panic m \<Rightarrow> State_Monad.return (Panic m)
         | Done (Some e) \<Rightarrow> State_Monad.return (Done (Inl e))
         | Done None \<Rightarrow>
             (case load_chart H data of
                Inl e \<Rightarrow> State_Monad.return (Done (Inl e))
              | Inr chrt \<Rightarrow> do {
                  cur \<leftarrow> current_release H;
                  case cur of
                    Inl e \<Rightarrow> State_Monad.return (Done (Inl e))
                  | Inr None \<Rightarrow> do {
                      e \<leftarrow> helm_install H chrt vals;
                      case e of
                        Some x \<Rightarrow> State_Monad.return (Done (Inl x))
                      | None \<Rightarrow> State_Monad.return (Done (Inr True))
                    }
                  | Inr (Some rel) \<Rightarrow>
                      (case release_up_to_date (sdk_float_text H) rel chrt vals of
                         Panic m \<Rightarrow> State_Monad.return (Panic m)
                       | Done True \<Rightarrow> State_Monad.return (Done (Inr False))
                       | Done False \<Rightarrow> do {
                           e \<leftarrow> helm_upgrade H chrt vals;
                           case e of
                             Some x \<Rightarrow> State_Monad.return (Done (Inl x))
                           | None \<Rightarrow> State_Monad.return (Done (Inr True))
                         })
                })
       }
   }"

definition client_uninstall :: "'h helm_sdk \<Rightarrow> ('h, err option run) helm_eff" where
  "client_uninstall H = do {
     c \<leftarrow> action_config H;
     case c of
       Some e \<Rightarrow> State_Monad.return (Done (Some e))
     | None \<Rightarrow> do {
         cur \<leftarrow> current_release H;
         case cur of
           Inl e \<Rightarrow> State_Monad.return (Done (Some e))
         | Inr None \<Rightarrow> State_Monad.return (Done None)
         | Inr (Some rel) \<Rightarrow> do {
             e \<leftarrow> call (sdk_uninstall H False release_name) (Helm_Uninstall False release_name);
             State_Monad.return (Done (wrap_opt ''uninstalling gpu-operator'' e))
           }
       }
   }"

definition installed_version :: "'h helm_sdk \<Rightarrow> ('h, (err + string) run) helm_eff" where
  "installed_version H = do {
     c \<leftarrow> action_config H;
     case c of
       Some e \<Rightarrow> State_Monad.return (Done (Inl e))
     | None \<Rightarrow> do {
         cur \<leftarrow> current_release H;
         case cur of
           Inl e \<Rightarrow> State_Monad.return (Done (Inl e))
         | Inr None \<Rightarrow> State_Monad.return (Done (Inr []))
         | Inr (Some rel) \<Rightarrow>
             State_Monad.return
               (case rel_chart rel of
                  None \<Rightarrow> Panic nil_deref
                | Some c \<Rightarrow> (case chart_metadata_of c of
                    None \<Rightarrow> Panic nil_deref
                  | Some md \<Rightarrow> Done (Inr (md_version md))))
       }
   }"

text \<open>The client as the \<open>Installer\<close> that \<open>cmd/main.go\<close> gives to the controller.\<close>

definition helm_installer :: "'h helm_sdk \<Rightarrow> 'h installer" where
  "helm_installer H =
     \<lparr>install_or_upgrade_op = (\<lambda>data vals h.
        (result_of (client_install_or_upgrade H data vals) h, world_of (client_install_or_upgrade H data vals) h)),
      uninstall_op = (\<lambda>h. (result_of (client_uninstall H) h, world_of (client_uninstall H) h))\<rparr>"

end
