(* ===== verification/Helm_Store.thy ===== *)
theory Helm_Store
  imports Helm_Client
begin

text \<open>
  What the Helm client guarantees. The first part holds for any Helm SDK: which calls the
  client makes and what its results say about them. The second part relies on the documented
  behaviour of Helm's release store (\<open>helm_store\<close>: what listing shows after an install, an
  upgrade, a rollback or an uninstall) and proves that the client converges: a repeated call
  changes nothing. A store in memory satisfies the contract.
\<close>

section \<open>The calls of the client\<close>

text \<open>Everything the client asks of Helm concerns one release, and it never waits for pods.\<close>

fun scoped :: "helm_event \<Rightarrow> bool" where
  "scoped (Helm_Init ns driver e) = (ns = release_namespace \<and> driver = ''secret'')"
| "scoped (Helm_List states r) = (states = [ListPendingInstall, ListPendingUpgrade] \<or> states = [ListDeployed, ListFailed])"
| "scoped (Helm_Rollback name e) = (name = release_name)"
| "scoped (Helm_Uninstall wait name e) = (name = release_name \<and> \<not> wait)"
| "scoped (Helm_Install opts chrt vals e) =
     (io_release_name opts = release_name \<and> io_namespace opts = release_namespace \<and>
      io_create_namespace opts \<and> \<not> io_wait opts)"
| "scoped (Helm_Upgrade opts name chrt vals e) =
     (name = release_name \<and> uo_namespace opts = release_namespace \<and> \<not> uo_wait opts \<and> uo_max_history opts = 3)"

fun helm_write :: "helm_event \<Rightarrow> bool" where
  "helm_write (Helm_Init ns driver e) = False"
| "helm_write (Helm_List states r) = False"
| "helm_write _ = True"

fun installs :: "helm_event \<Rightarrow> bool" where
  "installs (Helm_Install opts chrt vals e) = True"
| "installs (Helm_Upgrade opts name chrt vals e) = True"
| "installs _ = False"

fun only_installs :: "helm_event \<Rightarrow> bool" where
  "only_installs (Helm_Install opts chrt vals e) = True"
| "only_installs e = (\<not> helm_write e)"

lemmas helm_splits = sum.split option.split run.split bool.split if_split

lemma emits_recover_each: "emits (recover_each H rs) (\<lambda>e. scoped e \<and> \<not> installs e)"
  by (induction rs) (auto intro!: emits_rules split: helm_splits)

lemma emits_recover_pending: "emits (recover_pending H) (\<lambda>e. scoped e \<and> \<not> installs e)"
  unfolding recover_pending_def
  by (auto intro!: emits_rules emits_recover_each split: helm_splits)

lemma emits_action_config: "emits (action_config H) (\<lambda>e. scoped e \<and> \<not> helm_write e)"
  unfolding action_config_def by (auto intro!: emits_rules)

lemma emits_current_release: "emits (current_release H) (\<lambda>e. scoped e \<and> \<not> helm_write e)"
  unfolding current_release_def by (auto intro!: emits_rules split: helm_splits)

lemma emits_helm_install: "emits (helm_install H chrt vals) scoped"
  unfolding helm_install_def Let_def by (auto intro!: emits_rules)

lemma emits_helm_upgrade: "emits (helm_upgrade H chrt vals) scoped"
  unfolding helm_upgrade_def Let_def by (auto intro!: emits_rules simp: max_release_history_def)

lemma emits_client_install: "emits (client_install_or_upgrade H data vals) scoped"
  unfolding client_install_or_upgrade_def
  by (auto intro!: emits_rules emits_helm_install emits_helm_upgrade
      emits_mono [OF emits_recover_pending] emits_mono [OF emits_action_config]
      emits_mono [OF emits_current_release] split: helm_splits)

lemma emits_client_uninstall: "emits (client_uninstall H) scoped"
  unfolding client_uninstall_def
  by (auto intro!: emits_rules emits_mono [OF emits_action_config] emits_mono [OF emits_current_release]
      split: helm_splits)

text \<open>
  What the result says: \<open>changed\<close> is true exactly when the run ended with an install or upgrade
  that succeeded, and then it made no other; without an error it is false exactly when the run
  made none.
\<close>

fun installed_ok :: "helm_event \<Rightarrow> bool" where
  "installed_ok (Helm_Install opts chrt vals e) = (e = None)"
| "installed_ok (Helm_Upgrade opts name chrt vals e) = (e = None)"
| "installed_ok _ = False"

definition ends_installed :: "helm_event list \<Rightarrow> bool" where
  "ends_installed es \<longleftrightarrow> es \<noteq> [] \<and> list_all (\<lambda>e. \<not> installs e) (butlast es) \<and> installed_ok (last es)"

fun succeeded :: "(err + bool) run \<Rightarrow> bool" where
  "succeeded (Done (Inr changed)) = True"
| "succeeded _ = False"

lemma ends_installed_snoc [simp]:
  "ends_installed (es @ [e]) \<longleftrightarrow> list_all (\<lambda>e. \<not> installs e) es \<and> installed_ok e" "\<not> ends_installed []"
  by (simp_all add: ends_installed_def)

definition truthful :: "(err + bool) run \<Rightarrow> helm_event list \<Rightarrow> bool" where
  "truthful r es \<longleftrightarrow>
     (r = Done (Inr True) \<longleftrightarrow> ends_installed es) \<and> (r = Done (Inr True) \<longleftrightarrow> list_ex installed_ok es) \<and>
     (r = Done (Inr False) \<longleftrightarrow> succeeded r \<and> list_all (\<lambda>e. \<not> installs e) es)"

lemma installed_ok_installs: "installed_ok e \<Longrightarrow> installs e"
  by (cases e) simp_all

lemma no_installs: "list_all (\<lambda>e. \<not> installs e) es \<Longrightarrow> \<not> ends_installed es \<and> \<not> list_ex installed_ok es"
  using installed_ok_installs last_in_set by (fastforce simp: ends_installed_def list_all_iff list_ex_iff)

lemma wp_quiet_prefix:
  assumes "emits m (\<lambda>e. scoped e \<and> \<not> helm_write e)" and "list_all (\<lambda>e. \<not> installs e) (log s)"
    and "\<And>r t. list_all (\<lambda>e. \<not> installs e) (log t) \<Longrightarrow> Q r t"
  shows "wp m Q s"
proof (rule wp_emits [OF assms(1)])
  fix r and t :: "('a, helm_event) st" and es
  assume t: "log t = log s @ es" "list_all (\<lambda>e. scoped e \<and> \<not> helm_write e) es"
  have "\<not> helm_write e \<Longrightarrow> \<not> installs e" for e by (cases e) simp_all
  with t assms(2) have "list_all (\<lambda>e. \<not> installs e) (log t)" by (auto simp: list_all_iff)
  then show "Q r t" by (rule assms(3))
qed

lemma wp_quiet_recover:
  assumes "list_all (\<lambda>e. \<not> installs e) (log s)" and "\<And>r t. list_all (\<lambda>e. \<not> installs e) (log t) \<Longrightarrow> Q r t"
  shows "wp (recover_pending H) Q s"
  using assms(1) by (intro wp_emits [OF emits_recover_pending] assms(2)) (auto simp: list_all_iff)

lemma wp_install_truthful: "wp (client_install_or_upgrade H data vals) (\<lambda>r t. truthful r (log t)) (start h)"
  unfolding client_install_or_upgrade_def helm_install_def helm_upgrade_def Let_def
  by (auto simp: wp_simps truthful_def wrap_opt_def no_installs split: helm_splits
      intro!: wp_quiet_prefix [OF emits_action_config] wp_quiet_recover
        wp_quiet_prefix [OF emits_current_release] wp_any_call)

section \<open>The contract of the release store\<close>

lemma up_to_date_iff:
  "release_up_to_date ft rel chrt vals = Done True \<longleftrightarrow>
     (\<exists>info c md want. rel_info rel = Some info \<and> info_status info = StatusDeployed \<and>
        rel_chart rel = Some c \<and> chart_metadata_of c = Some md \<and> chart_metadata_of chrt = Some want \<and>
        md_version md = md_version want \<and> values_equal ft (rel_config rel) vals)"
  by (auto simp: release_up_to_date_def split: option.splits)

lemma values_equal_iff:
  "values_equal ft a b \<longleftrightarrow>
     map_len a = 0 \<and> map_len b = 0 \<or> json_marshal ft a \<noteq> None \<and> json_marshal ft a = json_marshal ft b"
  by (auto simp: values_equal_def split: option.splits)

fun listed_status :: "list_state \<Rightarrow> string" where
  "listed_status ListDeployed = StatusDeployed"
| "listed_status ListFailed = StatusFailed"
| "listed_status ListPendingInstall = StatusPendingInstall"
| "listed_status ListPendingUpgrade = StatusPendingUpgrade"

definition has_status :: "string \<Rightarrow> release \<Rightarrow> bool" where
  "has_status status rel \<longleftrightarrow> map_option info_status (rel_info rel) = Some status"

definition listed :: "list_state list \<Rightarrow> release \<Rightarrow> bool" where
  "listed states rel \<longleftrightarrow> list_ex (\<lambda>st. has_status (listed_status st) rel) states"

text \<open>
  What a successful install or upgrade stores: a deployed release of that name with that chart
  and, for values that survive being stored, a configuration that reads back as the same JSON.
  Nothing is said of the configuration for the others; in particular an upgrade with empty
  values takes over the configuration of the release before it.
\<close>

definition stored :: "'h helm_sdk \<Rightarrow> string \<Rightarrow> helm_chart \<Rightarrow> gomap \<Rightarrow> release \<Rightarrow> bool" where
  "stored H name chrt vals rel \<longleftrightarrow>
     rel_name rel = name \<and> has_status StatusDeployed rel \<and> rel_chart rel = Some chrt \<and>
     (storable vals \<longrightarrow> json_marshal (sdk_float_text H) (rel_config rel) = json_marshal (sdk_float_text H) vals)"

text \<open>
  The documented behaviour: \<open>releases h\<close> are the latest revisions, one per name. \<open>helm list\<close>
  shows those of the requested states and changes nothing; an operation that succeeds leaves
  the release of that name as its name says; nothing is said of operations that fail.
\<close>

locale helm_store =
  fixes H :: "'h helm_sdk" and releases :: "'h \<Rightarrow> release list"
  assumes distinct_names: "distinct (map rel_name (releases h))"
    and init_keeps: "sdk_init H ns driver h = (e, h') \<Longrightarrow> releases h' = releases h"
    and list_keeps: "sdk_list H states h = (r, h') \<Longrightarrow> releases h' = releases h"
    and list_shows: "sdk_list H states h = (Inr rs, h') \<Longrightarrow> set rs = {rel \<in> set (releases h). listed states rel}"
    and install_stores: "sdk_install H opts chrt vals h = (None, h') \<Longrightarrow>
      \<exists>rel \<in> set (releases h'). stored H (io_release_name opts) chrt vals rel"
    and upgrade_stores: "sdk_upgrade H uopts name chrt vals h = (None, h') \<Longrightarrow>
      \<exists>rel \<in> set (releases h'). stored H name chrt vals rel"
    and uninstall_removes: "sdk_uninstall H wait name h = (None, h') \<Longrightarrow>
      set (releases h') = {rel \<in> set (releases h). rel_name rel \<noteq> name}"
    and rollback_deploys: "sdk_rollback H name h = (None, h') \<Longrightarrow>
      \<exists>rel \<in> set (releases h'). rel_name rel = name \<and> has_status StatusDeployed rel"
    and archive_has_metadata: "sdk_load_archive H data = Inr chrt \<Longrightarrow> chart_metadata_of chrt \<noteq> None"
begin

lemma same_name: "r \<in> set (releases h) \<Longrightarrow> q \<in> set (releases h) \<Longrightarrow> rel_name r = rel_name q \<Longrightarrow> r = q"
  using distinct_names [of h] by (auto simp: distinct_map dest: inj_onD)

text \<open>The release is there, deployed, with this chart and these values.\<close>

definition converged :: "string \<Rightarrow> gomap \<Rightarrow> 'h \<Rightarrow> bool" where
  "converged data vals h \<longleftrightarrow>
     (\<exists>chrt rel. sdk_load_archive H data = Inr chrt \<and> rel \<in> set (releases h) \<and> rel_name rel = release_name \<and>
        release_up_to_date (sdk_float_text H) rel chrt vals = Done True)"

lemma converged_keep: "releases h' = releases h \<Longrightarrow> converged data vals h \<Longrightarrow> converged data vals h'"
  by (simp add: converged_def)

text \<open>The release is there, deployed, with the version of this chart.\<close>

definition deployed_with :: "string \<Rightarrow> release \<Rightarrow> bool" where
  "deployed_with data rel \<longleftrightarrow> rel_name rel = release_name \<and> has_status StatusDeployed rel \<and>
     (\<exists>chrt want c md. sdk_load_archive H data = Inr chrt \<and> chart_metadata_of chrt = Some want \<and>
        rel_chart rel = Some c \<and> chart_metadata_of c = Some md \<and> md_version md = md_version want)"

lemma stored_deployed:
  assumes "sdk_load_archive H data = Inr chrt" and "stored H release_name chrt vals rel"
  shows "deployed_with data rel"
  using assms archive_has_metadata [OF assms(1)] by (auto simp: deployed_with_def stored_def)

lemma up_to_date_deployed:
  assumes "sdk_load_archive H data = Inr chrt" and "rel_name rel = release_name"
    and "release_up_to_date (sdk_float_text H) rel chrt vals = Done True"
  shows "deployed_with data rel \<and> values_equal (sdk_float_text H) (rel_config rel) vals"
  using assms by (auto simp: deployed_with_def up_to_date_iff has_status_def)

lemma stored_up_to_date:
  assumes "stored H release_name chrt vals rel" and "chart_metadata_of chrt \<noteq> None"
    and "storable vals"
  shows "release_up_to_date (sdk_float_text H) rel chrt vals = Done True"
  using assms storable_marshals [OF assms(3), of "sdk_float_text H"]
  by (auto simp: up_to_date_iff stored_def has_status_def values_equal_iff)

lemma wp_init:
  assumes "\<And>e t. releases (world t) = releases (world s) \<Longrightarrow> log t = log s @ [Helm_Init ns d e] \<Longrightarrow> Q e t"
  shows "wp (call (sdk_init H ns d) (Helm_Init ns d)) Q s"
  using assms init_keeps by (simp add: wp_call split: prod.split)

lemma wp_list:
  assumes "\<And>e t. releases (world t) = releases (world s) \<Longrightarrow> log t = log s @ [Helm_List states (Inl e)] \<Longrightarrow> Q (Inl e) t"
    and "\<And>rs t. releases (world t) = releases (world s) \<Longrightarrow> log t = log s @ [Helm_List states (Inr rs)] \<Longrightarrow>
      set rs = {rel \<in> set (releases (world s)). listed states rel} \<Longrightarrow> Q (Inr rs) t"
  shows "wp (call (sdk_list H states) (Helm_List states)) Q s"
  unfolding wp_call
proof (cases "sdk_list H states (world s)")
  case (Pair r h')
  then show "case sdk_list H states (world s) of (r, w) \<Rightarrow> Q r (s\<lparr>world := w, log := log s @ [Helm_List states r]\<rparr>)"
    using assms list_keeps [OF Pair] list_shows [of states "world s"] by (cases r) simp_all
qed

end

lemma find_release_cases:
  "case find_release rs of None \<Rightarrow> \<forall>r \<in> set rs. rel_name r \<noteq> release_name
   | Some r \<Rightarrow> r \<in> set rs \<and> rel_name r = release_name"
  by (induction rs) (auto split: option.splits)

lemma find_release_SomeD: "find_release rs = Some r \<Longrightarrow> r \<in> set rs \<and> rel_name r = release_name"
  using find_release_cases [of rs] by simp

lemma find_release_None_iff: "find_release rs = None \<longleftrightarrow> (\<forall>r \<in> set rs. rel_name r \<noteq> release_name)"
  using find_release_cases [of rs] by (auto split: option.splits)

lemma recover_each_other:
  "\<forall>r \<in> set rs. rel_name r \<noteq> release_name \<Longrightarrow> recover_each H rs = State_Monad.return (Done None)"
  by (induction rs) simp_all

lemma status_unique: "has_status st rel \<Longrightarrow> has_status st' rel \<Longrightarrow> st = st'"
  by (auto simp: has_status_def)

lemma listed_simps [simp]:
  "listed [] rel = False" "listed (st # states) rel \<longleftrightarrow> has_status (listed_status st) rel \<or> listed states rel"
  by (simp_all add: listed_def)

text \<open>
  A run that finds no release to remove: it looks, and its result is the error of the request
  that failed, or nil.
\<close>

definition found_nothing :: "err option run \<Rightarrow> helm_event list \<Rightarrow> bool" where
  "found_nothing r es \<longleftrightarrow>
     (\<exists>e. es = [Helm_Init ''gpu-operator'' ''secret'' (Some e)] \<and>
        r = Done (Some (Wrap_Err ''initialising helm action config'' e))) \<or>
     (\<exists>e. es = [Helm_Init ''gpu-operator'' ''secret'' None, Helm_List [ListDeployed, ListFailed] (Inl e)] \<and>
        r = Done (Some (Wrap_Err ''listing helm releases'' e))) \<or>
     (\<exists>rs. es = [Helm_Init ''gpu-operator'' ''secret'' None, Helm_List [ListDeployed, ListFailed] (Inr rs)] \<and>
        r = Done None)"

section \<open>Convergence\<close>

context helm_store
begin

lemma converged_status:
  assumes "converged data vals h" and "rel \<in> set (releases h)" and "rel_name rel = release_name"
  shows "has_status StatusDeployed rel"
    and "\<exists>chrt. sdk_load_archive H data = Inr chrt \<and> release_up_to_date (sdk_float_text H) rel chrt vals = Done True"
proof -
  from assms(1) obtain chrt rel' where "sdk_load_archive H data = Inr chrt" "rel' \<in> set (releases h)"
    "rel_name rel' = release_name" "release_up_to_date (sdk_float_text H) rel' chrt vals = Done True"
    unfolding converged_def by blast
  moreover with assms(2,3) have "rel' = rel" by (auto intro: same_name)
  ultimately show "has_status StatusDeployed rel"
    and "\<exists>chrt. sdk_load_archive H data = Inr chrt \<and> release_up_to_date (sdk_float_text H) rel chrt vals = Done True"
    by (auto simp: up_to_date_iff has_status_def)
qed

lemma converged_present: "converged data vals h \<Longrightarrow> \<exists>rel \<in> set (releases h). rel_name rel = release_name"
  unfolding converged_def by blast

text \<open>While our release is deployed nothing is pending: the recovery only lists.\<close>

lemma wp_recover_settled:
  assumes settled: "\<And>rel. rel \<in> set (releases (world s)) \<Longrightarrow> rel_name rel = release_name \<Longrightarrow> has_status StatusDeployed rel"
    and post: "\<And>r t es. r = Done None \<or> (\<exists>e. r = Done (Some e)) \<Longrightarrow> releases (world t) = releases (world s) \<Longrightarrow>
      log t = log s @ es \<Longrightarrow> list_all (\<lambda>e. \<not> helm_write e) es \<Longrightarrow> Q r t"
  shows "wp (recover_pending H) Q s"
  unfolding recover_pending_def wp_simps
proof (rule wp_list)
  fix rs and t :: "('h, helm_event) st"
  assume t: "releases (world t) = releases (world s)"
    "log t = log s @ [Helm_List [ListPendingInstall, ListPendingUpgrade] (Inr rs)]"
    and rs: "set rs = {rel \<in> set (releases (world s)). listed [ListPendingInstall, ListPendingUpgrade] rel}"
  have "\<forall>r \<in> set rs. rel_name r \<noteq> release_name"
    using settled status_unique by (fastforce simp: rs)
  with t show "(case Inr rs of
      Inl e \<Rightarrow> Q (Done (Some (Wrap_Err ''listing pending releases'' e)))
    | Inr releases \<Rightarrow> wp (recover_each H releases) Q) t"
    by (simp add: recover_each_other wp_simps post)
qed (simp add: post)

lemma wp_recover_converged:
  assumes "converged data vals (world s)"
    and "\<And>r t es. r = Done None \<or> (\<exists>e. r = Done (Some e)) \<Longrightarrow> converged data vals (world t) \<Longrightarrow>
      log t = log s @ es \<Longrightarrow> list_all (\<lambda>e. \<not> helm_write e) es \<Longrightarrow> Q r t"
  shows "wp (recover_pending H) Q s"
  by (rule wp_recover_settled)
     (use converged_status(1) [OF assms(1)] assms(2) converged_keep [OF _ assms(1)] in blast)+

lemma wp_current_release:
  assumes "\<And>e t. releases (world t) = releases (world s) \<Longrightarrow>
      log t = log s @ [Helm_List [ListDeployed, ListFailed] (Inl e)] \<Longrightarrow> Q (Inl (Wrap_Err ''listing helm releases'' e)) t"
    and "\<And>t rs. releases (world t) = releases (world s) \<Longrightarrow>
      log t = log s @ [Helm_List [ListDeployed, ListFailed] (Inr rs)] \<Longrightarrow>
      \<forall>rel \<in> set (releases (world s)). rel_name rel = release_name \<longrightarrow> \<not> listed [ListDeployed, ListFailed] rel \<Longrightarrow>
      Q (Inr None) t"
    and "\<And>t rs rel. releases (world t) = releases (world s) \<Longrightarrow>
      log t = log s @ [Helm_List [ListDeployed, ListFailed] (Inr rs)] \<Longrightarrow>
      rel \<in> set (releases (world s)) \<Longrightarrow> rel_name rel = release_name \<Longrightarrow> listed [ListDeployed, ListFailed] rel \<Longrightarrow>
      Q (Inr (Some rel)) t"
  shows "wp (current_release H) Q s"
  unfolding current_release_def wp_simps
proof (rule wp_list)
  fix rs and t :: "('h, helm_event) st"
  assume t: "releases (world t) = releases (world s)" "log t = log s @ [Helm_List [ListDeployed, ListFailed] (Inr rs)]"
    and rs: "set rs = {rel \<in> set (releases (world s)). listed [ListDeployed, ListFailed] rel}"
  show "(case Inr rs of Inl e \<Rightarrow> Q (Inl (Wrap_Err ''listing helm releases'' e))
      | Inr releases \<Rightarrow> Q (Inr (find_release releases))) t"
  proof (cases "find_release rs")
    case None
    then have "\<forall>r \<in> set rs. rel_name r \<noteq> release_name" by (simp add: find_release_None_iff)
    with None show ?thesis using assms(2) [OF t] rs by auto
  next
    case (Some rel)
    then show ?thesis using assms(3) [OF t] rs find_release_SomeD [OF Some] by auto
  qed
qed (simp add: assms(1))

lemma wp_install_call:
  assumes "\<And>e t. (e = None \<Longrightarrow> \<exists>rel \<in> set (releases (world t)). stored H (io_release_name opts) chrt vals rel) \<Longrightarrow> Q e t"
  shows "wp (call (sdk_install H opts chrt vals) ev) Q s"
  using assms install_stores [of opts chrt vals "world s"] by (simp add: wp_call split: prod.split)

lemma wp_upgrade_call:
  assumes "\<And>e t. (e = None \<Longrightarrow> \<exists>rel \<in> set (releases (world t)). stored H name chrt vals rel) \<Longrightarrow> Q e t"
  shows "wp (call (sdk_upgrade H opts name chrt vals) ev) Q s"
  using assms upgrade_stores [of opts name chrt vals "world s"] by (simp add: wp_call split: prod.split)

text \<open>
  A call that succeeds leaves the release deployed, with the wanted values if it reported no
  change or they can be stored; so the store is converged in the latter case.
\<close>

definition in_place :: "string \<Rightarrow> gomap \<Rightarrow> bool \<Rightarrow> 'h \<Rightarrow> bool" where
  "in_place data vals changed h \<longleftrightarrow> (\<exists>rel \<in> set (releases h). deployed_with data rel \<and>
     (storable vals \<or> \<not> changed \<longrightarrow> values_equal (sdk_float_text H) (rel_config rel) vals))"

lemma wp_call_in_place:
  "wp (client_install_or_upgrade H data vals) (\<lambda>r t. \<forall>b. r = Done (Inr b) \<longrightarrow> in_place data vals b (world t)) s"
proof -
  have kept: "in_place data vals b (world t)"
    if "sdk_load_archive H data = Inr chrt" "releases (world t) = releases (world u)" "rel \<in> set (releases (world u))"
      "rel_name rel = release_name" "release_up_to_date (sdk_float_text H) rel chrt vals = Done True"
    for chrt rel b and t u :: "('h, helm_event) st"
    using up_to_date_deployed [OF that(1,4,5)] that(2,3) by (auto simp: in_place_def)
  have fresh: "in_place data vals True (world t)"
    if "sdk_load_archive H data = Inr chrt" "rel \<in> set (releases (world t))" "stored H release_name chrt vals rel"
    for chrt rel and t :: "('h, helm_event) st"
    using stored_deployed [OF that(1,3)] that(2) up_to_date_deployed [OF that(1)]
      stored_up_to_date [OF that(3) archive_has_metadata [OF that(1)]] that(3)
    by (auto simp: in_place_def stored_def)
  show ?thesis
    unfolding client_install_or_upgrade_def action_config_def load_chart_def helm_install_def helm_upgrade_def Let_def
    by (auto simp: wp_simps wrap_opt_def split: helm_splits
        intro!: wp_init wp_emits [OF emits_recover_pending] wp_current_release
          wp_install_call wp_upgrade_call) (blast intro: kept fresh)+
qed

lemma in_place_converged: "in_place data vals changed h \<Longrightarrow> storable vals \<Longrightarrow> converged data vals h"
  unfolding in_place_def converged_def deployed_with_def by (fastforce simp: up_to_date_iff has_status_def)

lemma wp_call_converges:
  assumes "storable vals"
  shows "wp (client_install_or_upgrade H data vals)
    (\<lambda>r t. (\<exists>b. r = Done (Inr b)) \<longrightarrow> converged data vals (world t)) s"
  by (rule wp_mono [OF wp_call_in_place]) (use in_place_converged assms in blast)

lemma wp_current_converged:
  assumes "converged data vals (world s)" and "sdk_load_archive H data = Inr chrt"
    and error: "\<And>e t es. converged data vals (world t) \<Longrightarrow> log t = log s @ es \<Longrightarrow>
      list_all (\<lambda>e. \<not> helm_write e) es \<Longrightarrow> Q (Inl e) t"
    and found: "\<And>rel t es. converged data vals (world t) \<Longrightarrow> log t = log s @ es \<Longrightarrow>
      list_all (\<lambda>e. \<not> helm_write e) es \<Longrightarrow>
      release_up_to_date (sdk_float_text H) rel chrt vals = Done True \<Longrightarrow> Q (Inr (Some rel)) t"
  shows "wp (current_release H) Q s"
proof (rule wp_current_release)
  fix e and t :: "('h, helm_event) st"
  assume t: "releases (world t) = releases (world s)" "log t = log s @ [Helm_List [ListDeployed, ListFailed] (Inl e)]"
  show "Q (Inl (Wrap_Err ''listing helm releases'' e)) t"
    by (rule error [OF converged_keep [OF t(1) assms(1)] t(2)]) simp
next
  fix t :: "('h, helm_event) st"
  assume "\<forall>rel \<in> set (releases (world s)). rel_name rel = release_name \<longrightarrow> \<not> listed [ListDeployed, ListFailed] rel"
  then show "Q (Inr None) t"
    using converged_present [OF assms(1)] converged_status(1) [OF assms(1)] by auto
next
  fix t :: "('h, helm_event) st" and rs rel
  assume t: "releases (world t) = releases (world s)" "log t = log s @ [Helm_List [ListDeployed, ListFailed] (Inr rs)]"
    and rel: "rel \<in> set (releases (world s))" "rel_name rel = release_name"
  show "Q (Inr (Some rel)) t"
    using converged_status(2) [OF assms(1) rel] assms(2)
    by (intro found [OF converged_keep [OF t(1) assms(1)] t(2)]) auto
qed

text \<open>On a converged store a call with the same arguments changes nothing.\<close>

lemma wp_call_converged:
  assumes "converged data vals (world s)"
  shows "wp (client_install_or_upgrade H data vals)
    (\<lambda>r t. (r = Done (Inr False) \<or> (\<exists>e. r = Done (Inl e))) \<and> converged data vals (world t) \<and>
       (\<exists>es. log t = log s @ es \<and> list_all (\<lambda>e. \<not> helm_write e) es)) s"
proof -
  have keep: "converged data vals (world u)" if "releases (world u) = releases (world t)" "converged data vals (world t)"
    for t u :: "('h, helm_event) st"
    using that by (rule converged_keep)
  from assms obtain chrt where load: "sdk_load_archive H data = Inr chrt" by (auto simp: converged_def)
  with assms show ?thesis
    unfolding client_install_or_upgrade_def action_config_def load_chart_def
    by (auto simp: wp_simps wrap_opt_def split: option.split
        intro!: wp_init wp_recover_converged wp_current_converged [OF _ load];
        auto simp: wp_simps intro: keep split: run.split bool.split)
qed

text \<open>Removing the release: afterwards no release of ours is deployed or failed.\<close>

lemma wp_uninstall_call:
  assumes "\<And>e t. (e = None \<Longrightarrow> set (releases (world t)) = {rel \<in> set (releases (world s)). rel_name rel \<noteq> name}) \<Longrightarrow> Q e t"
  shows "wp (call (sdk_uninstall H wait name) ev) Q s"
  using assms uninstall_removes [of wait name "world s"] by (simp add: wp_call split: prod.split)

definition removed :: "'h \<Rightarrow> bool" where
  "removed h \<longleftrightarrow> (\<forall>rel \<in> set (releases h). rel_name rel = release_name \<longrightarrow> \<not> listed [ListDeployed, ListFailed] rel)"

lemma wp_client_uninstall:
  "wp (client_uninstall H) (\<lambda>r t. r = Done None \<longrightarrow> removed (world t)) s"
  unfolding client_uninstall_def action_config_def removed_def
  by (auto simp: wp_simps wrap_opt_def split: option.split
      intro!: wp_init wp_current_release wp_uninstall_call)

lemma wp_uninstall_pending:
  assumes "removed (world s)"
  shows "wp (client_uninstall H)
    (\<lambda>r t. releases (world t) = releases (world s) \<and> (\<exists>es. log t = log s @ es \<and> found_nothing r es)) s"
  using assms unfolding client_uninstall_def action_config_def removed_def
  by (auto simp: wp_simps wrap_opt_def found_nothing_def release_namespace_def split: option.split
      intro!: wp_init wp_current_release)

text \<open>A release in a state that neither listing asks for is taken for absent.\<close>

lemma wp_unlisted_release:
  assumes "\<forall>rel \<in> set (releases (world s)). rel_name rel = release_name \<longrightarrow>
      \<not> listed [ListPendingInstall, ListPendingUpgrade, ListDeployed, ListFailed] rel"
  shows "wp (client_install_or_upgrade H data vals) (\<lambda>r t. \<exists>es. log t = log s @ es \<and> list_all only_installs es) s"
proof -
  have skip: "recover_each H rs = State_Monad.return (Done None)"
    if "set rs = {rel \<in> set (releases h). listed [ListPendingInstall, ListPendingUpgrade] rel}"
      and "releases h = releases (world s)" for rs h
    using assms that by (intro recover_each_other) auto
  show ?thesis
    using assms unfolding client_install_or_upgrade_def action_config_def recover_pending_def load_chart_def
      helm_install_def Let_def
    by (auto simp: wp_simps wrap_opt_def skip split: option.split sum.split
        intro!: wp_init wp_list wp_current_release
          wp_any_call [where f = "sdk_install H opts chrt vals" for opts chrt])
qed

end

section \<open>What the client can do to the rest of the cluster\<close>

text \<open>
  The world of the SDK is the cluster, of which the releases are a part. If every request of the
  SDK that satisfies \<open>E\<close> moves it by a step of \<open>P\<close>, so does the client.
\<close>

definition sdk_moves :: "('h \<Rightarrow> 'h \<Rightarrow> bool) \<Rightarrow> (helm_event \<Rightarrow> bool) \<Rightarrow> 'h helm_sdk \<Rightarrow> bool" where
  "sdk_moves P E H \<longleftrightarrow> reflp P \<and> transp P \<and>
     (\<forall>ns driver. moves P E (call (sdk_init H ns driver) (Helm_Init ns driver))) \<and>
     (\<forall>states. moves P E (call (sdk_list H states) (Helm_List states))) \<and>
     (\<forall>name. moves P E (call (sdk_rollback H name) (Helm_Rollback name))) \<and>
     (\<forall>wait name. moves P E (call (sdk_uninstall H wait name) (Helm_Uninstall wait name))) \<and>
     (\<forall>opts chrt vals. moves P E (call (sdk_install H opts chrt vals) (Helm_Install opts chrt vals))) \<and>
     (\<forall>opts name chrt vals. moves P E (call (sdk_upgrade H opts name chrt vals) (Helm_Upgrade opts name chrt vals)))"

lemma moves_recover_each:
  assumes "sdk_moves P E H"
  shows "moves P E (recover_each H rs)"
proof -
  have rules: "reflp P" "transp P" using assms by (simp_all add: sdk_moves_def)
  show ?thesis
    using assms by (induction rs)
      (auto simp: sdk_moves_def intro!: rules moves_return moves_bind [OF rules(2)] split: option.split)
qed

lemma moves_client:
  assumes "sdk_moves P E H"
  shows "moves P E (client_install_or_upgrade H data vals)" and "moves P E (client_uninstall H)"
proof -
  have "reflp P" "transp P" using assms by (simp_all add: sdk_moves_def)
  note rules = this moves_recover_each [OF assms] moves_return moves_bind [OF \<open>transp P\<close>]
  show "moves P E (client_install_or_upgrade H data vals)"
    using assms
    unfolding client_install_or_upgrade_def action_config_def recover_pending_def current_release_def
      helm_install_def helm_upgrade_def Let_def
    by (auto simp: sdk_moves_def intro!: rules split: helm_splits)
  show "moves P E (client_uninstall H)"
    using assms unfolding client_uninstall_def action_config_def current_release_def
    by (auto simp: sdk_moves_def intro!: rules split: helm_splits)
qed

section \<open>The contract of the Installer interface\<close>

text \<open>
  What \<open>interface.go\<close> promises of InstallOrUpgrade, for any implementation: success leaves the
  chart installed with the values, and once it is, a call reports no change or an error.
\<close>

locale installer_contract =
  fixes I :: "'w installer" and installed :: "string \<Rightarrow> gomap \<Rightarrow> 'w \<Rightarrow> bool" and storable_values :: "gomap \<Rightarrow> bool"
  assumes success_installs: "storable_values vals \<Longrightarrow>
      install_or_upgrade_op I data vals w = (Done (Inr b), w') \<Longrightarrow> installed data vals w'"
    and installed_stays: "installed data vals w \<Longrightarrow> install_or_upgrade_op I data vals w = (r, w') \<Longrightarrow>
      installed data vals w' \<and> (r = Done (Inr False) \<or> (\<exists>e. r = Done (Inl e)))"
begin

text \<open>Any number of further calls with the same arguments.\<close>

fun calls :: "string \<Rightarrow> gomap \<Rightarrow> nat \<Rightarrow> 'w \<Rightarrow> (err + bool) run list" where
  "calls data vals 0 w = []"
| "calls data vals (Suc n) w =
     (case install_or_upgrade_op I data vals w of (r, w') \<Rightarrow> r # calls data vals n w')"

lemma installed_calls:
  "installed data vals w \<Longrightarrow> list_all (\<lambda>r. r = Done (Inr False) \<or> (\<exists>e. r = Done (Inl e))) (calls data vals n w)"
  by (induction n arbitrary: w) (auto split: prod.split dest: installed_stays)

lemma at_most_one_change:
  assumes "storable_values vals" and "install_or_upgrade_op I data vals w = (Done (Inr b), w')"
  shows "list_all (\<lambda>r. r = Done (Inr False) \<or> (\<exists>e. r = Done (Inl e))) (calls data vals n w')"
  using success_installs [OF assms] by (rule installed_calls)

end

lemma wp_result_world: "wp m Q (start w) \<longleftrightarrow> Q (result_of m w) (snd (run_state m (start w)))"
  by (simp add: wp_def result_of_def split: prod.split)

sublocale helm_store \<subseteq> inst: installer_contract "helm_installer H" converged storable
proof
  fix data vals and w w' :: 'h and b
  assume storable: "storable vals"
    and "install_or_upgrade_op (helm_installer H) data vals w = (Done (Inr b), w')"
  then have call: "result_of (client_install_or_upgrade H data vals) w = Done (Inr b)"
    "w' = world (snd (run_state (client_install_or_upgrade H data vals) (start w)))"
    by (auto simp: helm_installer_def world_of_def)
  then show "converged data vals w'"
    using wp_call_converges [OF storable, of data "start w", unfolded wp_result_world] by simp
next
  fix data vals and w w' :: 'h and r
  assume conv: "converged data vals w"
    and "install_or_upgrade_op (helm_installer H) data vals w = (r, w')"
  then have call: "r = result_of (client_install_or_upgrade H data vals) w"
    "w' = world (snd (run_state (client_install_or_upgrade H data vals) (start w)))"
    by (auto simp: helm_installer_def world_of_def)
  have "converged data vals (world (start w :: ('h, helm_event) st))" using conv by simp
  from wp_call_converged [OF this, unfolded wp_result_world] call
  show "converged data vals w' \<and> (r = Done (Inr False) \<or> (\<exists>e. r = Done (Inl e)))" by simp
qed

context helm_store
begin

lemma store_contract:
  "installer_contract (helm_installer H) converged storable"
  by (rule inst.installer_contract_axioms)

lemma the_release:
  assumes "rel \<in> set (releases h)" and "rel_name rel = release_name"
  shows "(\<forall>r \<in> set (releases h). rel_name r = release_name \<longrightarrow> P r) \<longleftrightarrow> P rel"
  using assms same_name by metis

end

end
