(* ===== verification/Helm_Memory.thy ===== *)
theory Helm_Memory
  imports Helm_Store
begin

text \<open>
  A release store in memory that behaves as Helm documents it: the revisions of every release,
  newest first. It interprets \<open>helm_store\<close>, and through it the contract of the Installer
  interface; the properties of the Helm client follow.
\<close>

section \<open>The store\<close>

record mem =
  mem_revisions :: "release list"

fun latest :: "release list \<Rightarrow> release list" where
  "latest [] = []"
| "latest (r # rs) = r # filter (\<lambda>s. rel_name s \<noteq> rel_name r) (latest rs)"

definition deployed_release :: "string \<Rightarrow> helm_chart \<Rightarrow> gomap \<Rightarrow> release" where
  "deployed_release name chrt vals =
     \<lparr>rel_name = name, rel_info = Some \<lparr>info_status = ''deployed''\<rparr>, rel_chart = Some chrt, rel_config = vals\<rparr>"

definition mem_add :: "release \<Rightarrow> mem \<Rightarrow> mem" where
  "mem_add r m = m\<lparr>mem_revisions := r # mem_revisions m\<rparr>"

definition mem_install :: "install_options \<Rightarrow> helm_chart \<Rightarrow> gomap \<Rightarrow> mem \<Rightarrow> err option \<times> mem" where
  "mem_install opts chrt vals m =
     (if io_release_name opts \<in> rel_name ` set (mem_revisions m)
      then (Some (Errorf ''cannot re-use a name that is still in use''), m)
      else (None, mem_add (deployed_release (io_release_name opts) chrt vals) m))"

text \<open>The newest revision that was deployed.\<close>

fun last_deployed :: "string \<Rightarrow> release list \<Rightarrow> release option" where
  "last_deployed name [] = None"
| "last_deployed name (r # rs) =
     (if rel_name r = name \<and> has_status ''deployed'' r then Some r else last_deployed name rs)"

text \<open>
  The configuration that an upgrade with empty values takes over: the one of the newest deployed
  revision, or of the newest one.
\<close>

definition mem_current_config :: "string \<Rightarrow> mem \<Rightarrow> gomap" where
  "mem_current_config name m =
     (case last_deployed name (mem_revisions m) of
        Some r \<Rightarrow> rel_config r
      | None \<Rightarrow> (case find (\<lambda>r. rel_name r = name) (mem_revisions m) of Some r \<Rightarrow> rel_config r | None \<Rightarrow> None))"

definition mem_upgrade :: "upgrade_options \<Rightarrow> string \<Rightarrow> helm_chart \<Rightarrow> gomap \<Rightarrow> mem \<Rightarrow> err option \<times> mem" where
  "mem_upgrade opts name chrt vals m =
     (if list_ex (\<lambda>r. rel_name r = name \<and> listed [ListDeployed, ListFailed] r) (latest (mem_revisions m))
      then (None, mem_add (deployed_release name chrt (if map_len vals = 0 then mem_current_config name m else vals)) m)
      else (Some (Errorf ''another operation is in progress''), m))"

text \<open>A rollback deploys the newest revision that was deployed, again.\<close>

definition mem_rollback :: "string \<Rightarrow> mem \<Rightarrow> err option \<times> mem" where
  "mem_rollback name m =
     (case last_deployed name (mem_revisions m) of
        None \<Rightarrow> (Some (Errorf ''release has no previous revision''), m)
      | Some r \<Rightarrow> (None, mem_add r m))"

definition mem_uninstall :: "bool \<Rightarrow> string \<Rightarrow> mem \<Rightarrow> err option \<times> mem" where
  "mem_uninstall wait name m =
     (if name \<in> rel_name ` set (mem_revisions m)
      then (None, m\<lparr>mem_revisions := filter (\<lambda>r. rel_name r \<noteq> name) (mem_revisions m)\<rparr>)
      else (Some (Errorf ''release: not found''), m))"

definition mem_sdk :: "mem helm_sdk" where
  "mem_sdk =
     \<lparr>sdk_init = (\<lambda>ns driver m. (None, m)),
      sdk_list = (\<lambda>states m. (Inr (filter (listed states) (latest (mem_revisions m))), m)),
      sdk_rollback = mem_rollback, sdk_uninstall = mem_uninstall,
      sdk_install = mem_install, sdk_upgrade = mem_upgrade,
      sdk_load_archive = (\<lambda>data. Inr \<lparr>chart_metadata_of = Some \<lparr>md_version = data\<rparr>, chart_content = data\<rparr>),
      sdk_float_text = (\<lambda>m e. show_int m @ ''e'' @ show_int e)\<rparr>"

definition mem_releases :: "mem \<Rightarrow> release list" where
  "mem_releases m = latest (mem_revisions m)"

lemma set_latest_subset: "set (latest rs) \<subseteq> set rs"
  by (induction rs) auto

lemma distinct_latest: "distinct (map rel_name (latest rs))"
  by (induction rs) (auto simp: distinct_map inj_on_def dest: distinct_filter)

lemma latest_filter: "latest (filter (\<lambda>r. rel_name r \<noteq> n) rs) = filter (\<lambda>r. rel_name r \<noteq> n) (latest rs)"
  by (induction rs) (auto intro: filter_cong)

lemma last_deployed_Some: "last_deployed name rs = Some r \<Longrightarrow> rel_name r = name \<and> has_status ''deployed'' r"
  by (induction rs) (auto split: if_splits)

lemma deployed_release_stored: "stored H name chrt vals (deployed_release name chrt vals)"
  by (simp add: stored_def deployed_release_def has_status_def)

lemma storable_nonempty: "storable vals \<Longrightarrow> map_len vals \<noteq> 0"
  by (auto simp: storable_def map_len_def split: option.splits)

lemma deployed_release_kept: "map_len vals = 0 \<Longrightarrow> stored H name chrt vals (deployed_release name chrt config)"
  using storable_nonempty [of vals] by (auto simp: stored_def deployed_release_def has_status_def)

interpretation mem: helm_store mem_sdk mem_releases
proof
  fix m m' :: mem and opts uopts chrt vals name
  show "distinct (map rel_name (mem_releases m))"
    by (simp add: mem_releases_def distinct_latest)
  show "\<exists>rel \<in> set (mem_releases m'). stored mem_sdk (io_release_name opts) chrt vals rel"
    if "sdk_install mem_sdk opts chrt vals m = (None, m')"
    using that deployed_release_stored
    by (auto simp: mem_sdk_def mem_install_def mem_releases_def mem_add_def split: if_splits)
  show "\<exists>rel \<in> set (mem_releases m'). stored mem_sdk name chrt vals rel"
    if "sdk_upgrade mem_sdk uopts name chrt vals m = (None, m')"
    using that deployed_release_stored [of mem_sdk name chrt vals] deployed_release_kept [of vals mem_sdk name chrt]
    by (auto simp: mem_sdk_def mem_upgrade_def mem_releases_def mem_add_def split: if_splits)
  show "\<exists>rel \<in> set (mem_releases m'). rel_name rel = name \<and> has_status StatusDeployed rel"
    if "sdk_rollback mem_sdk name m = (None, m')"
    using that last_deployed_Some
    by (auto simp: mem_sdk_def mem_rollback_def mem_releases_def mem_add_def split: option.splits)
  show "set (mem_releases m') = {rel \<in> set (mem_releases m). rel_name rel \<noteq> name}"
    if "sdk_uninstall mem_sdk wait name m = (None, m')" for wait
    using that by (auto simp: mem_sdk_def mem_uninstall_def mem_releases_def latest_filter split: if_splits)
qed (auto simp: mem_sdk_def mem_releases_def)

section \<open>Runs of the client\<close>

definition mem_values :: gomap where
  "mem_values = Some [(''driver'', Any_Map [(''version'', Any_Str ''595'')])]"

definition mem_empty :: mem where
  "mem_empty = \<lparr>mem_revisions = []\<rparr>"

text \<open>A store whose release was left in some state by an operation that was interrupted.\<close>

definition mem_interrupted :: "string \<Rightarrow> mem" where
  "mem_interrupted status = \<lparr>mem_revisions =
     [\<lparr>rel_name = ''gpu-operator'', rel_info = Some \<lparr>info_status = status\<rparr>, rel_chart = None, rel_config = None\<rparr>]\<rparr>"

lemma mem_storable: "storable mem_values"
  by code_simp

lemma mem_first_run: "result_of (client_install_or_upgrade mem_sdk ''v2'' mem_values) mem_empty = Done (Inr True)"
  by code_simp

section \<open>Properties\<close>

text \<open>C32: Everything the client asks of Helm is about the release and namespace \<open>gpu-operator\<close>: it
  installs, upgrades, rolls back and uninstalls no other release, never waits for pods, and
  bounds the history of every upgrade to 3 revisions.\<close>

theorem helm_calls_scoped:
  "list_all scoped (trace_of (client_install_or_upgrade H data vals) h) \<and>
   list_all scoped (trace_of (client_uninstall H) h)"
  by (simp add: emits_trace emits_client_install emits_client_uninstall)

text \<open>C31: The result \<open>changed\<close> is truthful: it is true exactly when the run made an install or upgrade that
  succeeded, and then that was the last call and the only one of its kind; a call that returns
  without an error returns false exactly when the run made neither. In particular no error (and
  no panic) is returned after an install or upgrade that succeeded.\<close>

theorem changed_is_truthful:
  "truthful (result_of (client_install_or_upgrade H data vals) h) (trace_of (client_install_or_upgrade H data vals) h)"
  using wp_install_truthful [of H data vals h]
  by (simp add: wp_def result_of_def trace_of_def split: prod.splits)

text \<open>C13: Success means installed: when InstallOrUpgrade returns without an error (changed or not),
  the store holds a deployed release \<open>gpu-operator\<close> with the version of the given chart. So a
  failed release is never taken for up to date. Its values are equal to the given ones as JSON
  when the call reports no change, and when the given ones can be stored (they are not empty:
  Helm's upgrade with empty values takes over the values of the release before it; their strings
  are valid UTF-8 and their numbers survive).\<close>

theorem success_means_installed:
  assumes "helm_store H releases" and "result_of (client_install_or_upgrade H data vals) h = Done (Inr changed)"
  shows "\<exists>chrt want rel c md. sdk_load_archive H data = Inr chrt \<and> chart_metadata_of chrt = Some want \<and>
    rel \<in> set (releases (world_of (client_install_or_upgrade H data vals) h)) \<and>
    rel_name rel = ''gpu-operator'' \<and> has_status ''deployed'' rel \<and>
    rel_chart rel = Some c \<and> chart_metadata_of c = Some md \<and> md_version md = md_version want \<and>
    (storable vals \<or> \<not> changed \<longrightarrow> values_equal (sdk_float_text H) (rel_config rel) vals)"
proof -
  have "helm_store.in_place H releases data vals changed (world_of (client_install_or_upgrade H data vals) h)"
    using helm_store.wp_call_in_place [OF assms(1), of data vals "start h", unfolded wp_result_world] assms(2)
    by (simp add: world_of_def)
  then show ?thesis
    unfolding helm_store.in_place_def [OF assms(1)] helm_store.deployed_with_def [OF assms(1)] release_name_def by force
qed

theorem success_means_installed_witness:
  "\<exists>rel \<in> set (mem_releases (world_of (client_install_or_upgrade mem_sdk ''v2'' mem_values) mem_empty)).
     rel_name rel = ''gpu-operator'' \<and> has_status ''deployed'' rel \<and>
     values_equal (sdk_float_text mem_sdk) (rel_config rel) mem_values"
  using success_means_installed [OF mem.helm_store_axioms, OF mem_first_run] mem_storable by fastforce

text \<open>No endless upgrades: after an InstallOrUpgrade that succeeded, every further call with the
  same chart and values, in the state the calls before it left, reports \<open>changed = false\<close> or an
  error, for any number of calls.\<close>

theorem repeated_calls_change_nothing:
  assumes "helm_store H releases" and "storable vals"
    and "result_of (client_install_or_upgrade H data vals) h = Done (Inr changed)"
  shows "list_all (\<lambda>r. r = Done (Inr False) \<or> (\<exists>e. r = Done (Inl e)))
    (installer_contract.calls (helm_installer H) data vals n (world_of (client_install_or_upgrade H data vals) h))"
  using installer_contract.at_most_one_change [OF helm_store.store_contract [OF assms(1)] assms(2), of data h changed] assms(3)
  by (simp add: helm_installer_def)

theorem repeated_calls_change_nothing_witness:
  "list_all (\<lambda>r. r = Done (Inr False) \<or> (\<exists>e. r = Done (Inl e)))
    (installer_contract.calls (helm_installer mem_sdk) ''v2'' mem_values 3
      (world_of (client_install_or_upgrade mem_sdk ''v2'' mem_values) mem_empty))"
  by (rule repeated_calls_change_nothing [OF mem.helm_store_axioms, OF mem_storable mem_first_run])

text \<open>After an Uninstall that returned without an error the store has no release \<open>gpu-operator\<close>
  that is deployed or failed: either there was none or Helm removed it.\<close>

theorem uninstall_removes_release:
  assumes "helm_store H releases" and "result_of (client_uninstall H) h = Done None"
    and "rel \<in> set (releases (world_of (client_uninstall H) h))" and "rel_name rel = ''gpu-operator''"
  shows "\<not> has_status ''deployed'' rel \<and> \<not> has_status ''failed'' rel"
proof -
  have "helm_store.removed releases (world_of (client_uninstall H) h)"
    using helm_store.wp_client_uninstall [OF assms(1), of "start h", unfolded wp_result_world] assms(2)
    by (simp add: world_of_def)
  with assms(3,4) show ?thesis
    by (simp add: helm_store.removed_def [OF assms(1)] release_name_def)
qed

lemma mem_uninstall_run:
  "result_of (client_uninstall mem_sdk) (mem_interrupted ''uninstalling'') = Done None"
  "mem_releases (world_of (client_uninstall mem_sdk) (mem_interrupted ''uninstalling'')) =
     mem_releases (mem_interrupted ''uninstalling'')"
  by code_simp+

theorem uninstall_removes_release_witness:
  "\<not> has_status ''deployed'' (hd (mem_revisions (mem_interrupted ''uninstalling'')))"
proof -
  have "hd (mem_revisions (mem_interrupted ''uninstalling''))
      \<in> set (mem_releases (world_of (client_uninstall mem_sdk) (mem_interrupted ''uninstalling'')))"
    unfolding mem_uninstall_run(2) by (simp add: mem_releases_def mem_interrupted_def)
  from uninstall_removes_release [OF mem.helm_store_axioms, OF mem_uninstall_run(1) this]
  show ?thesis by (simp add: mem_interrupted_def)
qed

text \<open>C35: Uninstall leaves an interrupted release alone: when the release is in any other state
  than deployed or failed (pending-install, pending-upgrade, uninstalling), the run is an
  initialisation and a listing, asks Helm to remove nothing and leaves the releases as they were;
  it returns nil when both requests succeed, and otherwise the wrapped error of the one that failed.\<close>

theorem uninstall_skips_interrupted:
  assumes "helm_store H releases" and "rel \<in> set (releases h)" and "rel_name rel = ''gpu-operator''"
    and "\<not> has_status ''deployed'' rel" and "\<not> has_status ''failed'' rel"
  shows "found_nothing (result_of (client_uninstall H) h) (trace_of (client_uninstall H) h) \<and>
    releases (world_of (client_uninstall H) h) = releases h"
proof -
  have "helm_store.removed releases h"
    using assms helm_store.the_release [OF assms(1,2)]
    by (simp add: helm_store.removed_def [OF assms(1)] release_name_def)
  then show ?thesis
    using helm_store.wp_uninstall_pending [OF assms(1), of "start h", unfolded wp_result_world]
    by (simp add: world_of_def trace_of_def)
qed

theorem uninstall_skips_interrupted_witness:
  "result_of (client_uninstall mem_sdk) (mem_interrupted ''pending-upgrade'') = Done None \<and>
   hd (mem_revisions (mem_interrupted ''pending-upgrade'')) \<in>
     set (mem_releases (world_of (client_uninstall mem_sdk) (mem_interrupted ''pending-upgrade'')))"
proof -
  let ?m = "mem_interrupted ''pending-upgrade''"
  have there: "hd (mem_revisions ?m) \<in> set (mem_releases ?m)"
    by (simp add: mem_interrupted_def mem_releases_def)
  note law = uninstall_skips_interrupted [OF mem.helm_store_axioms, OF this]
  have "trace_of (client_uninstall mem_sdk) ?m = [Helm_Init ''gpu-operator'' ''secret'' None,
      Helm_List [ListDeployed, ListFailed] (Inr [])]"
    by code_simp
  with law there show ?thesis by (simp add: found_nothing_def mem_interrupted_def has_status_def)
qed

text \<open>C36: Recovery knows two states only: when the release is in a state other than deployed, failed,
  pending-install and pending-upgrade (such as pending-rollback, left by a crash during the
  recovery itself), InstallOrUpgrade neither rolls back nor uninstalls nor upgrades; the only
  change it can ask for is an install, although a release of that name exists.\<close>

theorem other_states_not_recovered:
  assumes "helm_store H releases" and "rel \<in> set (releases h)" and "rel_name rel = ''gpu-operator''"
    and "\<not> listed [ListPendingInstall, ListPendingUpgrade, ListDeployed, ListFailed] rel"
  shows "list_all only_installs (trace_of (client_install_or_upgrade H data vals) h)"
proof -
  have "\<forall>r \<in> set (releases h). rel_name r = release_name \<longrightarrow>
      \<not> listed [ListPendingInstall, ListPendingUpgrade, ListDeployed, ListFailed] r"
    using assms helm_store.the_release [OF assms(1,2)] by (simp add: release_name_def)
  then show ?thesis
    using helm_store.wp_unlisted_release [OF assms(1), of "start h", unfolded wp_result_world]
    by (simp add: trace_of_def)
qed

theorem other_states_not_recovered_witness:
  "list_all only_installs (trace_of (client_install_or_upgrade mem_sdk ''v2'' mem_values) (mem_interrupted ''pending-rollback'')) \<and>
   result_of (client_install_or_upgrade mem_sdk ''v2'' mem_values) (mem_interrupted ''pending-rollback'') =
     Done (Inl (Wrap_Err ''installing gpu-operator'' (Errorf ''cannot re-use a name that is still in use'')))"
proof -
  let ?m = "mem_interrupted ''pending-rollback''"
  have "hd (mem_revisions ?m) \<in> set (mem_releases ?m)"
    by (simp add: mem_interrupted_def mem_releases_def)
  from other_states_not_recovered [OF mem.helm_store_axioms, OF this]
  have "list_all only_installs (trace_of (client_install_or_upgrade mem_sdk ''v2'' mem_values) ?m)"
    by (simp add: mem_interrupted_def has_status_def)
  moreover have "result_of (client_install_or_upgrade mem_sdk ''v2'' mem_values) ?m =
     Done (Inl (Wrap_Err ''installing gpu-operator'' (Errorf ''cannot re-use a name that is still in use'')))"
    by code_simp
  ultimately show ?thesis by blast
qed

end
