(* ===== verification/Rest_Getter.thy ===== *)
theory Rest_Getter
  imports Helm_Memory
begin

text \<open>
  The connection of the Helm client to the cluster: \<open>internal/helm/restclientgetter.go\<close>, and
  \<open>NewClient\<close>, \<open>newRESTClientGetter\<close> and \<open>noopLog\<close> of \<open>internal/helm/installer.go\<close>. The getter
  answers Helm's four questions from one REST configuration and one namespace; the constructors
  of the client libraries are parameters. \<open>connect\<close> is Helm's SDK as the client initialises it;
  it keeps the contract \<open>helm_store\<close>, so what is proved of the client holds of the connected one.
\<close>

section \<open>The libraries\<close>

text \<open>\<open>clientcmdapi.Config{}\<close>, \<open>clientcmdapi.Context\<close> and \<open>clientcmd.ConfigOverrides\<close>.\<close>

datatype api_config = Empty_Config

record kube_context =
  cx_cluster :: string
  cx_auth_info :: string
  cx_namespace :: string

record config_overrides =
  co_context :: kube_context
  co_current_context :: string

record ('c, 'd, 'cached, 'm, 'k) client_libs =
  new_discovery_client :: "'c \<Rightarrow> err + 'd"
  new_mem_cache_client :: "'d \<Rightarrow> 'cached"
  new_deferred_mapper :: "'cached \<Rightarrow> 'm"
  new_default_client_config :: "api_config \<Rightarrow> config_overrides \<Rightarrow> 'k"

section \<open>The getter\<close>

record 'c rest_config_getter =
  getter_cfg :: 'c
  getter_namespace :: string

definition to_rest_config :: "'c rest_config_getter \<Rightarrow> err + 'c" where
  "to_rest_config r = Inr (getter_cfg r)"

definition to_discovery_client ::
  "('c, 'd, 'cached, 'm, 'k) client_libs \<Rightarrow> 'c rest_config_getter \<Rightarrow> err + 'cached" where
  "to_discovery_client L r =
     (case new_discovery_client L (getter_cfg r) of
        Inl e \<Rightarrow> Inl e
      | Inr dc \<Rightarrow> Inr (new_mem_cache_client L dc))"

definition to_rest_mapper ::
  "('c, 'd, 'cached, 'm, 'k) client_libs \<Rightarrow> 'c rest_config_getter \<Rightarrow> err + 'm" where
  "to_rest_mapper L r =
     (case to_discovery_client L r of
        Inl e \<Rightarrow> Inl e
      | Inr dc \<Rightarrow> Inr (new_deferred_mapper L dc))"

definition to_raw_kube_config_loader ::
  "('c, 'd, 'cached, 'm, 'k) client_libs \<Rightarrow> 'c rest_config_getter \<Rightarrow> 'k" where
  "to_raw_kube_config_loader L r =
     new_default_client_config L Empty_Config
       \<lparr>co_context = \<lparr>cx_cluster = [], cx_auth_info = [], cx_namespace = getter_namespace r\<rparr>,
        co_current_context = []\<rparr>"

section \<open>The client\<close>

record 'c helm_connection =
  rest_config :: 'c

definition new_client :: "'c \<Rightarrow> 'c helm_connection" where
  "new_client cfg = \<lparr>rest_config = cfg\<rparr>"

definition new_rest_client_getter :: "'c \<Rightarrow> string \<Rightarrow> 'c rest_config_getter" where
  "new_rest_client_getter cfg namespace = \<lparr>getter_cfg = cfg, getter_namespace = namespace\<rparr>"

text \<open>A logger of Helm: a function of the format and the arguments with an effect on the world.\<close>

type_synonym 'h debug_log = "string \<Rightarrow> any list \<Rightarrow> 'h \<Rightarrow> 'h"

definition noop_log :: "'h debug_log" where
  "noop_log fmt args h = h"

text \<open>\<open>action.Configuration.Init\<close>: the getter, the namespace, the storage driver and the logger.\<close>

type_synonym ('c, 'h) config_init =
  "'c rest_config_getter \<Rightarrow> string \<Rightarrow> string \<Rightarrow> 'h debug_log \<Rightarrow> 'h \<Rightarrow> err option \<times> 'h"

definition connect :: "('c, 'h) config_init \<Rightarrow> 'c helm_connection \<Rightarrow> 'h helm_sdk \<Rightarrow> 'h helm_sdk" where
  "connect I c H =
     H\<lparr>sdk_init := (\<lambda>namespace driver.
        I (new_rest_client_getter (rest_config c) release_namespace) namespace driver noop_log)\<rparr>"

lemma connect_sdk [simp]:
  "sdk_list (connect I c H) = sdk_list H" "sdk_rollback (connect I c H) = sdk_rollback H"
  "sdk_uninstall (connect I c H) = sdk_uninstall H" "sdk_install (connect I c H) = sdk_install H"
  "sdk_upgrade (connect I c H) = sdk_upgrade H" "sdk_load_archive (connect I c H) = sdk_load_archive H"
  "sdk_float_text (connect I c H) = sdk_float_text H"
  by (simp_all add: connect_def)

lemma connect_stored [simp]: "stored (connect I c H) = stored H"
  by (simp add: fun_eq_iff stored_def)

text \<open>
  What Helm's \<open>Init\<close> documents: it sets up clients and storage, and does not touch the releases,
  provided that the logger does not.
\<close>

locale connected_store = helm_store H releases
  for H :: "'h helm_sdk" and releases :: "'h \<Rightarrow> release list" +
  fixes I :: "('c, 'h) config_init" and c :: "'c helm_connection"
  assumes init_releases: "(\<And>fmt args h. releases (logger fmt args h) = releases h) \<Longrightarrow>
    I g namespace driver logger h = (e, h') \<Longrightarrow> releases h' = releases h"
begin

lemma connect_init_keeps: "sdk_init (connect I c H) ns driver h = (e, h') \<Longrightarrow> releases h' = releases h"
  using init_releases [of noop_log] by (auto simp: connect_def noop_log_def)

end

sublocale connected_store \<subseteq> connected: helm_store "connect I c H" releases
  by unfold_locales (unfold connect_sdk connect_stored,
    (rule distinct_names connect_init_keeps list_keeps list_shows install_stores upgrade_stores
      uninstall_removes rollback_deploys archive_has_metadata; assumption?)+)

section \<open>One cluster, one namespace\<close>

text \<open>
  The documented rule of clientcmd: a namespace in the overrides wins over any configuration.
\<close>

locale client_config =
  fixes L :: "('c, 'd, 'cached, 'm, 'k) client_libs" and config_namespace :: "'k \<Rightarrow> string"
  assumes override_namespace: "cx_namespace (co_context ov) \<noteq> [] \<Longrightarrow>
    config_namespace (new_default_client_config L base ov) = cx_namespace (co_context ov)"
begin

text \<open>
  Helm's clients work in the namespace in which the release is stored, whatever kubeconfig the
  process has, and talk to the cluster of the manager.
\<close>

lemma getter_namespace_wins:
  "ns \<noteq> [] \<Longrightarrow> config_namespace (to_raw_kube_config_loader L (new_rest_client_getter cfg ns)) = ns"
  by (simp add: to_raw_kube_config_loader_def new_rest_client_getter_def override_namespace)

lemma client_namespace:
  "config_namespace (to_raw_kube_config_loader L
     (new_rest_client_getter (rest_config (new_client cfg)) release_namespace)) = release_namespace"
  by (rule getter_namespace_wins) (simp add: release_namespace_def)

end

text \<open>The mapper and the discovery client fail together, with the same error.\<close>

lemma mapper_discovery:
  "to_rest_mapper L r = map_sum id (new_deferred_mapper L) (to_discovery_client L r)"
  "to_discovery_client L r = map_sum id (new_mem_cache_client L) (new_discovery_client L (getter_cfg r))"
  by (simp_all add: to_rest_mapper_def to_discovery_client_def split: sum.split)

section \<open>Reference libraries\<close>

definition ref_client_libs :: "(string, string, string, string, api_config \<times> config_overrides) client_libs" where
  "ref_client_libs =
     \<lparr>new_discovery_client = (\<lambda>cfg. if cfg = [] then Inl (Errorf ''host must be a URL or a host:port pair'') else Inr cfg),
      new_mem_cache_client = (\<lambda>d. d), new_deferred_mapper = (\<lambda>d. d),
      new_default_client_config = Pair\<rparr>"

definition ref_config_namespace :: "api_config \<times> config_overrides \<Rightarrow> string" where
  "ref_config_namespace k =
     (if cx_namespace (co_context (snd k)) \<noteq> [] then cx_namespace (co_context (snd k)) else ''default'')"

interpretation ref_config: client_config ref_client_libs ref_config_namespace
  by unfold_locales (simp add: ref_client_libs_def ref_config_namespace_def)

text \<open>An \<open>Init\<close> that asks the getter for its clients first, as Helm's does, on the store in memory.\<close>

definition mem_init :: "(string, mem) config_init" where
  "mem_init g namespace driver logger m =
     (case to_rest_mapper ref_client_libs g of
        Inl e \<Rightarrow> (Some e, m)
      | Inr _ \<Rightarrow>
          if driver \<in> set [''secret'', ''configmap'', ''memory''] then (None, logger ''initialised'' [] m)
          else (Some (Errorf ''unknown driver''), m))"

interpretation mem_connected: connected_store mem_sdk mem_releases mem_init "new_client ''https://10.0.0.1''"
  by unfold_locales (auto simp: mem_init_def split: sum.splits if_splits)

lemma connected_run:
  "result_of (client_install_or_upgrade (connect mem_init (new_client ''https://10.0.0.1'') mem_sdk) ''v2'' mem_values) mem_empty
     = Done (Inr True)"
  "result_of (client_install_or_upgrade (connect mem_init (new_client []) mem_sdk) ''v2'' mem_values) mem_empty
     = Done (Inl (Wrap_Err ''initialising helm action config'' (Errorf ''host must be a URL or a host:port pair'')))"
  by code_simp+

end
