(* ===== verification/Protocol.thy ===== *)
theory Protocol
  imports Reconcile
begin

text \<open>
  The protocol of a reconciliation: which write to the cluster is allowed after which calls and
  answers. \<open>justified\<close> lists the status updates with what must have been observed before
  each, \<open>allowed\<close> the policy for every call. The theory proves that the log of every
  reconciliation obeys the policy whatever the cluster, Helm and the API server answer;
  the safety properties are read off from it.
\<close>

section \<open>The policy\<close>

text \<open>The resource as it was read at the beginning.\<close>

fun gpu_read :: "kube_event list \<Rightarrow> gpu option" where
  "gpu_read (Get_Gpu n (Inr g) # past) = Some g"
| "gpu_read _ = None"

definition in_deletion :: "'w kube \<Rightarrow> gpu \<Rightarrow> bool" where
  "in_deletion K g \<longleftrightarrow>
     \<not> is_zero_time (deletion_timestamp g) \<and> has_finalizer K g \<and> gpu_name g = expected_cr_name"

definition in_service :: "'w kube \<Rightarrow> gpu \<Rightarrow> bool" where
  "in_service K g \<longleftrightarrow>
     is_zero_time (deletion_timestamp g) \<and> has_finalizer K g \<and> gpu_name g = expected_cr_name"

text \<open>What the two observations make of the answers of the API server.\<close>

definition driver_answer :: "err + daemon_set list \<Rightarrow> observation \<times> driver_status option" where
  "driver_answer r =
     (case r of
        Inl e \<Rightarrow> ((ConditionFalse, reasonReadError, ''error listing driver DaemonSets: '' @ err_text e),
                  Some empty_driver_status)
      | Inr items \<Rightarrow> observe_daemon_sets items)"

definition policy_answer :: "'w kube \<Rightarrow> err + any \<Rightarrow> observation" where
  "policy_answer K r =
     (case r of
        Inl e \<Rightarrow>
          (if is_not_found K e
           then (ConditionUnknown, reasonWaiting, ''ClusterPolicy not found; GPU Operator may still be starting'')
           else (ConditionFalse, reasonReadError, ''error reading ClusterPolicy: '' @ err_text e))
      | Inr object \<Rightarrow> observe_policy_state (unicode_quote K) (fst (nested_string K object [''status'', ''state''])))"

text \<open>The chain of calls behind a full status report, most recent first.\<close>

definition report_chain ::
  "kube_event list \<Rightarrow> err + any \<Rightarrow> err + daemon_set list \<Rightarrow> node list \<Rightarrow> bool" where
  "report_chain past p d nodes \<longleftrightarrow>
     (\<exists>data vals changed earlier.
        past = earlier @
          [List_Nodes (Inr nodes), Install_Call data vals (Done (Inr changed)),
           List_Daemon_Sets gpu_operator_namespace [(''app'', driver_app_label)] d,
           Get_Object cluster_policy_gvk cluster_policy_name p])"

definition preflight_of :: "'w kube \<Rightarrow> node list \<Rightarrow> preflight_result" where
  "preflight_of K nodes = preflight_nodes (unicode_lower K) nodes"

inductive justified :: "('w, 'v) reconciler \<Rightarrow> kube_event list \<Rightarrow> status_update \<Rightarrow> bool"
  for R :: "('w, 'v) reconciler" where
  rogue: "gpu_name g \<noteq> expected_cr_name \<Longrightarrow>
    justified R [Get_Gpu n (Inr g)] (only_conditions [forbidden_name (r_kube R)])"
| waiting: "pre_outcome (preflight_of (r_kube R) nodes) = OutcomeWarn \<Longrightarrow>
    justified R (past @ [List_Nodes (Inr nodes)])
      (only_conditions [new_condition condPreflight ConditionUnknown reasonWaiting
        (pre_reason (preflight_of (r_kube R) nodes))])"
| unsupported: "pre_outcome (preflight_of (r_kube R) nodes) = OutcomeError \<Longrightarrow>
    justified R (past @ [List_Nodes (Inr nodes)])
      (only_conditions [new_condition condPreflight ConditionFalse reasonFailed
        (pre_reason (preflight_of (r_kube R) nodes))])"
| helm_error: "pre_outcome (preflight_of (r_kube R) nodes) = OutcomeProceed \<Longrightarrow>
    justified R (past @ [List_Nodes (Inr nodes), Install_Call data vals (Done (Inl e))])
      (only_conditions [preflight_passed (pre_os (preflight_of (r_kube R) nodes)), helm_failed e])"
| reported: "pre_outcome (preflight_of (r_kube R) nodes) = OutcomeProceed \<Longrightarrow>
    report_chain past p d nodes \<Longrightarrow> gpu_operator_chart_version (r_assets R) = Inr version \<Longrightarrow>
    justified R past
      (full_update (preflight_passed (pre_os (preflight_of (r_kube R) nodes))) (helm_installed version)
        (fst (driver_answer d)) (policy_answer (r_kube R) p) version (snd (driver_answer d)))"
| deleting: "in_deletion (r_kube R) g \<Longrightarrow>
    justified R [Get_Gpu n (Inr g)] (only_conditions [uninstalling])"
| blocked: "active_workloads pods \<noteq> [] \<Longrightarrow>
    justified R (past @ [List_Pods (Inr pods)]) (only_conditions [deletion_blocked (active_workloads pods)])"

inductive_cases justifiedE: "justified R past upd"

text \<open>The object with the update merged into its status, at the times the clock gave.\<close>

definition merged :: "'w kube \<Rightarrow> (nat \<Rightarrow> time) \<Rightarrow> status_update \<Rightarrow> gpu \<Rightarrow> gpu" where
  "merged K tm upd g = g\<lparr>gpu_status_of := merge_status K tm (generation g) upd (gpu_status_of g)\<rparr>"

text \<open>The last listing of the pods shows no workload in the way, or failed (best effort).\<close>

definition workloads_clear :: "kube_event list \<Rightarrow> bool" where
  "workloads_clear past \<longleftrightarrow>
     (\<exists>earlier r. past = earlier @ [List_Pods r] \<and> (\<forall>pods. r = Inr pods \<longrightarrow> active_workloads pods = []))"

definition uninstalled :: "kube_event list \<Rightarrow> bool" where
  "uninstalled past \<longleftrightarrow> (\<exists>earlier. past = earlier @ [Uninstall_Call (Done None)])"

definition namespace_deleted :: "'w kube \<Rightarrow> kube_event list \<Rightarrow> bool" where
  "namespace_deleted K past \<longleftrightarrow>
     (\<exists>earlier d. past = earlier @ [Delete_Namespace gpu_operator_namespace ''Foreground'' d] \<and>
        uninstalled earlier \<and> (\<forall>e. d = Some e \<longrightarrow> is_not_found K e))"

definition install_allowed :: "('w, 'v) reconciler \<Rightarrow> kube_event list \<Rightarrow> string \<Rightarrow> gomap \<Rightarrow> bool" where
  "install_allowed R past data vals \<longleftrightarrow>
     (\<exists>n g nodes.
        past = [Get_Gpu n (Inr g), List_Nodes (Inr nodes)] \<and> in_service (r_kube R) g \<and>
        pre_outcome (preflight_of (r_kube R) nodes) = OutcomeProceed \<and>
        gpu_operator_chart (r_assets R) = Inr data \<and>
        build_values (r_assets R) (r_yaml R) (gpu_spec_of g)
          \<lparr>cluster_os = pre_os (preflight_of (r_kube R) nodes)\<rparr> = Done (Inr vals))"

definition uninstall_allowed :: "('w, 'v) reconciler \<Rightarrow> kube_event list \<Rightarrow> bool" where
  "uninstall_allowed R past \<longleftrightarrow>
     (\<exists>g. gpu_read past = Some g \<and> in_deletion (r_kube R) g) \<and> workloads_clear past"

definition update_allowed :: "'w kube \<Rightarrow> kube_event list \<Rightarrow> gpu \<Rightarrow> bool" where
  "update_allowed K past g' \<longleftrightarrow>
     (\<exists>n g. past = [Get_Gpu n (Inr g)] \<and> is_zero_time (deletion_timestamp g) \<and>
        gpu_name g = expected_cr_name \<and> \<not> has_finalizer K g \<and> g' = with_finalizer K g) \<or>
     (\<exists>n g. past = [Get_Gpu n (Inr g)] \<and> \<not> is_zero_time (deletion_timestamp g) \<and>
        gpu_name g \<noteq> expected_cr_name \<and> has_finalizer K g \<and> g' = without_finalizer K g) \<or>
     (\<exists>earlier n g. past = earlier @ [Get_Gpu n (Inr g)] \<and> namespace_deleted K earlier \<and>
        n = expected_cr_name \<and> g' = without_finalizer K g)"

definition patch_allowed :: "('w, 'v) reconciler \<Rightarrow> kube_event list \<Rightarrow> gpu \<Rightarrow> gpu \<Rightarrow> bool" where
  "patch_allowed R past live original \<longleftrightarrow>
     (\<exists>earlier n tm upd. past = earlier @ [Get_Gpu n (Inr original)] \<and>
        justified R earlier upd \<and> live = merged (r_kube R) tm upd original)"

fun allowed :: "('w, 'v) reconciler \<Rightarrow> kube_event list \<Rightarrow> kube_event \<Rightarrow> bool" where
  "allowed R past (Install_Call data vals r) = install_allowed R past data vals"
| "allowed R past (Uninstall_Call r) = uninstall_allowed R past"
| "allowed R past (Delete_Namespace name propagation r) =
     (name = gpu_operator_namespace \<and> propagation = ''Foreground'' \<and> uninstalled past \<and>
      (\<exists>g. gpu_read past = Some g \<and> in_deletion (r_kube R) g))"
| "allowed R past (Update_Gpu g r) = update_allowed (r_kube R) past g"
| "allowed R past (Patch_Status live original r) = patch_allowed R past live original"
| "allowed R past _ = True"

text \<open>The calls that change the release or its namespace.\<close>

fun touches_release :: "kube_event \<Rightarrow> bool" where
  "touches_release (Install_Call data vals r) = True"
| "touches_release (Uninstall_Call r) = True"
| "touches_release (Delete_Namespace name propagation r) = True"
| "touches_release _ = False"

lemma gpu_read_append: "gpu_read past = Some g \<Longrightarrow> gpu_read (past @ later) = Some g"
  by (induction past rule: gpu_read.induct) simp_all

lemma touches_release_singleton:
  "allowed R past e \<Longrightarrow> touches_release e \<Longrightarrow> \<exists>g. gpu_read past = Some g \<and> gpu_name g = expected_cr_name"
  by (cases e) (auto simp: install_allowed_def uninstall_allowed_def in_service_def in_deletion_def)

section \<open>Rules for the steps\<close>

lemma wp_apply_status:
  assumes "\<And>e t r. log t = log s @ [Get_Gpu name r] \<Longrightarrow> Q e t"
    and "\<And>e t g tm. log t = log s @ [Get_Gpu name (Inr g), Patch_Status (merged K tm upd g) g e] \<Longrightarrow>
           Q (map_option (Wrap_Err ''patching Gpu status'') e) t"
  shows "wp (apply_status K name upd) Q s"
  using assms unfolding apply_status_def get_gpu_def patch_status_def
  by (auto simp: wp_simps wp_call Let_def merged_def split: sum.split prod.split)

lemma wp_apply_status_guarded:
  assumes "guarded (allowed R) (log s)" and "justified R (log s) upd"
    and "\<And>e t evs. guarded (allowed R) (log t) \<Longrightarrow> log t = log s @ evs \<Longrightarrow> Q e t"
  shows "wp (apply_status (r_kube R) name upd) Q s"
proof (rule wp_apply_status)
  fix e and t :: "('a, kube_event) st" and r
  assume t: "log t = log s @ [Get_Gpu name r]"
  show "Q e t" by (rule assms(3) [OF _ t]) (simp add: t assms(1))
next
  fix e and t :: "('a, kube_event) st" and g tm
  assume t: "log t = log s @ [Get_Gpu name (Inr g), Patch_Status (merged (r_kube R) tm upd g) g e]"
  have "patch_allowed R (log s @ [Get_Gpu name (Inr g)]) (merged (r_kube R) tm upd g) g"
    using assms(2) unfolding patch_allowed_def by blast
  then have "guarded (allowed R) ((log s @ [Get_Gpu name (Inr g)]) @ [Patch_Status (merged (r_kube R) tm upd g) g e])"
    by (simp only: guarded_snoc assms(1)) simp
  then show "Q (map_option (Wrap_Err ''patching Gpu status'') e) t"
    by (intro assms(3) [OF _ t]) (simp add: t)
qed

lemma wp_guarded_call:
  assumes "guarded (allowed R) (log s)" and "\<And>r. allowed R (log s) (ev r)"
    and "\<And>r t. guarded (allowed R) (log t) \<Longrightarrow> log t = log s @ [ev r] \<Longrightarrow> Q r t"
  shows "wp (call f ev) Q s"
  by (rule wp_any_call) (simp add: assms)

abbreviation (input) obeys :: "('w, 'v) reconciler \<Rightarrow> 'a \<Rightarrow> ('w, kube_event) st \<Rightarrow> bool" where
  "obeys R \<equiv> \<lambda>r t. guarded (allowed R) (log t)"

section \<open>Every reconciliation obeys the policy\<close>

lemma wp_release_finalizer:
  assumes "guarded (allowed R) (log s)" and "namespace_deleted (r_kube R) (log s)"
  shows "wp (release_finalizer (r_kube R) expected_cr_name) (obeys R) s"
  using assms
  by (auto simp: release_finalizer_def wp_simps get_gpu_def update_gpu_def update_allowed_def
      split: sum.split intro!: wp_guarded_call)

lemma wp_delete_namespace:
  assumes "guarded (allowed R) (log s)" and "uninstalled (log s)"
    and "gpu_read (log s) = Some g" and "in_deletion (r_kube R) g"
    and "\<And>r t. guarded (allowed R) (log t) \<Longrightarrow> (r = None \<Longrightarrow> namespace_deleted (r_kube R) (log t)) \<Longrightarrow> Q r t"
  shows "wp (delete_namespace (r_kube R) gpu_operator_namespace) Q s"
  unfolding delete_namespace_def wp_simps delete_object_namespace_def
proof (rule wp_guarded_call [OF assms(1)])
  fix d and t :: "('a, kube_event) st"
  assume t: "guarded (allowed R) (log t)"
    "log t = log s @ [Delete_Namespace gpu_operator_namespace ''Foreground'' d]"
  have "namespace_deleted (r_kube R) (log t)" if "d = None \<or> is_not_found (r_kube R) (the d)"
    using that assms(2) t(2) by (auto simp: namespace_deleted_def)
  with t(1) show "Q (case d of None \<Rightarrow> None
      | Some x \<Rightarrow> if is_not_found (r_kube R) x then None
                 else Some (Wrap_Err (''deleting namespace '' @ gpu_operator_namespace) x)) t"
    by (intro assms(5)) (auto split: option.splits if_splits)
qed (simp add: assms)

lemma wp_finish_delete:
  assumes "guarded (allowed R) (log s)" and "uninstall_allowed R (log s)" and "gpu_name g = expected_cr_name"
  shows "wp (finish_delete R g) (obeys R) s"
proof -
  from assms(2) obtain h where "gpu_read (log s) = Some h" and h: "in_deletion (r_kube R) h"
    by (auto simp: uninstall_allowed_def)
  then have "gpu_read (log s @ [e]) = Some h" for e by (simp add: gpu_read_append)
  with assms h show ?thesis
    by (auto simp: finish_delete_def wp_simps uninstall_def uninstalled_def wp_release_finalizer
        split: run.split option.split intro!: wp_guarded_call wp_delete_namespace)
qed

lemma wp_reconcile_delete:
  assumes "log s = [Get_Gpu n (Inr g)]" and "\<not> is_zero_time (deletion_timestamp g)"
  shows "wp (reconcile_delete R g) (obeys R) s"
proof -
  let ?K = "r_kube R"
  have start: "guarded (allowed R) (log s)" by (simp add: assms(1) guarded_def)
  consider "\<not> has_finalizer ?K g" | "has_finalizer ?K g" "gpu_name g \<noteq> expected_cr_name" | "in_deletion ?K g"
    using assms(2) by (auto simp: in_deletion_def)
  then show ?thesis
  proof cases
    case 3
    then have sel: "has_finalizer ?K g" "gpu_name g = expected_cr_name" by (simp_all add: in_deletion_def)
    have del: "justified R (log s) (only_conditions [uninstalling])"
      using justified.deleting [OF 3] assms(1) by simp
    show ?thesis
      unfolding reconcile_delete_def Let_def using sel
      by (auto simp: wp_simps detect_active_gpu_workloads_def list_pods_def assms(1) uninstall_allowed_def
          workloads_clear_def 3 split: sum.split
          intro!: wp_apply_status_guarded [OF start del] wp_guarded_call wp_finish_delete
            wp_apply_status_guarded [where upd = "only_conditions [deletion_blocked _]"]
            justified.blocked [of _ _ "_ # _", simplified])
  qed (use assms start in \<open>auto simp: reconcile_delete_def Let_def wp_simps update_gpu_def update_allowed_def
      intro!: wp_guarded_call\<close>)
qed

lemma check_driver_daemon_set_answer:
  "check_driver_daemon_set K =
     State_Monad.bind (list_daemon_sets K gpu_operator_namespace [(''app'', driver_app_label)])
       (\<lambda>r. State_Monad.return (driver_answer r))"
  unfolding check_driver_daemon_set_def driver_answer_def
  by (rule arg_cong [where f = "State_Monad.bind _"]) (auto simp: fun_eq_iff split: sum.split)

lemma check_cluster_policy_answer:
  "check_cluster_policy K =
     State_Monad.bind (get_object K cluster_policy_gvk cluster_policy_name)
       (\<lambda>r. State_Monad.return (policy_answer K r))"
  unfolding check_cluster_policy_def policy_answer_def
  by (rule arg_cong [where f = "State_Monad.bind _"]) (auto simp: fun_eq_iff split: sum.split prod.split)

lemma wp_observe_and_report:
  assumes "guarded (allowed R) (log s)"
    and "log s = earlier @ [List_Nodes (Inr nodes), Install_Call data vals (Done (Inr changed))]"
    and "pre_outcome (preflight_of (r_kube R) nodes) = OutcomeProceed"
    and "gpu_operator_chart_version (r_assets R) = Inr version"
  shows "wp (observe_and_report R g (preflight_passed (pre_os (preflight_of (r_kube R) nodes)))
    (helm_installed version) version) (obeys R) s"
proof -
  have justified: "justified R past (full_update (preflight_passed (pre_os (preflight_of (r_kube R) nodes)))
      (helm_installed version) (fst (driver_answer d)) (policy_answer (r_kube R) p) version (snd (driver_answer d)))"
    if "past = earlier @ [List_Nodes (Inr nodes), Install_Call data vals (Done (Inr changed)),
          List_Daemon_Sets gpu_operator_namespace [(''app'', driver_app_label)] d,
          Get_Object cluster_policy_gvk cluster_policy_name p]" for past d p
    using that by (intro justified.reported [OF assms(3) _ assms(4)]) (auto simp: report_chain_def)
  show ?thesis
    using assms(1) unfolding observe_and_report_def check_driver_daemon_set_answer check_cluster_policy_answer
    by (auto simp: wp_simps list_daemon_sets_def get_object_def assms(2) split: option.split
        intro!: wp_guarded_call wp_apply_status_guarded justified)
qed

lemma wp_reconciler_run_preflight:
  assumes "guarded (allowed R) (log s)"
    and none: "\<And>os res e t. guarded (allowed R) (log t) \<Longrightarrow> Q (None, os, res, e) t"
    and some: "\<And>nodes t. guarded (allowed R) (log t) \<Longrightarrow> log t = log s @ [List_Nodes (Inr nodes)] \<Longrightarrow>
      pre_outcome (preflight_of (r_kube R) nodes) = OutcomeProceed \<Longrightarrow>
      Q (Some (preflight_passed (pre_os (preflight_of (r_kube R) nodes))),
         pre_os (preflight_of (r_kube R) nodes), no_result, None) t"
  shows "wp (reconciler_run_preflight R g) Q s"
  unfolding reconciler_run_preflight_def run_preflight_def list_nodes_def preflight_of_def [symmetric]
  using assms(1)
  by (auto simp: wp_simps wp_case_outcome split: sum.split outcome.split option.split
      intro!: wp_guarded_call wp_apply_status_guarded justified.waiting justified.unsupported none some)

lemma wp_reconciler_install_or_upgrade:
  assumes "guarded (allowed R) (log s)"
    and s: "log s = [Get_Gpu n (Inr g), List_Nodes (Inr nodes)]" "in_service (r_kube R) g"
    and proceed: "pre_outcome (preflight_of (r_kube R) nodes) = OutcomeProceed"
    and panic: "\<And>p t. guarded (allowed R) (log t) \<Longrightarrow> Q (Panic p) t"
    and error: "\<And>e t. guarded (allowed R) (log t) \<Longrightarrow> Q (Done (Inl e)) t"
    and installed: "\<And>data vals changed version t. guarded (allowed R) (log t) \<Longrightarrow>
      log t = log s @ [Install_Call data vals (Done (Inr changed))] \<Longrightarrow>
      gpu_operator_chart_version (r_assets R) = Inr version \<Longrightarrow>
      Q (Done (Inr (helm_installed version, version))) t"
  shows "wp (reconciler_install_or_upgrade R g (preflight_passed (pre_os (preflight_of (r_kube R) nodes)))
    (pre_os (preflight_of (r_kube R) nodes))) Q s"
proof -
  have helm_error: "justified R (Get_Gpu n (Inr g) # [List_Nodes (Inr nodes), Install_Call data vals (Done (Inl e))])
      (only_conditions [preflight_passed (pre_os (preflight_of (r_kube R) nodes)), helm_failed e])" for data vals e
    using justified.helm_error [OF proceed, of "[Get_Gpu n (Inr g)]"] by simp
  show ?thesis
    unfolding reconciler_install_or_upgrade_def
    using assms(1) s proceed
    by (auto simp: wp_simps install_or_upgrade_def install_allowed_def
        split: sum.split run.split option.split
        intro!: wp_guarded_call wp_apply_status_guarded helm_error panic error installed)
qed

lemma wp_reconcile_installed:
  assumes "log s = [Get_Gpu n (Inr g)]" and "in_service (r_kube R) g"
  shows "wp (reconcile_installed R g) (obeys R) s"
proof -
  have start: "guarded (allowed R) (log s)" by (simp add: assms(1) guarded_def)
  show ?thesis
    unfolding reconcile_installed_def wp_simps
    using assms
    by (intro wp_reconciler_run_preflight [OF start])
       (auto simp: wp_simps split: option.split
          intro!: wp_reconciler_install_or_upgrade
            wp_observe_and_report [where earlier = "[Get_Gpu n (Inr g)]"])
qed

lemma wp_reconcile: "wp (reconcile R req) (obeys R) (start w)"
proof -
  have cases: "wp (case r of
        Inl e \<Rightarrow> State_Monad.return (Done (no_result,
          if is_not_found (r_kube R) e then None else Some (Wrap_Err ''fetching Gpu CR'' e)))
      | Inr g \<Rightarrow>
          if \<not> is_zero_time (deletion_timestamp g) then reconcile_delete R g
          else if gpu_name g \<noteq> expected_cr_name then do {
            e \<leftarrow> apply_status (r_kube R) (gpu_name g) (only_conditions [forbidden_name (r_kube R)]);
            State_Monad.return (Done (no_result, e))
          }
          else if \<not> has_finalizer (r_kube R) g then do {
            e \<leftarrow> update_gpu (r_kube R) (with_finalizer (r_kube R) g);
            State_Monad.return (Done (no_result, map_option (Wrap_Err ''adding finalizer'') e))
          }
          else reconcile_installed R g) (obeys R) t"
    if t: "guarded (allowed R) (log t)" "log t = [Get_Gpu req r]" for r t
    using t by (auto simp: wp_simps update_gpu_def update_allowed_def in_service_def split: sum.split
        intro!: wp_guarded_call wp_apply_status_guarded justified.rogue wp_reconcile_delete wp_reconcile_installed)
  show ?thesis
    unfolding reconcile_def Let_def wp_bind get_gpu_def
    by (rule wp_guarded_call [where R = R]) (simp_all add: cases)
qed

lemma reconcile_guarded: "guarded (allowed R) (trace_of (reconcile R req) w)"
  using wp_reconcile by (rule guarded_trace)

lemma reconcile_allowed:
  "trace_of (reconcile R req) w = xs @ e # ys \<Longrightarrow> allowed R xs e"
  using reconcile_guarded [of R req w] by (metis guardedD)

section \<open>What the status updates say\<close>

lemma condition_literal_sel [simp]:
  "c_type (preflight_passed os) = condPreflight" "c_status (preflight_passed os) = ConditionTrue"
  "c_last_transition (preflight_passed os) = 0"
  "c_type (helm_installed v) = condHelmInstalled" "c_status (helm_installed v) = ConditionTrue"
  "c_last_transition (helm_installed v) = 0"
  "c_type (helm_failed e) = condHelmInstalled" "c_status (helm_failed e) = ConditionFalse"
  "c_last_transition (helm_failed e) = 0"
  "c_type uninstalling = condHelmInstalled" "c_status uninstalling = ConditionUnknown"
  "c_last_transition uninstalling = 0"
  "c_type (deletion_blocked ws) = condWorkloadProtection" "c_status (deletion_blocked ws) = ConditionFalse"
  "c_last_transition (deletion_blocked ws) = 0"
  "c_type (forbidden_name K) = condReady" "c_status (forbidden_name K) = ConditionFalse"
  "c_last_transition (forbidden_name K) = 0"
  "c_type (observation_condition t obs) = t" "c_status (observation_condition t obs) = fst obs"
  "c_last_transition (observation_condition t obs) = 0"
  by (simp_all add: preflight_passed_def helm_installed_def helm_failed_def uninstalling_def
      deletion_blocked_def forbidden_name_def observation_condition_def split: prod.split)

lemma status_update_sel [simp]:
  "upd_conditions (only_conditions cs) = cs" "upd_include_ready (only_conditions cs) = False"
  "upd_operator_version (only_conditions cs) = []" "upd_driver (only_conditions cs) = None"
  "upd_conditions (full_update pc hc d v ver info) =
     [pc, hc, observation_condition condDriverReady d, observation_condition condValidatorPassed v]"
  "upd_include_ready (full_update pc hc d v ver info) = True"
  "upd_operator_version (full_update pc hc d v ver info) = ver"
  "upd_driver (full_update pc hc d v ver info) = info"
  by (simp_all add: only_conditions_def full_update_def)

lemma justified_fresh: "justified R past upd \<Longrightarrow> fresh_conditions (upd_conditions upd)"
  by (erule justifiedE) (simp_all add: fresh_conditions_def)

lemma justified_ready: "justified R past upd \<Longrightarrow> upd_include_ready upd \<Longrightarrow> condReady \<notin> c_type ` set (upd_conditions upd)"
  by (erule justifiedE) simp_all

lemma driver_answer_status:
  "fst (fst (driver_answer d)) \<in> {ConditionTrue, ConditionFalse, ConditionUnknown}"
  by (auto simp: driver_answer_def observe_daemon_sets_def Let_def split: sum.split list.split)

lemma policy_answer_status: "fst (policy_answer K p) \<in> {ConditionTrue, ConditionFalse, ConditionUnknown}"
  by (auto simp: policy_answer_def observe_policy_state_def split: sum.split)

lemma policy_answer_true_iff:
  "fst (policy_answer K p) = ConditionTrue \<longleftrightarrow>
     (\<exists>object. p = Inr object \<and> fst (nested_string K object [''status'', ''state'']) = ''ready'')"
  by (auto simp: policy_answer_def observe_policy_state_def split: sum.split)

lemma driver_answer_true:
  "fst (fst (driver_answer d)) = ConditionTrue \<Longrightarrow>
     \<exists>items. d = Inr items \<and> fst (fst (observe_daemon_sets items)) = ConditionTrue"
  by (cases d) (simp_all add: driver_answer_def)

text \<open>The Ready condition after a full report, by the two observations.\<close>

lemma full_update_ready:
  assumes "kube_library K"
  obtains c where
    "find_condition K (conditions (merge_status K tm gen
       (full_update (preflight_passed os) (helm_installed v) d p v' info) st)) condReady = Some c"
    and "c_status c =
       (if fst d = ConditionFalse \<or> fst p = ConditionFalse then ConditionFalse
        else if fst d = ConditionUnknown \<or> fst p = ConditionUnknown then ConditionUnknown
        else ConditionTrue)"
proof -
  let ?upd = "full_update (preflight_passed os) (helm_installed v) d p v' info"
  let ?cs = "conditions (merge_status K tm gen ?upd st)"
  have fresh: "fresh_conditions (upd_conditions ?upd)" by (simp add: fresh_conditions_def)
  have found: "status_of K ?cs (c_type c) = Some (c_status c)" if "c \<in> set (upd_conditions ?upd)" for c
    using kube_library.merged_find_requested [OF assms fresh that, of tm gen st] that
    by (auto simp: status_of_def)
  have sts: "status_of K ?cs ` set managed = {Some ConditionTrue, Some (fst d), Some (fst p)}"
    using found [of "preflight_passed os"] found [of "helm_installed v"]
      found [of "observation_condition condDriverReady d"]
      found [of "observation_condition condValidatorPassed p"]
    by (auto simp: managed_def)
  obtain now where
    "find_condition K ?cs condReady = Some ((compute_ready_summary K ?cs gen)\<lparr>c_last_transition := now\<rparr>)"
    using kube_library.merged_find_ready [OF assms, of ?upd tm gen st] by auto
  then show thesis
    by (rule that) (simp add: summary_status sts, auto)
qed

text \<open>A patch that makes Ready true is a full report of four good observations.\<close>

lemma patch_ready_true:
  assumes lib: "kube_library (r_kube R)" and patch: "patch_allowed R past live original"
    and ready: "find_condition (r_kube R) (gpu_conditions live) condReady = Some c" "c_status c = ConditionTrue"
    and new: "find_condition (r_kube R) (gpu_conditions original) condReady \<noteq> Some c"
  obtains earlier n p items nodes os where "past = earlier @ [Get_Gpu n (Inr original)]"
    and "report_chain earlier (Inr p) (Inr items) nodes"
    and "detected (unicode_lower (r_kube R)) nodes = {(os, True)}"
    and "fst (fst (observe_daemon_sets items)) = ConditionTrue"
    and "fst (nested_string (r_kube R) p [''status'', ''state'']) = ''ready''"
proof -
  let ?K = "r_kube R"
  from patch obtain earlier n tm upd where past: "past = earlier @ [Get_Gpu n (Inr original)]"
    and justified: "justified R earlier upd" and live: "live = merged ?K tm upd original"
    unfolding patch_allowed_def by blast
  have conds: "gpu_conditions live =
      conditions (merge_status ?K tm (generation original) upd (gpu_status_of original))"
    by (simp add: live merged_def gpu_conditions_def)
  have other: False if "condReady \<notin> c_type ` set (upd_conditions upd)" and "\<not> upd_include_ready upd"
    using kube_library.merged_find_other [OF lib that(1), of tm "generation original" "gpu_status_of original"]
      that(2) ready(1) new
    unfolding conds by (simp add: gpu_conditions_def)
  from justified show thesis
  proof cases
    case (rogue g m)
    have "fresh_conditions (upd_conditions upd)" using justified by (rule justified_fresh)
    from kube_library.merged_find_requested [OF lib this, of "forbidden_name ?K" tm "generation original"
        "gpu_status_of original"] ready
    show thesis by (auto simp: rogue conds)
  next
    case (reported nodes p d version)
    obtain c' where "find_condition ?K (gpu_conditions live) condReady = Some c'"
      and "c_status c' = (if fst (fst (driver_answer d)) = ConditionFalse \<or> fst (policy_answer ?K p) = ConditionFalse
        then ConditionFalse else if fst (fst (driver_answer d)) = ConditionUnknown \<or> fst (policy_answer ?K p) = ConditionUnknown
        then ConditionUnknown else ConditionTrue)"
      unfolding conds reported by (rule full_update_ready [OF lib])
    with ready have "fst (fst (driver_answer d)) = ConditionTrue" "fst (policy_answer ?K p) = ConditionTrue"
      using driver_answer_status [of d] policy_answer_status [of ?K p] by (auto split: if_splits)
    moreover have "detected (unicode_lower ?K) nodes = {(pre_os (preflight_of ?K nodes), True)}"
      using reported(2) preflight_proceed_iff by (metis preflight_of_def)
    ultimately show thesis
      using that [OF past] reported(3) driver_answer_true policy_answer_true_iff by metis
  qed (use other in auto)
qed

section \<open>Deletion that is blocked\<close>

text \<open>The last guard of the deletion: some listed pod uses a GPU.\<close>

definition blocked_log :: "kube_event list \<Rightarrow> bool" where
  "blocked_log past \<longleftrightarrow> (\<exists>pods. List_Pods (Inr pods) \<in> set past \<and> active_workloads pods \<noteq> [])"

fun is_update :: "kube_event \<Rightarrow> bool" where
  "is_update (Update_Gpu g r) = True"
| "is_update _ = False"

fun no_listing :: "kube_event \<Rightarrow> bool" where
  "no_listing (List_Pods r) = False"
| "no_listing _ = True"

lemma status_event_harmless: "status_event name e \<Longrightarrow> no_listing e \<and> \<not> touches_release e \<and> \<not> is_update e"
  by (cases e) simp_all

lemma no_listing_not_blocked: "list_all no_listing es \<Longrightarrow> \<not> blocked_log es"
  by (auto simp: blocked_log_def list_all_iff)

lemma emits_status [emits_rules]: "emits (apply_status K name upd) no_listing"
  by (rule emits_mono [OF emits_apply_status]) (simp add: status_event_harmless)

lemmas emits_cases = sum.split option.split run.split prod.split outcome.split if_split

lemma emits_finish_delete [emits_rules]: "emits (finish_delete R g) no_listing"
  unfolding finish_delete_def delete_namespace_def release_finalizer_def request_defs
  by (auto intro!: emits_rules split: emits_cases)

lemma emits_reconcile_installed [emits_rules]: "emits (reconcile_installed R g) no_listing"
  unfolding reconcile_installed_def reconciler_run_preflight_def run_preflight_def
    reconciler_install_or_upgrade_def observe_and_report_def check_driver_daemon_set_def
    check_cluster_policy_def request_defs
  by (auto intro!: emits_rules split: emits_cases)

definition harmless :: "kube_event \<Rightarrow> bool" where
  "harmless e \<longleftrightarrow> \<not> touches_release e \<and> \<not> is_update e"

lemma blocked_log_simps [simp]:
  "blocked_log [] = False"
  "blocked_log (e # es) \<longleftrightarrow> (case e of List_Pods (Inr pods) \<Rightarrow> active_workloads pods \<noteq> [] | _ \<Rightarrow> False) \<or> blocked_log es"
  "blocked_log (xs @ ys) \<longleftrightarrow> blocked_log xs \<or> blocked_log ys"
  by (auto simp: blocked_log_def split: kube_event.split sum.split)

lemma list_all_status: "list_all (status_event name) es \<Longrightarrow> list_all no_listing es \<and> list_all harmless es"
  using status_event_harmless by (auto simp: list_all_iff harmless_def)

abbreviation (input) stops_when_blocked :: "reconcile_return run \<Rightarrow> ('w, kube_event) st \<Rightarrow> bool" where
  "stops_when_blocked \<equiv> \<lambda>r t. blocked_log (log t) \<longrightarrow> r = Done (requeue_later, None) \<and> list_all harmless (log t)"

lemma wp_not_blocked:
  assumes "emits m no_listing" and "\<not> blocked_log (log s)"
  shows "wp m (\<lambda>r t. blocked_log (log t) \<longrightarrow> P r t) s"
  using assms(2) by (intro wp_emits [OF assms(1)]) (simp add: no_listing_not_blocked)

lemma wp_delete_stops_when_blocked:
  assumes "log s = [Get_Gpu n (Inr g)]"
  shows "wp (reconcile_delete R g) stops_when_blocked s"
proof (cases "has_finalizer (r_kube R) g \<and> gpu_name g = expected_cr_name")
  case True
  have report: "wp (apply_status (r_kube R) name upd) (\<lambda>e t. blocked_log (log t) \<longrightarrow> list_all harmless (log t)) u"
    if "list_all harmless (log u)" for name upd and u :: "('a, kube_event) st"
    using that by (intro wp_emits [OF emits_apply_status]) (auto dest: list_all_status)
  from True show ?thesis
    unfolding reconcile_delete_def Let_def detect_active_gpu_workloads_def list_pods_def
    by (auto simp: wp_simps assms harmless_def no_listing_not_blocked dest!: list_all_status split: sum.split
        intro!: wp_emits [OF emits_apply_status [of _ _ "only_conditions [uninstalling]"]] wp_any_call
          wp_not_blocked [OF emits_finish_delete] report)
next
  case False
  then show ?thesis
    by (auto simp: reconcile_delete_def Let_def wp_simps update_gpu_def assms intro!: wp_any_call)
qed

lemma wp_reconcile_stops_when_blocked: "wp (reconcile R req) stops_when_blocked (start w)"
  unfolding reconcile_def Let_def wp_bind get_gpu_def
  by (rule wp_any_call)
     (auto simp: wp_simps update_gpu_def split: sum.split
       intro!: wp_any_call wp_delete_stops_when_blocked wp_not_blocked emits_rules)

section \<open>Nothing stalls\<close>

text \<open>The states in which a reconciliation may end without an error and without a requeue.\<close>

definition settled :: "('w, 'v) reconciler \<Rightarrow> kube_event list \<Rightarrow> bool" where
  "settled R past \<longleftrightarrow>
     (\<exists>n e. past = [Get_Gpu n (Inl e)] \<and> is_not_found (r_kube R) e) \<or>
     (\<exists>n g. past = [Get_Gpu n (Inr g)] \<and> \<not> is_zero_time (deletion_timestamp g) \<and> \<not> has_finalizer (r_kube R) g) \<or>
     (\<exists>earlier g. past = earlier @ [Update_Gpu g None]) \<or>
     (\<exists>g. gpu_read past = Some g \<and> is_zero_time (deletion_timestamp g) \<and> gpu_name g \<noteq> expected_cr_name) \<or>
     (\<exists>n g nodes later. past = Get_Gpu n (Inr g) # List_Nodes (Inr nodes) # later \<and>
        pre_outcome (preflight_of (r_kube R) nodes) = OutcomeError) \<or>
     (\<exists>earlier n e. past = earlier @ [Get_Gpu n (Inl e)] \<and> namespace_deleted (r_kube R) earlier \<and>
        is_not_found (r_kube R) e)"

text \<open>
  How a reconciliation may end. A panic is admitted: controller-runtime recovers it and retries
  the request as after an error; \<open>Error_Reports\<close> says when there can be one.
\<close>

fun no_stall :: "('w, 'v) reconciler \<Rightarrow> reconcile_return run \<Rightarrow> kube_event list \<Rightarrow> bool" where
  "no_stall R (Panic p) past = True"
| "no_stall R (Done (res, Some e)) past = (res = no_result)"
| "no_stall R (Done (res, None)) past = (res = requeue_later \<or> res = no_result \<and> settled R past)"

lemma requeue_distinct [simp]: "no_result \<noteq> requeue_later" "requeue_later \<noteq> no_result"
  by (simp_all add: no_result_def requeue_later_def requeue_warn_def second_def)

lemma no_stall_simps [simp]:
  "no_stall R (Done (no_result, e)) past \<longleftrightarrow> (e = None \<longrightarrow> settled R past)"
  "no_stall R (Done (no_result, map_option f e')) past \<longleftrightarrow> (e' = None \<longrightarrow> settled R past)"
  by (cases e; simp) (cases e'; simp)

lemma wp_status_log:
  "(\<And>e t es. log t = log s @ es \<Longrightarrow> Q e t) \<Longrightarrow> wp (apply_status K name upd) Q s"
  by (rule wp_emits [OF emits_apply_status]) simp

abbreviation (input) never_stalls :: "('w, 'v) reconciler \<Rightarrow> reconcile_return run \<Rightarrow> ('w, kube_event) st \<Rightarrow> bool" where
  "never_stalls R \<equiv> \<lambda>r t. no_stall R r (log t)"

lemma wp_release_no_stall:
  assumes "namespace_deleted (r_kube R) (log s)"
  shows "wp (release_finalizer (r_kube R) name) (\<lambda>res t. no_stall R (Done res) (log t)) s"
  using assms
  by (auto simp: release_finalizer_def get_gpu_def update_gpu_def wp_simps settled_def split: sum.split
      intro!: wp_any_call)

lemma wp_finish_no_stall: "wp (finish_delete R g) (never_stalls R) s"
proof -
  have deleted: "namespace_deleted (r_kube R)
      (past @ [Uninstall_Call (Done None), Delete_Namespace gpu_operator_namespace ''Foreground'' d])"
    if "d = None \<or> is_not_found (r_kube R) (the d)" for past d
    using that unfolding namespace_deleted_def uninstalled_def
    by (intro exI [of _ "past @ [Uninstall_Call (Done None)]"] exI [of _ d]) auto
  show ?thesis
    by (auto simp: finish_delete_def delete_namespace_def uninstall_def delete_object_namespace_def wp_simps
        deleted split: run.split option.split intro!: wp_any_call wp_release_no_stall)
qed

lemma wp_delete_no_stall:
  assumes "log s = [Get_Gpu n (Inr g)]" and "\<not> is_zero_time (deletion_timestamp g)"
  shows "wp (reconcile_delete R g) (never_stalls R) s"
  using assms unfolding reconcile_delete_def Let_def detect_active_gpu_workloads_def list_pods_def update_gpu_def
  by (auto simp: wp_simps settled_def split: sum.split intro!: wp_any_call wp_status_log wp_finish_no_stall)

lemma wp_observe_no_stall: "wp (observe_and_report R g pc hc v) (\<lambda>res t. no_stall R (Done res) (log t)) s"
  unfolding observe_and_report_def check_driver_daemon_set_answer check_cluster_policy_answer
    list_daemon_sets_def get_object_def
  by (auto simp: wp_simps split: option.split intro!: wp_any_call wp_status_log)

lemma wp_install_no_stall:
  assumes "\<And>hc v t. Q (Done (Inr (hc, v))) t" and "\<And>e t. Q (Done (Inl e)) t" and "\<And>p t. Q (Panic p) t"
  shows "wp (reconciler_install_or_upgrade R g pc os) Q s"
  unfolding reconciler_install_or_upgrade_def install_or_upgrade_def
  by (auto simp: wp_simps assms split: sum.split run.split intro!: wp_any_call wp_status_log)

lemma wp_installed_no_stall:
  assumes "log s = [Get_Gpu n (Inr g)]"
  shows "wp (reconcile_installed R g) (never_stalls R) s"
  using assms unfolding reconcile_installed_def reconciler_run_preflight_def run_preflight_def list_nodes_def
    preflight_of_def [symmetric]
  by (auto simp: wp_simps settled_def split: sum.split outcome.split option.splits
      intro!: wp_any_call wp_status_log wp_install_no_stall wp_observe_no_stall)

lemma wp_reconcile_no_stall: "wp (reconcile R req) (never_stalls R) (start w)"
  unfolding reconcile_def Let_def wp_bind get_gpu_def
  by (rule wp_any_call)
     (auto simp: wp_simps update_gpu_def settled_def split: sum.split
       intro!: wp_any_call wp_status_log wp_delete_no_stall wp_installed_no_stall)

section \<open>Early exits leave the summary alone\<close>

fun daemon_sets_listed :: "kube_event \<Rightarrow> bool" where
  "daemon_sets_listed (List_Daemon_Sets ns labels r) = True"
| "daemon_sets_listed _ = False"

lemma patch_ready_untouched:
  assumes lib: "kube_library (r_kube R)" and patch: "patch_allowed R past live original"
    and "gpu_read past = Some g" and "gpu_name g = expected_cr_name"
    and early: "list_all (\<lambda>e. \<not> daemon_sets_listed e) past"
  shows "find_condition (r_kube R) (gpu_conditions live) condReady =
    find_condition (r_kube R) (gpu_conditions original) condReady"
proof -
  from patch obtain earlier n tm upd where past: "past = earlier @ [Get_Gpu n (Inr original)]"
    and justified: "justified R earlier upd" and live: "live = merged (r_kube R) tm upd original"
    unfolding patch_allowed_def by blast
  have other: ?thesis if "condReady \<notin> c_type ` set (upd_conditions upd)" and "\<not> upd_include_ready upd"
    using kube_library.merged_find_other [OF lib that(1), of tm "generation original" "gpu_status_of original"] that(2)
    by (simp add: live merged_def gpu_conditions_def)
  from justified show ?thesis
  proof cases
    case (rogue h m)
    with past assms(3,4) show ?thesis by simp
  next
    case (reported nodes p d version)
    with past early show ?thesis by (auto simp: report_chain_def)
  qed (use other in auto)
qed

section \<open>Any reconciliation only extends its log\<close>

lemma emits_delete_any: "emits (reconcile_delete R g) (\<lambda>e. True)"
  unfolding reconcile_delete_def Let_def detect_active_gpu_workloads_def request_defs
  by (auto intro!: emits_rules emits_mono [OF emits_finish_delete] emits_mono [OF emits_apply_status] split: emits_cases)

end
