(* ===== verification/Quiescence.thy ===== *)
theory Quiescence
  imports Protocol Helm_Store
begin

text \<open>
  Convergence of the controller: when nobody else acts, one reconciliation that reports a full
  status brings the cluster to rest. \<open>at_rest\<close> says what such a cluster holds (a resource in
  service, a good preflight check, the release installed with the values of the spec, and a
  status that already says what is observed); a reconciliation of a cluster at rest only reads,
  asks for the next cycle and leaves it at rest. The contract \<open>steady_api\<close> states that reads
  answer from one snapshot and that a patch stores what it was given.
\<close>

section \<open>The contract of a cluster in which nobody else acts\<close>

record snapshot =
  sn_gpu :: "string \<Rightarrow> err + gpu"
  sn_nodes :: "err + node list"
  sn_daemon_sets :: "string \<Rightarrow> (string \<times> string) list \<Rightarrow> err + daemon_set list"
  sn_object :: "gvk \<Rightarrow> string \<Rightarrow> err + any"

text \<open>A read of a world with a snapshot: the answer, and the world stays as it is.\<close>

definition reads :: "('w \<Rightarrow> 's) \<Rightarrow> ('w \<Rightarrow> 'r \<times> 'w) \<Rightarrow> ('s \<Rightarrow> 'r) \<Rightarrow> bool" where
  "reads snap f answer \<longleftrightarrow> (\<forall>w. fst (f w) = answer (snap w) \<and> snap (snd (f w)) = snap w)"

locale steady_api = kube_library K
  for K :: "'w kube" +
  fixes snap :: "'w \<Rightarrow> snapshot"
  assumes reads_gpu: "reads snap (k_get_gpu K name) (\<lambda>s. sn_gpu s name)"
    and reads_nodes: "reads snap (k_list_nodes K) sn_nodes"
    and reads_daemon_sets: "reads snap (k_list_daemon_sets K ns labels) (\<lambda>s. sn_daemon_sets s ns labels)"
    and reads_object: "reads snap (k_get_object K kind name) (\<lambda>s. sn_object s kind name)"
    and gpu_named: "sn_gpu (snap w) name = Inr g \<Longrightarrow> gpu_name g = name"
    and patch_stores: "sn_gpu (snap w) (gpu_name original) = Inr original \<Longrightarrow>
      live = original\<lparr>gpu_status_of := gpu_status_of live\<rparr> \<Longrightarrow>
      k_patch_status K live original w = (None, w') \<Longrightarrow>
      \<exists>rv. snap w' = (snap w)\<lparr>sn_gpu := (sn_gpu (snap w))(gpu_name original := Inr (live\<lparr>resource_version := rv\<rparr>))\<rparr>"

text \<open>
  The installer next to it: it touches neither the Gpu resources nor the nodes, a call that
  reports no change changes nothing that is read, and requests to the API server do not touch
  the release.
\<close>

definition keeps_release :: "(string \<Rightarrow> gomap \<Rightarrow> 'w \<Rightarrow> bool) \<Rightarrow> ('w \<Rightarrow> 'r \<times> 'w) \<Rightarrow> bool" where
  "keeps_release installed f \<longleftrightarrow> (\<forall>data vals w. installed data vals w \<longrightarrow> installed data vals (snd (f w)))"

locale steady_operator =
  steady_api "r_kube R" snap + inst: installer_contract "r_installer R" installed marshals
  for R :: "('w, 'v) reconciler" and snap :: "'w \<Rightarrow> snapshot"
    and installed :: "string \<Rightarrow> gomap \<Rightarrow> 'w \<Rightarrow> bool" and marshals :: "gomap \<Rightarrow> bool" +
  assumes install_keeps: "install_or_upgrade_op (r_installer R) data vals w = (r, w') \<Longrightarrow>
      sn_gpu (snap w') = sn_gpu (snap w) \<and> sn_nodes (snap w') = sn_nodes (snap w)"
    and no_change: "installed data vals w \<Longrightarrow>
      install_or_upgrade_op (r_installer R) data vals w = (Done (Inr False), w') \<Longrightarrow> snap w' = snap w"
    and keeps_get: "keeps_release installed (k_get_gpu (r_kube R) name)"
    and keeps_nodes: "keeps_release installed (k_list_nodes (r_kube R))"
    and keeps_daemon_sets: "keeps_release installed (k_list_daemon_sets (r_kube R) ns labels)"
    and keeps_object: "keeps_release installed (k_get_object (r_kube R) kind name)"
    and keeps_patch: "keeps_release installed (k_patch_status (r_kube R) live original)"

section \<open>The cluster at rest\<close>

text \<open>The report that a reconciliation makes of what it reads.\<close>

definition report_of :: "'w kube \<Rightarrow> snapshot \<Rightarrow> node list \<Rightarrow> string \<Rightarrow> status_update" where
  "report_of K s nodes version =
     full_update (preflight_passed (pre_os (preflight_of K nodes))) (helm_installed version)
       (fst (driver_answer (sn_daemon_sets s gpu_operator_namespace [(''app'', driver_app_label)])))
       (policy_answer K (sn_object s cluster_policy_gvk cluster_policy_name)) version
       (snd (driver_answer (sn_daemon_sets s gpu_operator_namespace [(''app'', driver_app_label)])))"

text \<open>What does not change from one cycle to the next: the resource, the nodes, the chart, the values.\<close>

definition serving ::
  "('w, 'v) reconciler \<Rightarrow> snapshot \<Rightarrow> gpu \<Rightarrow> node list \<Rightarrow> string \<Rightarrow> gomap \<Rightarrow> string \<Rightarrow> bool" where
  "serving R s g nodes data vals version \<longleftrightarrow>
     sn_gpu s expected_cr_name = Inr g \<and> in_service (r_kube R) g \<and> sn_nodes s = Inr nodes \<and>
     pre_outcome (preflight_of (r_kube R) nodes) = OutcomeProceed \<and>
     gpu_operator_chart (r_assets R) = Inr data \<and>
     build_values (r_assets R) (r_yaml R) (gpu_spec_of g) \<lparr>cluster_os = pre_os (preflight_of (r_kube R) nodes)\<rparr> = Done (Inr vals) \<and>
     gpu_operator_chart_version (r_assets R) = Inr version"

definition reported :: "('w, 'v) reconciler \<Rightarrow> snapshot \<Rightarrow> gpu \<Rightarrow> node list \<Rightarrow> string \<Rightarrow> bool" where
  "reported R s g nodes version \<longleftrightarrow>
     (\<exists>tm st. gpu_status_of g =
        merge_status (r_kube R) tm (generation g) (report_of (r_kube R) s nodes version) st)"

definition at_rest ::
  "('w \<Rightarrow> snapshot) \<Rightarrow> (string \<Rightarrow> gomap \<Rightarrow> 'w \<Rightarrow> bool) \<Rightarrow> ('w, 'v) reconciler \<Rightarrow> 'w \<Rightarrow> bool" where
  "at_rest snap installed R w \<longleftrightarrow>
     (\<exists>g nodes data vals version. serving R (snap w) g nodes data vals version \<and>
        installed data vals w \<and> reported R (snap w) g nodes version)"

text \<open>The calls that change nothing.\<close>

fun only_looks :: "kube_event \<Rightarrow> bool" where
  "only_looks (Update_Gpu g r) = False"
| "only_looks (Patch_Status live original e) = False"
| "only_looks (Delete_Namespace n p e) = False"
| "only_looks (Uninstall_Call r) = False"
| "only_looks (Install_Call data vals r) = (r = Done (Inr False))"
| "only_looks _ = True"

fun helm_failed_call :: "kube_event \<Rightarrow> bool" where
  "helm_failed_call (Install_Call data vals (Done (Inl e))) = True"
| "helm_failed_call _ = False"

fun is_install :: "kube_event \<Rightarrow> bool" where
  "is_install (Install_Call data vals r) = True"
| "is_install _ = False"

text \<open>The logs of \<open>n\<close> reconciliations of the singleton, one after the other.\<close>

fun cycles :: "('w, 'v) reconciler \<Rightarrow> nat \<Rightarrow> 'w \<Rightarrow> kube_event list list" where
  "cycles R 0 w = []"
| "cycles R (Suc n) w =
     trace_of (reconcile R expected_cr_name) w # cycles R n (world_of (reconcile R expected_cr_name) w)"

lemma report_fresh:
  "fresh_conditions (upd_conditions (report_of K s nodes version))"
  "condReady \<notin> c_type ` set (upd_conditions (report_of K s nodes version))"
  by (simp_all add: report_of_def full_update_def fresh_conditions_def preflight_passed_def helm_installed_def
      observation_condition_def split: prod.split)

text \<open>A status that reports something is not changed by reporting it again.\<close>

lemma reported_again:
  assumes "kube_library (r_kube R)" and "reported R s g nodes version"
  shows "merge_status (r_kube R) tm (generation g) (report_of (r_kube R) s nodes version) (gpu_status_of g)
    = gpu_status_of g"
  using kube_library.merge_status_idempotent [OF assms(1) report_fresh] assms(2) by (auto simp: reported_def)

lemma observe_and_report_simp:
  "observe_and_report R g (preflight_passed (pre_os (preflight_of (r_kube R) nodes))) (helm_installed version) version = do {
     d \<leftarrow> list_daemon_sets (r_kube R) gpu_operator_namespace [(''app'', driver_app_label)];
     p \<leftarrow> get_object (r_kube R) cluster_policy_gvk cluster_policy_name;
     e \<leftarrow> apply_status (r_kube R) (gpu_name g)
       (full_update (preflight_passed (pre_os (preflight_of (r_kube R) nodes))) (helm_installed version)
         (fst (driver_answer d)) (policy_answer (r_kube R) p) version (snd (driver_answer d)));
     State_Monad.return (case e of Some x \<Rightarrow> (no_result, Some x) | None \<Rightarrow> (requeue_later, None))
   }"
  by (simp add: observe_and_report_def check_driver_daemon_set_answer check_cluster_policy_answer)

section \<open>Rules for the requests\<close>

context steady_operator
begin

abbreviation (input) K :: "'w kube" where "K \<equiv> r_kube R"

text \<open>A step that only read: the log has grown by \<open>es\<close>, everything else stands.\<close>

definition still :: "('w, kube_event) st \<Rightarrow> kube_event list \<Rightarrow> ('w, kube_event) st \<Rightarrow> bool" where
  "still s es t \<longleftrightarrow>
     snap (world t) = snap (world s) \<and> log t = log s @ es \<and>
     (\<forall>data vals. installed data vals (world s) \<longrightarrow> installed data vals (world t))"

lemma still_trans: "still s es t \<Longrightarrow> still t fs u \<Longrightarrow> still s (es @ fs) u"
  by (simp add: still_def)

lemma wp_read:
  assumes "reads snap f answer" and "keeps_release installed f"
    and "\<And>t. still s [ev (answer (snap (world s)))] t \<Longrightarrow> Q (answer (snap (world s))) t"
  shows "wp (call f ev) Q s"
proof (cases "f (world s)")
  case (Pair r w)
  have "r = answer (snap (world s))" "snap w = snap (world s)"
    using assms(1) unfolding reads_def by (metis Pair fst_conv snd_conv)+
  moreover have "installed data vals (world s) \<Longrightarrow> installed data vals w" for data vals
    using assms(2) unfolding keeps_release_def by (metis Pair snd_conv)
  ultimately show ?thesis
    using assms(3) by (simp add: wp_call Pair still_def)
qed

lemma wp_get_gpu:
  "(\<And>t. still s [Get_Gpu name (sn_gpu (snap (world s)) name)] t \<Longrightarrow> Q (sn_gpu (snap (world s)) name) t) \<Longrightarrow>
    wp (get_gpu K name) Q s"
  unfolding get_gpu_def by (rule wp_read [OF reads_gpu keeps_get])

lemma wp_list_nodes:
  "(\<And>t. still s [List_Nodes (sn_nodes (snap (world s)))] t \<Longrightarrow> Q (sn_nodes (snap (world s))) t) \<Longrightarrow>
    wp (list_nodes K) Q s"
  unfolding list_nodes_def by (rule wp_read [OF reads_nodes keeps_nodes])

lemma wp_list_daemon_sets:
  "(\<And>t. still s [List_Daemon_Sets ns labels (sn_daemon_sets (snap (world s)) ns labels)] t \<Longrightarrow>
      Q (sn_daemon_sets (snap (world s)) ns labels) t) \<Longrightarrow>
    wp (list_daemon_sets K ns labels) Q s"
  unfolding list_daemon_sets_def by (rule wp_read [OF reads_daemon_sets keeps_daemon_sets])

lemma wp_get_object:
  "(\<And>t. still s [Get_Object kind name (sn_object (snap (world s)) kind name)] t \<Longrightarrow>
      Q (sn_object (snap (world s)) kind name) t) \<Longrightarrow>
    wp (get_object K kind name) Q s"
  unfolding get_object_def by (rule wp_read [OF reads_object keeps_object])

text \<open>The status writer when the status already says what is to be written.\<close>

lemma wp_apply_unchanged:
  assumes "sn_gpu (snap (world s)) name = Inr g"
    and "\<And>tm. merge_status K tm (generation g) upd (gpu_status_of g) = gpu_status_of g"
    and "\<And>t. still s [Get_Gpu name (Inr g)] t \<Longrightarrow> Q None t"
  shows "wp (apply_status K name upd) Q s"
  unfolding apply_status_def wp_bind
proof (rule wp_get_gpu, unfold assms(1) sum.case)
  fix t assume "still s [Get_Gpu name (Inr g)] t"
  then show "wp (do {
      tm \<leftarrow> read_clock K;
      let live = g\<lparr>gpu_status_of := merge_status K tm (generation g) upd (gpu_status_of g)\<rparr>;
      if semantic_equal K (gpu_status_of g) (gpu_status_of live) then State_Monad.return None
      else do { e \<leftarrow> patch_status K live g; State_Monad.return (map_option (Wrap_Err ''patching Gpu status'') e) }
    }) Q t"
    by (simp add: wp_simps Let_def assms(2,3) semantic_equal_iff)
qed

text \<open>And in general: without an error the resource has the merged status afterwards.\<close>

lemma wp_apply_reported:
  assumes stored: "sn_gpu (snap (world s)) name = Inr g"
    and failed: "\<And>e t. Q (Some e) t"
    and written: "\<And>t rv tm. snap (world t) = (snap (world s))\<lparr>sn_gpu := (sn_gpu (snap (world s)))(name :=
        Inr (g\<lparr>gpu_status_of := merge_status K tm (generation g) upd (gpu_status_of g), resource_version := rv\<rparr>))\<rparr> \<Longrightarrow>
      (\<And>data vals. installed data vals (world s) \<Longrightarrow> installed data vals (world t)) \<Longrightarrow> Q None t"
  shows "wp (apply_status K name upd) Q s"
  unfolding apply_status_def wp_bind
proof (rule wp_get_gpu, unfold stored sum.case)
  fix t assume t: "still s [Get_Gpu name (Inr g)] t"
  define live where "live tm = g\<lparr>gpu_status_of := merge_status K tm (generation g) upd (gpu_status_of g)\<rparr>" for tm
  have same: "Q None t" if "live tm = g" for tm
  proof (rule written [where tm = tm and rv = "resource_version g"])
    have "g\<lparr>gpu_status_of := merge_status K tm (generation g) upd (gpu_status_of g), resource_version := resource_version g\<rparr> = g"
      using that by (simp add: live_def)
    then show "snap (world t) = (snap (world s))\<lparr>sn_gpu := (sn_gpu (snap (world s)))(name :=
        Inr (g\<lparr>gpu_status_of := merge_status K tm (generation g) upd (gpu_status_of g), resource_version := resource_version g\<rparr>))\<rparr>"
      using t stored by (simp only: still_def) (simp add: fun_upd_idem)
  qed (use t in \<open>simp add: still_def\<close>)
  have patched: "wp (patch_status K (live tm) g) (\<lambda>e. Q (map_option (Wrap_Err ''patching Gpu status'') e)) t" for tm
  proof (cases "k_patch_status K (live tm) g (world t)")
    case (Pair e w)
    let ?u = "t\<lparr>world := w, log := log t @ [Patch_Status (live tm) g e]\<rparr>"
    have "Q None ?u" if none: "e = None"
    proof -
      have "gpu_name g = name" using gpu_named stored by blast
      moreover have "sn_gpu (snap (world t)) name = Inr g" using t stored by (simp add: still_def)
      ultimately obtain rv where "snap w = (snap (world t))\<lparr>sn_gpu := (sn_gpu (snap (world t)))(name :=
          Inr ((live tm)\<lparr>resource_version := rv\<rparr>))\<rparr>"
        using patch_stores [of "world t" g "live tm" w] Pair none by (auto simp: live_def)
      moreover have "installed data vals w" if "installed data vals (world s)" for data vals
        using that t keeps_patch Pair unfolding still_def keeps_release_def by (metis snd_conv)
      ultimately show ?thesis
        using t by (intro written [where tm = tm and rv = rv]) (simp_all add: live_def still_def)
    qed
    then show ?thesis
      using failed by (cases e) (simp_all add: patch_status_def wp_call Pair)
  qed
  show "wp (do {
      tm \<leftarrow> read_clock K;
      let live = g\<lparr>gpu_status_of := merge_status K tm (generation g) upd (gpu_status_of g)\<rparr>;
      if semantic_equal K (gpu_status_of g) (gpu_status_of live) then State_Monad.return None
      else do { e \<leftarrow> patch_status K live g; State_Monad.return (map_option (Wrap_Err ''patching Gpu status'') e) }
    }) Q t"
    unfolding wp_simps Let_def live_def [symmetric]
    using same [of "clock K (world t)"] patched
    by (auto simp: live_def semantic_equal_iff)
qed

text \<open>The preflight check: only a clean one goes on, and none of the others asks Helm for anything.\<close>

lemma emits_status_no_install: "emits (apply_status K name upd) (\<lambda>e. \<not> is_install e)"
  by (rule emits_mono [OF emits_apply_status]) (auto elim!: status_event.elims)

lemma wp_preflight_cases:
  assumes none: "\<And>os res e t. list_all (\<lambda>e. \<not> is_install e) (log t) \<Longrightarrow> Q (None, os, res, e) t"
    and some: "\<And>nodes t. sn_nodes (snap (world s)) = Inr nodes \<Longrightarrow>
      pre_outcome (preflight_of K nodes) = OutcomeProceed \<Longrightarrow> still s [List_Nodes (Inr nodes)] t \<Longrightarrow>
      Q (Some (preflight_passed (pre_os (preflight_of K nodes))), pre_os (preflight_of K nodes), no_result, None) t"
    and start: "list_all (\<lambda>e. \<not> is_install e) (log s)"
  shows "wp (reconciler_run_preflight R g) Q s"
  unfolding reconciler_run_preflight_def run_preflight_def wp_bind
proof (rule wp_list_nodes)
  fix t assume t: "still s [List_Nodes (sn_nodes (snap (world s)))] t"
  then have log: "list_all (\<lambda>e. \<not> is_install e) (log t)" using start by (simp add: still_def)
  have report: "wp (apply_status K name upd) P t"
    if "\<And>e u. list_all (\<lambda>e. \<not> is_install e) (log u) \<Longrightarrow> P e u" for name upd P
    by (rule wp_emits [OF emits_status_no_install]) (use that log in simp)
  show "wp (case sn_nodes (snap (world s)) of
        Inl e \<Rightarrow> State_Monad.return (Inl (Wrap_Err ''listing nodes'' e))
      | Inr items \<Rightarrow> State_Monad.return (Inr (preflight_nodes (unicode_lower K) items)))
    (\<lambda>pre. wp (case pre of
       Inl e \<Rightarrow> State_Monad.return (None, OSTypeUnknown, no_result, Some (Wrap_Err ''running preflight'' e))
     | Inr p \<Rightarrow>
         (case pre_outcome p of
            OutcomeWarn \<Rightarrow> do {
              e \<leftarrow> apply_status K (gpu_name g) (only_conditions
                [new_condition condPreflight ConditionUnknown reasonWaiting (pre_reason p)]);
              State_Monad.return (case e of
                Some x \<Rightarrow> (None, OSTypeUnknown, no_result, Some x)
              | None \<Rightarrow> (None, OSTypeUnknown, requeue_later, None))
            }
          | OutcomeError \<Rightarrow> do {
              e \<leftarrow> apply_status K (gpu_name g) (only_conditions
                [new_condition condPreflight ConditionFalse reasonFailed (pre_reason p)]);
              State_Monad.return (case e of
                Some x \<Rightarrow> (None, OSTypeUnknown, no_result, Some x)
              | None \<Rightarrow> (None, OSTypeUnknown, no_result, None))
            }
          | OutcomeProceed \<Rightarrow>
              State_Monad.return (Some (preflight_passed (pre_os p)), pre_os p, no_result, None))) Q) t"
    using t log some
    by (auto simp: wp_simps preflight_of_def split: sum.split outcome.split option.split intro!: report none)
qed

text \<open>The installation of a chart and values that can be built.\<close>

lemma wp_install_cases:
  assumes "\<And>data vals version t. gpu_operator_chart (r_assets R) = Inr data \<Longrightarrow>
      build_values (r_assets R) (r_yaml R) (gpu_spec_of g) \<lparr>cluster_os = os\<rparr> = Done (Inr vals) \<Longrightarrow>
      gpu_operator_chart_version (r_assets R) = Inr version \<Longrightarrow>
      marshals vals \<Longrightarrow> installed data vals (world t) \<Longrightarrow>
      sn_gpu (snap (world t)) = sn_gpu (snap (world s)) \<Longrightarrow> sn_nodes (snap (world t)) = sn_nodes (snap (world s)) \<Longrightarrow>
      Q (Done (Inr (helm_installed version, version))) t"
    and "\<And>e t. Q (Done (Inl e)) t" and "\<And>p t. Q (Panic p) t"
    and marshals: "\<And>vals. build_values (r_assets R) (r_yaml R) (gpu_spec_of g) \<lparr>cluster_os = os\<rparr> = Done (Inr vals) \<Longrightarrow>
      marshals vals"
  shows "wp (reconciler_install_or_upgrade R g pc os) Q s"
proof -
  have call: "wp (install_or_upgrade (r_installer R) data vals) P s"
    if "\<And>r t. (\<And>b. r = Done (Inr b) \<Longrightarrow> marshals vals \<Longrightarrow> installed data vals (world t)) \<Longrightarrow>
      sn_gpu (snap (world t)) = sn_gpu (snap (world s)) \<Longrightarrow> sn_nodes (snap (world t)) = sn_nodes (snap (world s)) \<Longrightarrow> P r t"
    for data vals P
  proof (cases "install_or_upgrade_op (r_installer R) data vals (world s)")
    case (Pair r w)
    then show ?thesis
      using install_keeps [OF Pair] inst.success_installs [of vals data "world s" _ w]
      by (simp add: install_or_upgrade_def wp_call) (rule that; simp)
  qed
  show ?thesis
    unfolding reconciler_install_or_upgrade_def
    using assms marshals
    by (auto simp: wp_simps wp_True split: sum.split run.split intro!: call)
qed

text \<open>The observation and the report, in general and when the status says it already.\<close>

lemma wp_observe:
  assumes "\<And>t. still s [List_Daemon_Sets gpu_operator_namespace [(''app'', driver_app_label)]
          (sn_daemon_sets (snap (world s)) gpu_operator_namespace [(''app'', driver_app_label)]),
        Get_Object cluster_policy_gvk cluster_policy_name (sn_object (snap (world s)) cluster_policy_gvk cluster_policy_name)] t \<Longrightarrow>
      wp (apply_status K (gpu_name g) (report_of K (snap (world s)) nodes version))
        (\<lambda>e. Q (case e of Some x \<Rightarrow> (no_result, Some x) | None \<Rightarrow> (requeue_later, None))) t"
  shows "wp (observe_and_report R g (preflight_passed (pre_os (preflight_of K nodes))) (helm_installed version) version) Q s"
  unfolding observe_and_report_simp wp_bind
proof (rule wp_list_daemon_sets, rule wp_get_object)
  fix t u
  assume t: "still s [List_Daemon_Sets gpu_operator_namespace [(''app'', driver_app_label)]
      (sn_daemon_sets (snap (world s)) gpu_operator_namespace [(''app'', driver_app_label)])] t"
    and u: "still t [Get_Object cluster_policy_gvk cluster_policy_name
      (sn_object (snap (world t)) cluster_policy_gvk cluster_policy_name)] u"
  have "snap (world t) = snap (world s)" using t by (simp add: still_def)
  with assms [of u] still_trans [OF t u]
  show "wp (apply_status K (gpu_name g)
       (full_update (preflight_passed (pre_os (preflight_of K nodes))) (helm_installed version)
         (fst (driver_answer (sn_daemon_sets (snap (world s)) gpu_operator_namespace [(''app'', driver_app_label)])))
         (policy_answer K (sn_object (snap (world t)) cluster_policy_gvk cluster_policy_name)) version
         (snd (driver_answer (sn_daemon_sets (snap (world s)) gpu_operator_namespace [(''app'', driver_app_label)])))))
     (\<lambda>e. wp (State_Monad.return (case e of Some x \<Rightarrow> (no_result, Some x) | None \<Rightarrow> (requeue_later, None))) Q) u"
    by (simp add: wp_return report_of_def)
qed

lemma report_of_cong:
  "sn_daemon_sets s' = sn_daemon_sets s \<Longrightarrow> sn_object s' = sn_object s \<Longrightarrow>
    report_of K s' nodes version = report_of K s nodes version"
  by (simp add: report_of_def)

text \<open>One cycle that installs and reports without an error brings the cluster to rest.\<close>

lemma wp_report_rests:
  assumes serving: "serving R (snap (world s)) g nodes data vals version" and "installed data vals (world s)"
  shows "wp (observe_and_report R g (preflight_passed (pre_os (preflight_of K nodes))) (helm_installed version) version)
    (\<lambda>r t. r = (requeue_later, None) \<longrightarrow> at_rest snap installed R (world t)) s"
proof (rule wp_observe)
  fix t
  assume t: "still s [List_Daemon_Sets gpu_operator_namespace [(''app'', driver_app_label)]
      (sn_daemon_sets (snap (world s)) gpu_operator_namespace [(''app'', driver_app_label)]),
    Get_Object cluster_policy_gvk cluster_policy_name (sn_object (snap (world s)) cluster_policy_gvk cluster_policy_name)] t"
  have g: "sn_gpu (snap (world t)) (gpu_name g) = Inr g" "gpu_name g = expected_cr_name"
    using serving t by (auto simp: serving_def in_service_def still_def)
  show "wp (apply_status K (gpu_name g) (report_of K (snap (world s)) nodes version))
    (\<lambda>e u. (case e of Some x \<Rightarrow> (no_result, Some x) | None \<Rightarrow> (requeue_later, None)) = (requeue_later, None) \<longrightarrow>
       at_rest snap installed R (world u)) t"
  proof (rule wp_apply_reported [OF g(1)])
    fix u rv tm
    let ?g = "g\<lparr>gpu_status_of := merge_status K tm (generation g) (report_of K (snap (world s)) nodes version) (gpu_status_of g),
      resource_version := rv\<rparr>"
    assume u: "snap (world u) = (snap (world t))\<lparr>sn_gpu := (sn_gpu (snap (world t)))(gpu_name g := Inr ?g)\<rparr>"
      and kept: "\<And>data vals. installed data vals (world t) \<Longrightarrow> installed data vals (world u)"
    have same: "sn_nodes (snap (world u)) = sn_nodes (snap (world s))"
      "sn_daemon_sets (snap (world u)) = sn_daemon_sets (snap (world s))"
      "sn_object (snap (world u)) = sn_object (snap (world s))"
      using u t by (simp_all add: still_def)
    have "sn_gpu (snap (world u)) expected_cr_name = Inr ?g" using u g(2) by simp
    then have "serving R (snap (world u)) ?g nodes data vals version"
      using serving same(1) by (simp add: serving_def in_service_def has_finalizer_def)
    moreover have "installed data vals (world u)"
      using kept assms(2) t by (simp add: still_def)
    moreover have "reported R (snap (world u)) ?g nodes version"
      unfolding reported_def report_of_cong [OF same(2,3)] by (simp, blast)
    ultimately show "(case None of Some x \<Rightarrow> (no_result, Some x) | None \<Rightarrow> (requeue_later, None)) = (requeue_later, None) \<longrightarrow>
        at_rest snap installed R (world u)"
      unfolding at_rest_def by blast
  qed simp
qed

lemma emits_delete_no_install: "emits (reconcile_delete R g) (\<lambda>e. \<not> is_install e)"
  unfolding reconcile_delete_def finish_delete_def delete_namespace_def release_finalizer_def
    detect_active_gpu_workloads_def Let_def request_defs
  by (auto intro!: emits_rules emits_status_no_install split: emits_cases)

lemma wp_no_install:
  assumes "emits m (\<lambda>e. \<not> is_install e)" and "list_all (\<lambda>e. \<not> is_install e) (log s)"
  shows "wp m (\<lambda>r t. P r t \<longrightarrow> list_ex is_install (log t) \<longrightarrow> X t) s"
  by (rule wp_emits [OF assms(1)]) (use assms(2) in \<open>auto simp: list_ex_iff list_all_iff\<close>)

lemma wp_installed_rests:
  assumes marshals: "\<And>cluster vals. build_values (r_assets R) (r_yaml R) (gpu_spec_of g) cluster = Done (Inr vals) \<Longrightarrow> marshals vals"
    and g: "sn_gpu (snap (world s)) expected_cr_name = Inr g" "in_service K g"
    and start: "list_all (\<lambda>e. \<not> is_install e) (log s)"
  shows "wp (reconcile_installed R g)
    (\<lambda>r t. r = Done (requeue_later, None) \<longrightarrow> list_ex is_install (log t) \<longrightarrow> at_rest snap installed R (world t)) s"
  unfolding reconcile_installed_def wp_bind
proof (rule wp_preflight_cases [OF _ _ start], goal_cases)
  case (1 os res e t)
  then show ?case by (simp add: wp_simps list_ex_iff list_all_iff)
next
  case (2 nodes t)
  let ?os = "pre_os (preflight_of K nodes)"
  let ?Q = "\<lambda>r t. r = Done (requeue_later, None) \<longrightarrow> list_ex is_install (log t) \<longrightarrow> at_rest snap installed R (world t)"
  have "wp (reconciler_install_or_upgrade R g (preflight_passed ?os) ?os)
    (\<lambda>h. wp (case h of
          Panic m \<Rightarrow> State_Monad.return (Panic m)
        | Done (Inl x) \<Rightarrow> State_Monad.return (Done (no_result, Some x))
        | Done (Inr (hc, version)) \<Rightarrow> do {
            res \<leftarrow> observe_and_report R g (preflight_passed ?os) hc version;
            State_Monad.return (Done res)
          }) ?Q) t"
  proof (rule wp_install_cases)
    fix data vals version and u :: "('w, kube_event) st"
    assume "gpu_operator_chart (r_assets R) = Inr data"
      "build_values (r_assets R) (r_yaml R) (gpu_spec_of g) \<lparr>cluster_os = ?os\<rparr> = Done (Inr vals)"
      "gpu_operator_chart_version (r_assets R) = Inr version"
      "sn_gpu (snap (world u)) = sn_gpu (snap (world t))" "sn_nodes (snap (world u)) = sn_nodes (snap (world t))"
      and there: "installed data vals (world u)"
    then have "serving R (snap (world u)) g nodes data vals version"
      using 2 g by (simp add: serving_def still_def)
    from wp_report_rests [OF this there]
    show "wp (case Done (Inr (helm_installed version, version)) of
          Panic m \<Rightarrow> State_Monad.return (Panic m)
        | Done (Inl x) \<Rightarrow> State_Monad.return (Done (no_result, Some x))
        | Done (Inr (hc, version)) \<Rightarrow> do {
            res \<leftarrow> observe_and_report R g (preflight_passed ?os) hc version;
            State_Monad.return (Done res)
          }) ?Q u"
      by (simp add: wp_simps) (rule wp_mono, assumption, simp)
  qed (use marshals in \<open>simp_all add: wp_simps\<close>)
  then show ?case by (simp add: wp_bind)
qed

lemma wp_reconcile_rests:
  assumes marshals: "\<And>g cluster vals. sn_gpu (snap w) req = Inr g \<Longrightarrow>
      build_values (r_assets R) (r_yaml R) (gpu_spec_of g) cluster = Done (Inr vals) \<Longrightarrow> marshals vals"
  shows "wp (reconcile R req)
    (\<lambda>r t. r = Done (requeue_later, None) \<longrightarrow> list_ex is_install (log t) \<longrightarrow> at_rest snap installed R (world t)) (start w)"
  unfolding reconcile_def Let_def wp_bind
proof (rule wp_get_gpu)
  fix t assume t: "still (start w) [Get_Gpu req (sn_gpu (snap (world (start w))) req)] t"
  then have quiet: "list_all (\<lambda>e. \<not> is_install e) (log t)" by (simp add: still_def)
  show "wp (case sn_gpu (snap (world (start w))) req of
        Inl e \<Rightarrow> State_Monad.return (Done (no_result, if is_not_found K e then None else Some (Wrap_Err ''fetching Gpu CR'' e)))
      | Inr g \<Rightarrow>
         if \<not> is_zero_time (deletion_timestamp g) then reconcile_delete R g
         else if gpu_name g \<noteq> expected_cr_name then do {
           e \<leftarrow> apply_status K (gpu_name g) (only_conditions [forbidden_name K]);
           State_Monad.return (Done (no_result, e))
         }
         else if \<not> has_finalizer K g then do {
           e \<leftarrow> update_gpu K (with_finalizer K g);
           State_Monad.return (Done (no_result, map_option (Wrap_Err ''adding finalizer'') e))
         }
         else reconcile_installed R g)
    (\<lambda>r t. r = Done (requeue_later, None) \<longrightarrow> list_ex is_install (log t) \<longrightarrow> at_rest snap installed R (world t)) t"
  proof (cases "sn_gpu (snap w) req")
    case (Inr g)
    have "wp (reconcile_installed R g)
        (\<lambda>r t. r = Done (requeue_later, None) \<longrightarrow> list_ex is_install (log t) \<longrightarrow> at_rest snap installed R (world t)) t"
      if "is_zero_time (deletion_timestamp g)" "gpu_name g = expected_cr_name" "has_finalizer K g"
    proof (rule wp_installed_rests [OF marshals [OF Inr] _ _ quiet])
      show "sn_gpu (snap (world t)) expected_cr_name = Inr g"
        using t Inr gpu_named [OF Inr] that(2) by (simp add: still_def)
    qed (use that in \<open>simp_all add: in_service_def\<close>)
    then show ?thesis
      using wp_no_install [OF emits_delete_no_install quiet]
      by (auto simp: Inr wp_simps wp_True update_gpu_def wp_call split: prod.split)
  qed (simp add: wp_simps)
qed

section \<open>At rest, and staying there\<close>

text \<open>What a cycle of a cluster at rest leads to.\<close>

abbreviation (input) stays :: "reconcile_return run \<Rightarrow> ('w, kube_event) st \<Rightarrow> bool" where
  "stays \<equiv> \<lambda>r t. list_ex helm_failed_call (log t) \<or>
     r = Done (requeue_later, None) \<and> list_all only_looks (log t) \<and> at_rest snap installed R (world t)"

lemma wp_report_stays:
  assumes serving: "serving R (snap (world s)) g nodes data vals version"
    and there: "installed data vals (world s)" and reported: "reported R (snap (world s)) g nodes version"
    and looked: "list_all only_looks (log s)"
  shows "wp (observe_and_report R g (preflight_passed (pre_os (preflight_of K nodes))) (helm_installed version) version)
    (\<lambda>r t. stays (Done r) t) s"
proof (rule wp_observe, rule wp_apply_unchanged)
  fix t
  assume t: "still s [List_Daemon_Sets gpu_operator_namespace [(''app'', driver_app_label)]
      (sn_daemon_sets (snap (world s)) gpu_operator_namespace [(''app'', driver_app_label)]),
    Get_Object cluster_policy_gvk cluster_policy_name (sn_object (snap (world s)) cluster_policy_gvk cluster_policy_name)] t"
  show "sn_gpu (snap (world t)) (gpu_name g) = Inr g"
    using serving t by (simp add: serving_def in_service_def still_def)
  show "merge_status K tm (generation g) (report_of K (snap (world s)) nodes version) (gpu_status_of g) = gpu_status_of g" for tm
    by (rule reported_again [OF kube_library_axioms reported])
  fix u assume u: "still t [Get_Gpu (gpu_name g) (Inr g)] u"
  have "snap (world u) = snap (world s)" "installed data vals (world u)"
    using t u there by (simp_all add: still_def)
  then have "at_rest snap installed R (world u)"
    using serving reported unfolding at_rest_def by metis
  then show "stays (Done (case None of Some x \<Rightarrow> (no_result, Some x) | None \<Rightarrow> (requeue_later, None))) u"
    using t u looked by (simp add: still_def)
qed

lemma wp_install_stays:
  assumes serving: "serving R (snap (world s)) g nodes data vals version"
    and there: "installed data vals (world s)" and looked: "list_all only_looks (log s)"
    and same: "\<And>t. snap (world t) = snap (world s) \<Longrightarrow> installed data vals (world t) \<Longrightarrow> list_all only_looks (log t) \<Longrightarrow>
      Q (Done (Inr (helm_installed version, version))) t"
    and failed: "\<And>e t. list_ex helm_failed_call (log t) \<Longrightarrow> Q (Done (Inl e)) t"
  shows "wp (reconciler_install_or_upgrade R g pc (pre_os (preflight_of K nodes))) Q s"
proof (cases "install_or_upgrade_op (r_installer R) data vals (world s)")
  case (Pair r w)
  let ?t = "s\<lparr>world := w, log := log s @ [Install_Call data vals r]\<rparr>"
  have known: "gpu_operator_chart (r_assets R) = Inr data"
    "build_values (r_assets R) (r_yaml R) (gpu_spec_of g) \<lparr>cluster_os = pre_os (preflight_of K nodes)\<rparr> = Done (Inr vals)"
    "gpu_operator_chart_version (r_assets R) = Inr version"
    using serving by (simp_all add: serving_def)
  from inst.installed_stays [OF there Pair] have w: "installed data vals w"
    and r: "r = Done (Inr False) \<or> (\<exists>e. r = Done (Inl e))" by simp_all
  from r show ?thesis
  proof (elim disjE exE)
    assume r: "r = Done (Inr False)"
    then have "Q (Done (Inr (helm_installed version, version))) ?t"
      using no_change [of data vals "world s" w] there Pair w looked by (intro same) simp_all
    then show ?thesis
      by (simp add: reconciler_install_or_upgrade_def known wp_simps install_or_upgrade_def wp_call Pair r)
  next
    fix e assume r: "r = Done (Inl e)"
    have "wp (apply_status K name upd) (\<lambda>x. Q (Done (Inl y))) ?t" for name upd y
      by (rule wp_emits [OF emits_apply_status]) (simp add: failed r)
    then show ?thesis
      by (simp add: reconciler_install_or_upgrade_def known wp_simps install_or_upgrade_def wp_call Pair r)
  qed
qed

lemma wp_preflight_stays:
  assumes "sn_nodes (snap (world s)) = Inr nodes" and "pre_outcome (preflight_of K nodes) = OutcomeProceed"
    and "\<And>t. still s [List_Nodes (Inr nodes)] t \<Longrightarrow>
      Q (Some (preflight_passed (pre_os (preflight_of K nodes))), pre_os (preflight_of K nodes), no_result, None) t"
  shows "wp (reconciler_run_preflight R g) Q s"
  unfolding reconciler_run_preflight_def run_preflight_def wp_bind
  by (rule wp_list_nodes) (use assms in \<open>simp add: wp_simps preflight_of_def\<close>)

lemma wp_installed_stays:
  assumes serving: "serving R (snap (world s)) g nodes data vals version"
    and there: "installed data vals (world s)" and reported: "reported R (snap (world s)) g nodes version"
    and looked: "list_all only_looks (log s)"
  shows "wp (reconcile_installed R g) stays s"
  unfolding reconcile_installed_def wp_bind
proof (rule wp_preflight_stays)
  show "sn_nodes (snap (world s)) = Inr nodes" "pre_outcome (preflight_of K nodes) = OutcomeProceed"
    using serving by (simp_all add: serving_def)
  fix t assume "still s [List_Nodes (Inr nodes)] t"
  then have t: "snap (world t) = snap (world s)" "installed data vals (world t)" "list_all only_looks (log t)"
    using there looked by (simp_all add: still_def)
  have "wp (reconciler_install_or_upgrade R g (preflight_passed (pre_os (preflight_of K nodes)))
          (pre_os (preflight_of K nodes)))
    (\<lambda>h. wp (case h of
        Panic m \<Rightarrow> State_Monad.return (Panic m)
      | Done (Inl x) \<Rightarrow> State_Monad.return (Done (no_result, Some x))
      | Done (Inr (hc, version)) \<Rightarrow> do {
          res \<leftarrow> observe_and_report R g (preflight_passed (pre_os (preflight_of K nodes))) hc version;
          State_Monad.return (Done res)
        }) stays) t"
    by (rule wp_install_stays [of _ g nodes data vals version])
       (use t serving reported wp_report_stays [of _ g nodes data vals version] in \<open>simp_all add: wp_simps\<close>)
  then show "wp (case (Some (preflight_passed (pre_os (preflight_of K nodes))), pre_os (preflight_of K nodes), no_result, None) of
      (preflight_cond, os, result, e) \<Rightarrow>
       (case preflight_cond of
          None \<Rightarrow> State_Monad.return (Done (result, e))
        | Some pc \<Rightarrow>
            if e \<noteq> None then State_Monad.return (Done (result, e))
            else do {
              h \<leftarrow> reconciler_install_or_upgrade R g pc os;
              case h of
                Panic m \<Rightarrow> State_Monad.return (Panic m)
              | Done (Inl x) \<Rightarrow> State_Monad.return (Done (no_result, Some x))
              | Done (Inr (hc, version)) \<Rightarrow> do {
                  res \<leftarrow> observe_and_report R g pc hc version;
                  State_Monad.return (Done res)
                }
            })) stays t"
    by (simp add: wp_bind)
qed

lemma wp_reconcile_stays:
  assumes "at_rest snap installed R w"
  shows "wp (reconcile R expected_cr_name) stays (start w)"
proof -
  obtain g nodes data vals version where serving: "serving R (snap w) g nodes data vals version"
    and there: "installed data vals w" and reported: "reported R (snap w) g nodes version"
    using assms by (auto simp: at_rest_def)
  have g: "sn_gpu (snap w) expected_cr_name = Inr g" "is_zero_time (deletion_timestamp g)"
    "gpu_name g = expected_cr_name" "has_finalizer K g"
    using serving by (simp_all add: serving_def in_service_def)
  have "wp (reconcile_installed R g) stays t" if "still (start w) [Get_Gpu expected_cr_name (Inr g)] t" for t
    using that serving there reported
    by (intro wp_installed_stays [of _ g nodes data vals version]) (simp_all add: still_def)
  then show ?thesis
    unfolding reconcile_def Let_def wp_bind by (intro wp_get_gpu) (simp add: g)
qed

text \<open>Any number of cycles: the log of each.\<close>

lemma cycles_at_rest:
  assumes "at_rest snap installed R w"
  shows "list_all (\<lambda>tr. \<not> list_ex helm_failed_call tr) (cycles R n w) \<longrightarrow>
    list_all (list_all only_looks) (cycles R n w)"
  using assms
proof (induction n arbitrary: w)
  case (Suc n)
  from wp_reconcile_stays [OF Suc.prems]
  have "list_ex helm_failed_call (trace_of (reconcile R expected_cr_name) w) \<or>
    list_all only_looks (trace_of (reconcile R expected_cr_name) w) \<and>
    at_rest snap installed R (world_of (reconcile R expected_cr_name) w)"
    by (auto simp: wp_def trace_of_def world_of_def split: prod.splits)
  with Suc.IH show ?case by auto
qed simp

end

end
