(* ===== verification/Lifecycle.thy ===== *)
theory Lifecycle
  imports Protocol Reference_Cluster
begin

text \<open>
  Repeated reconciliations: the controller, the users and everything else in the cluster take
  turns, and between any two requests of one reconciliation the others may act too. The
  contract \<open>gpu_cluster\<close> says what the API server and the others never do; the invariant is
  that a release is never orphaned: as long as one is deployed, the resource \<open>gpu\<close> exists with
  our finalizer, so that its deletion will remove the release.
\<close>

section \<open>The contract of the cluster\<close>

text \<open>
  \<open>owner w\<close>: the resource \<open>gpu\<close> exists and has our finalizer; \<open>deployed w\<close>: the release exists.
  A step is quiet when it keeps the owner and creates no release: that is all the others can do,
  because only the controller removes its finalizer, an object with finalizers stays, and only
  InstallOrUpgrade creates the release.
\<close>

definition quiet :: "('w \<Rightarrow> bool) \<Rightarrow> ('w \<Rightarrow> bool) \<Rightarrow> 'w \<Rightarrow> 'w \<Rightarrow> bool" where
  "quiet owner deployed w w' \<longleftrightarrow> (owner w \<longrightarrow> owner w') \<and> (deployed w' \<longrightarrow> deployed w)"

definition quiet_request :: "('w \<Rightarrow> bool) \<Rightarrow> ('w \<Rightarrow> bool) \<Rightarrow> ('w \<Rightarrow> 'r \<times> 'w) \<Rightarrow> bool" where
  "quiet_request owner deployed f \<longleftrightarrow> (\<forall>w. quiet owner deployed w (snd (f w)))"

lemma quiet_requestD: "quiet_request owner deployed f \<Longrightarrow> f w = (r, w') \<Longrightarrow> quiet owner deployed w w'"
  unfolding quiet_request_def by (metis snd_conv)

definition no_orphan :: "('w \<Rightarrow> bool) \<Rightarrow> ('w \<Rightarrow> bool) \<Rightarrow> 'w \<Rightarrow> bool" where
  "no_orphan owner deployed w \<longleftrightarrow> (deployed w \<longrightarrow> owner w)"

text \<open>
  A request may come back after any actions of the others. An object read with our finalizer
  and without a deletion timestamp owns the release; an update creates no release, and loses
  the owner only if it takes the finalizer from the resource \<open>gpu\<close>; an Uninstall without an
  error has removed the release.
\<close>

locale gpu_api =
  fixes K :: "'w kube" and owner :: "'w \<Rightarrow> bool" and deployed :: "'w \<Rightarrow> bool"
  assumes quiet_get_gpu: "quiet_request owner deployed (k_get_gpu K name)"
    and quiet_list_nodes: "quiet_request owner deployed (k_list_nodes K)"
    and quiet_list_pods: "quiet_request owner deployed (k_list_pods K)"
    and quiet_list_daemon_sets: "quiet_request owner deployed (k_list_daemon_sets K ns labels)"
    and quiet_get_object: "quiet_request owner deployed (k_get_object K kind name)"
    and quiet_delete_namespace: "quiet_request owner deployed (k_delete_namespace K name propagation)"
    and quiet_patch: "gpu_name live = gpu_name original \<Longrightarrow> finalizers live = finalizers original \<Longrightarrow>
      quiet_request owner deployed (k_patch_status K live original)"
    and get_gpu_name: "k_get_gpu K name w = (Inr g, w') \<Longrightarrow> gpu_name g = name"
    and get_gpu_owner: "k_get_gpu K expected_cr_name w = (Inr g, w') \<Longrightarrow>
      is_zero_time (deletion_timestamp g) \<Longrightarrow> has_finalizer K g \<Longrightarrow> owner w'"
    and update_release: "k_update_gpu K g w = (e, w') \<Longrightarrow> deployed w' \<longrightarrow> deployed w"
    and update_owner: "k_update_gpu K g w = (e, w') \<Longrightarrow> has_finalizer K g \<or> gpu_name g \<noteq> expected_cr_name \<Longrightarrow>
      owner w \<longrightarrow> owner w'"
    and with_finalizer_has: "has_finalizer K (with_finalizer K g)"

locale release_installer =
  fixes I :: "'w installer" and owner :: "'w \<Rightarrow> bool" and deployed :: "'w \<Rightarrow> bool"
  assumes install_owner: "install_or_upgrade_op I data vals w = (r, w') \<Longrightarrow> owner w \<longrightarrow> owner w'"
    and quiet_uninstall: "quiet_request owner deployed (uninstall_op I)"
    and uninstall_removes: "uninstall_op I w = (Done None, w') \<Longrightarrow> \<not> deployed w'"

locale gpu_cluster = gpu_api K owner deployed + release_installer I owner deployed
  for K :: "'w kube" and I :: "'w installer" and owner :: "'w \<Rightarrow> bool" and deployed :: "'w \<Rightarrow> bool"
begin

abbreviation (input) calm :: "'w \<Rightarrow> 'w \<Rightarrow> bool" where
  "calm \<equiv> quiet owner deployed"

abbreviation (input) owned :: "'w \<Rightarrow> bool" where
  "owned \<equiv> no_orphan owner deployed"

abbreviation (input) keeps :: "'a \<Rightarrow> ('w, kube_event) st \<Rightarrow> bool" where
  "keeps \<equiv> \<lambda>r t. no_orphan owner deployed (world t)"

lemmas quiet_requests = quiet_get_gpu quiet_list_nodes quiet_list_pods quiet_list_daemon_sets
  quiet_get_object quiet_delete_namespace quiet_uninstall

lemma calm_owned: "calm w w' \<Longrightarrow> owned w \<Longrightarrow> owned w'"
  by (auto simp: quiet_def no_orphan_def)

lemma calm_refl: "calm w w"
  by (simp add: quiet_def)

lemma calm_trans: "calm u v \<Longrightarrow> calm v w \<Longrightarrow> calm u w"
  by (auto simp: quiet_def)

lemma not_deployed_owned: "\<not> deployed w \<Longrightarrow> owned w"
  by (simp add: no_orphan_def)

section \<open>Rules for the requests\<close>

lemma wp_calm_call:
  assumes "quiet_request owner deployed f" and "\<And>r t. calm (world s) (world t) \<Longrightarrow> Q r t"
  shows "wp (call f ev) Q s"
proof (cases "f (world s)")
  case (Pair r w)
  then show ?thesis using assms(2) quiet_requestD [OF assms(1) Pair] by (simp add: wp_call)
qed

lemma wp_calm_status:
  assumes "\<And>e t. calm (world s) (world t) \<Longrightarrow> Q e t"
  shows "wp (apply_status K name upd) Q s"
  unfolding apply_status_def get_gpu_def patch_status_def Let_def wp_simps
  by (rule wp_calm_call [OF quiet_get_gpu])
     (auto simp: wp_read_clock split: sum.split
       intro!: wp_calm_call quiet_patch assms intro: calm_trans)

lemma wp_get_gpu_owner:
  assumes "\<And>e t. calm (world s) (world t) \<Longrightarrow> Q (Inl e) t"
    and "\<And>g t. calm (world s) (world t) \<Longrightarrow> gpu_name g = name \<Longrightarrow>
      (name = expected_cr_name \<Longrightarrow> is_zero_time (deletion_timestamp g) \<Longrightarrow> has_finalizer K g \<Longrightarrow>
        owner (world t)) \<Longrightarrow> Q (Inr g) t"
  shows "wp (get_gpu K name) Q s"
proof (cases "k_get_gpu K name (world s)")
  case (Pair r w')
  have step: "calm (world s) w'"
    by (rule quiet_requestD [OF quiet_get_gpu Pair])
  show ?thesis
  proof (cases r)
    case (Inl e)
    with Pair step assms(1) show ?thesis by (simp add: get_gpu_def wp_call)
  next
    case (Inr g)
    with Pair step show ?thesis
      by (simp add: get_gpu_def wp_call)
        (rule assms(2); use get_gpu_name get_gpu_owner in force)
  qed
qed

lemma wp_update_release:
  assumes "\<not> deployed (world s)" and "\<And>e t. \<not> deployed (world t) \<Longrightarrow> Q e t"
  shows "wp (update_gpu K g) Q s"
  using assms update_release [of g "world s"] by (auto simp: update_gpu_def wp_call split: prod.split)

lemma wp_update_owner:
  assumes "owned (world s)" and "has_finalizer K g \<or> gpu_name g \<noteq> expected_cr_name"
    and "\<And>e t. owned (world t) \<Longrightarrow> Q e t"
  shows "wp (update_gpu K g) Q s"
  using assms update_release [of g "world s"] update_owner [of g "world s"]
  by (auto simp: update_gpu_def wp_call no_orphan_def split: prod.split)

lemma wp_uninstall_gone:
  assumes "\<And>r t. calm (world s) (world t) \<Longrightarrow> (r = Done None \<Longrightarrow> \<not> deployed (world t)) \<Longrightarrow> Q r t"
  shows "wp (uninstall I) Q s"
proof (cases "uninstall_op I (world s)")
  case (Pair r w')
  have "calm (world s) w'"
    by (rule quiet_requestD [OF quiet_uninstall Pair])
  with Pair show ?thesis
    by (simp add: uninstall_def wp_call) (rule assms; use uninstall_removes in force)
qed

lemma wp_install_owner:
  assumes "owner (world s)" and "\<And>r t. owned (world t) \<Longrightarrow> Q r t"
  shows "wp (install_or_upgrade I data vals) Q s"
  using assms install_owner [of data vals "world s"]
  by (auto simp: install_or_upgrade_def wp_call no_orphan_def split: prod.split)

section \<open>The invariant through a reconciliation\<close>

lemma wp_status_keeps:
  assumes "owned (world s)" and "\<And>e t. owned (world t) \<Longrightarrow> Q e t"
  shows "wp (apply_status K name upd) Q s"
  by (rule wp_calm_status) (use assms calm_owned in blast)

lemma wp_request_keeps:
  assumes "quiet_request owner deployed f" and "owned (world s)" and "\<And>r t. owned (world t) \<Longrightarrow> Q r t"
  shows "wp (call f ev) Q s"
  by (rule wp_calm_call [OF assms(1)]) (use assms calm_owned in blast)

lemma wp_release_keeps:
  assumes "\<not> deployed (world s)"
  shows "wp (release_finalizer K name) keeps s"
  using assms unfolding release_finalizer_def
  by (auto simp: wp_simps quiet_def not_deployed_owned split: sum.split
      intro!: wp_get_gpu_owner wp_update_release)

lemma wp_delete_namespace_gone:
  assumes "\<not> deployed (world s)" and "\<And>r t. \<not> deployed (world t) \<Longrightarrow> Q r t"
  shows "wp (delete_namespace K name) Q s"
  using assms unfolding delete_namespace_def delete_object_namespace_def
  by (auto simp: wp_simps quiet_def split: option.split intro!: wp_calm_call quiet_delete_namespace)

lemma wp_finish_keeps:
  assumes "r_kube R = K" and "r_installer R = I" and "owned (world s)"
  shows "wp (finish_delete R g) keeps s"
  unfolding finish_delete_def assms(1,2) wp_simps
proof (rule wp_uninstall_gone)
  fix r and t :: "('w, kube_event) st"
  assume q: "calm (world s) (world t)" and gone: "r = Done None \<Longrightarrow> \<not> deployed (world t)"
  have "owned (world t)" by (rule calm_owned [OF q assms(3)])
  then show "(case r of
       Panic p \<Rightarrow> \<lambda>t. owned (world t)
     | Done None \<Rightarrow> wp (delete_namespace K gpu_operator_namespace) (\<lambda>d. case d of
           None \<Rightarrow> wp (release_finalizer K (gpu_name g)) (\<lambda>res t. owned (world t))
         | Some e \<Rightarrow> \<lambda>t. owned (world t))
     | Done (Some e) \<Rightarrow> \<lambda>t. owned (world t)) t"
    using gone
    by (auto split: run.split option.split intro!: wp_delete_namespace_gone wp_release_keeps
        simp: not_deployed_owned)
qed

lemma gpu_name_without: "gpu_name (without_finalizer K g) = gpu_name g"
  by (simp add: without_finalizer_def)

lemma wp_delete_keeps:
  assumes "r_kube R = K" and "r_installer R = I" and "owned (world s)"
  shows "wp (reconcile_delete R g) keeps s"
  using assms(3) unfolding reconcile_delete_def assms(1) Let_def detect_active_gpu_workloads_def list_pods_def
  by (auto simp: wp_simps split: sum.split
      simp: gpu_name_without
      intro!: wp_update_owner wp_status_keeps wp_request_keeps quiet_list_pods wp_finish_keeps assms(1,2))

lemma owner_owned: "owner w \<Longrightarrow> owned w"
  by (simp add: no_orphan_def)

lemma wp_install_keeps:
  assumes "r_kube R = K" and "r_installer R = I" and "owner (world s)" and "\<And>r t. owned (world t) \<Longrightarrow> Q r t"
  shows "wp (reconciler_install_or_upgrade R g pc os) Q s"
  using assms(3,4) unfolding reconciler_install_or_upgrade_def assms(1,2)
  by (auto simp: wp_simps owner_owned split: sum.split run.split
      intro!: wp_install_owner wp_status_keeps)

lemma wp_preflight_keeps:
  assumes "r_kube R = K" and "owner (world s)"
    and "\<And>r t. owner (world t) \<Longrightarrow> Q r t"
  shows "wp (reconciler_run_preflight R g) Q s"
  unfolding reconciler_run_preflight_def run_preflight_def list_nodes_def assms(1) wp_simps
  using assms(2,3)
  by (auto simp: wp_simps quiet_def split: sum.split outcome.split option.split
      intro!: wp_calm_call quiet_list_nodes wp_calm_status)

lemma wp_observe_keeps:
  assumes "r_kube R = K" and "owned (world s)"
  shows "wp (observe_and_report R g pc hc v) (\<lambda>res t. owned (world t)) s"
  using assms(2) unfolding observe_and_report_def check_driver_daemon_set_def check_cluster_policy_def
    list_daemon_sets_def get_object_def assms(1) Let_def
  by (auto simp: wp_simps split: option.split sum.split
      intro!: wp_request_keeps quiet_list_daemon_sets quiet_get_object wp_status_keeps)

lemma wp_installed_keeps:
  assumes "r_kube R = K" and "r_installer R = I" and "owner (world s)"
  shows "wp (reconcile_installed R g) keeps s"
  unfolding reconcile_installed_def wp_simps
  by (rule wp_preflight_keeps [OF assms(1,3)])
     (auto simp: wp_simps owner_owned split: option.split run.split sum.split
       intro!: wp_install_keeps wp_observe_keeps assms(1,2))

lemma wp_reconcile_keeps:
  assumes "r_kube R = K" and "r_installer R = I" and "owned (world s)"
  shows "wp (reconcile R req) keeps s"
  unfolding reconcile_def assms(1) Let_def wp_simps
proof (rule wp_get_gpu_owner)
  fix g and t :: "('w, kube_event) st"
  assume "calm (world s) (world t)" and name: "gpu_name g = req"
    and owner: "req = expected_cr_name \<Longrightarrow> is_zero_time (deletion_timestamp g) \<Longrightarrow> has_finalizer K g \<Longrightarrow>
      owner (world t)"
  then have "owned (world t)" using assms(3) calm_owned by blast
  then show "(case Inr g of
       Inl e \<Rightarrow> \<lambda>t. owned (world t)
     | Inr g \<Rightarrow>
         if \<not> is_zero_time (deletion_timestamp g) then wp (reconcile_delete R g) keeps
         else if gpu_name g \<noteq> expected_cr_name
           then wp (apply_status K (gpu_name g) (only_conditions [forbidden_name K])) (\<lambda>e. keeps e)
         else if \<not> has_finalizer K g then wp (update_gpu K (with_finalizer K g)) (\<lambda>e. keeps e)
         else wp (reconcile_installed R g) keeps) t"
    using name owner
    by (auto intro!: wp_delete_keeps wp_status_keeps wp_update_owner wp_installed_keeps assms(1,2)
        simp: with_finalizer_has)
next
  fix e and t :: "('w, kube_event) st"
  assume "calm (world s) (world t)"
  then show "(case Inl e of
       Inl e \<Rightarrow> \<lambda>t. owned (world t)
     | Inr g \<Rightarrow>
         if \<not> is_zero_time (deletion_timestamp g) then wp (reconcile_delete R g) keeps
         else if gpu_name g \<noteq> expected_cr_name
           then wp (apply_status K (gpu_name g) (only_conditions [forbidden_name K])) (\<lambda>e. keeps e)
         else if \<not> has_finalizer K g then wp (update_gpu K (with_finalizer K g)) (\<lambda>e. keeps e)
         else wp (reconcile_installed R g) keeps) t"
    using assms(3) calm_owned by simp
qed

lemma reconcile_keeps:
  assumes "r_kube R = K" and "r_installer R = I" and "owned w"
  shows "owned (world_of (reconcile R req) w)"
  using wp_reconcile_keeps [OF assms(1,2), of "start w" req] assms(3) by (simp add: wp_run world_of_def)

end

section \<open>Histories\<close>

text \<open>
  What can become of the cluster: the controller reconciles any request, everybody else takes
  quiet steps, in any order and number.
\<close>

inductive reachable ::
  "('w, 'v) reconciler \<Rightarrow> ('w \<Rightarrow> bool) \<Rightarrow> ('w \<Rightarrow> bool) \<Rightarrow> 'w \<Rightarrow> 'w \<Rightarrow> bool"
  for R :: "('w, 'v) reconciler" and owner :: "'w \<Rightarrow> bool" and deployed :: "'w \<Rightarrow> bool" where
  begins: "reachable R owner deployed w w"
| others: "reachable R owner deployed w u \<Longrightarrow> quiet owner deployed u v \<Longrightarrow> reachable R owner deployed w v"
| reconciles: "reachable R owner deployed w u \<Longrightarrow>
    reachable R owner deployed w (world_of (reconcile R req) u)"

context gpu_cluster
begin

lemma reachable_owned:
  assumes "reachable R owner deployed w v" and "r_kube R = K" and "r_installer R = I" and "owned w"
  shows "owned v"
  using assms
proof (induction rule: reachable.induct)
  case (others w u v)
  then show ?case using calm_owned by blast
next
  case (reconciles w u req)
  then show ?case using reconcile_keeps by blast
qed simp

end

text \<open>A release is never orphaned: as long as one is deployed, the resource \<open>gpu\<close> exists with
  the finalizer, whatever the controller reconciled and whatever the others did (short of
  taking the finalizer or deploying a release themselves), in any order.\<close>

theorem never_orphaned:
  assumes "gpu_cluster (r_kube R) (r_installer R) owner deployed"
    and "reachable R owner deployed w v" and "deployed w \<longrightarrow> owner w"
  shows "deployed v \<longrightarrow> owner v"
  using gpu_cluster.reachable_owned [OF assms(1,2) refl refl] assms(3) by (simp add: no_orphan_def)

section \<open>The reference cluster\<close>

definition ref_owner :: "cluster \<Rightarrow> bool" where
  "ref_owner c = (case cl_gpu c of None \<Rightarrow> False
     | Some g \<Rightarrow> gpu_name g = expected_cr_name \<and> gpu_finalizer \<in> set (finalizers g))"

definition ref_deployed :: "cluster \<Rightarrow> bool" where
  "ref_deployed c \<longleftrightarrow> cl_release c \<noteq> None"

interpretation life: gpu_cluster ref_kube ref_installer ref_owner ref_deployed
  by unfold_locales
    (auto simp: ref_kube_simps ref_installer_def quiet_request_def quiet_def ref_owner_def ref_deployed_def
      has_finalizer_def with_finalizer_def add_fin_def split: option.splits if_splits)

theorem never_orphaned_witness:
  "ref_owner (world_of (reconcile ref_reconciler ''gpu'') ref_cluster)"
proof -
  have "reachable ref_reconciler ref_owner ref_deployed ref_cluster
      (world_of (reconcile ref_reconciler ''gpu'') ref_cluster)"
    by (rule reachable.reconciles [OF reachable.begins])
  moreover have "gpu_cluster (r_kube ref_reconciler) (r_installer ref_reconciler) ref_owner ref_deployed"
    using life.gpu_cluster_axioms by (simp add: ref_reconciler_def)
  moreover have "ref_deployed (world_of (reconcile ref_reconciler ''gpu'') ref_cluster)" by code_simp
  moreover have "\<not> ref_deployed ref_cluster" by code_simp
  ultimately show ?thesis
    using never_orphaned [of ref_reconciler ref_owner ref_deployed ref_cluster] by blast
qed

end
