(* ===== verification/Full_System.thy ===== *)
theory Full_System
  imports Lifecycle Helm_Memory
begin

text \<open>
  The controller with its own Helm client, in one world: the cluster, in which the API server's
  objects and Helm's release Secrets live side by side. A Helm call may change any object but
  does not take our finalizer; a request to the API server (deleting the namespace that holds the
  Secrets, say) may make releases disappear but never appear. The Helm client over any such
  store keeps the laws that \<open>gpu_cluster\<close> asks of an installer, so the invariant of \<open>Lifecycle\<close>
  holds of the whole operator.
\<close>

section \<open>The Helm client as installer\<close>

text \<open>The release is there: deployed or failed, the two states that Uninstall looks for.\<close>

definition release_present :: "('h \<Rightarrow> release list) \<Rightarrow> 'h \<Rightarrow> bool" where
  "release_present releases h \<longleftrightarrow>
     (\<exists>rel \<in> set (releases h). rel_name rel = release_name \<and> listed [ListDeployed, ListFailed] rel)"

context helm_store
begin

lemma removed_iff: "removed h \<longleftrightarrow> \<not> release_present releases h"
  by (auto simp: removed_def release_present_def)

lemma uninstall_keeps_absent:
  "\<not> release_present releases h \<Longrightarrow> \<not> release_present releases (world_of (client_uninstall H) h)"
  using wp_uninstall_pending [of "start h", unfolded wp_result_world]
  by (simp add: removed_iff world_of_def release_present_def)

lemma uninstall_done_absent:
  "result_of (client_uninstall H) h = Done None \<Longrightarrow> \<not> release_present releases (world_of (client_uninstall H) h)"
  using wp_client_uninstall [of "start h", unfolded wp_result_world]
  by (simp add: removed_iff world_of_def)

end

text \<open>A store in the cluster: no request of the SDK takes the finalizer from the resource.\<close>

locale helm_in_cluster = helm_store H releases
  for H :: "'w helm_sdk" and releases :: "'w \<Rightarrow> release list" +
  fixes owner :: "'w \<Rightarrow> bool"
  assumes requests_keep_owner: "sdk_moves (\<lambda>w w'. owner w \<longrightarrow> owner w') (\<lambda>_. True) H"
begin

lemma client_keeps_owner:
  "owner w \<Longrightarrow> owner (world_of (client_install_or_upgrade H data vals) w)"
  "owner w \<Longrightarrow> owner (world_of (client_uninstall H) w)"
  using moves_world [OF moves_client(1) [OF requests_keep_owner, of data vals], of w]
    moves_world [OF moves_client(2) [OF requests_keep_owner], of w] by (simp_all add: list_all_iff)

end

sublocale helm_in_cluster \<subseteq> keeper: release_installer "helm_installer H" owner "release_present releases"
  by unfold_locales
    (use uninstall_keeps_absent uninstall_done_absent client_keeps_owner in
      \<open>auto simp: quiet_request_def quiet_def helm_installer_def\<close>)

context helm_in_cluster
begin

lemma store_keeper: "release_installer (helm_installer H) owner (release_present releases)"
  by (rule keeper.release_installer_axioms)

end

lemma operator_contract:
  assumes "gpu_api K owner (release_present releases)" and "helm_in_cluster H releases owner"
  shows "gpu_cluster K (helm_installer H) owner (release_present releases)"
  by (rule gpu_cluster.intro [OF assms(1) helm_in_cluster.store_keeper [OF assms(2)]])

text \<open>C7: The operator as built (controller and Helm client, in one cluster) never orphans its
  release: over any API server and Helm store that behave as documented, a release that is
  deployed or failed always has the resource \<open>gpu\<close> with the finalizer as its owner, if it had
  one at first. The controller reconciles any requests, and everybody else acts before, between
  and during the reconciliations, in any order and number, with one restriction: nobody else
  takes the finalizer away from the resource or creates a release of this name (\<open>quiet\<close>).\<close>

theorem operator_never_orphans:
  assumes "gpu_api K owner (release_present releases)" and "helm_in_cluster H releases owner"
    and "r_kube R = K" and "r_installer R = helm_installer H"
    and "reachable R owner (release_present releases) w v"
    and "release_present releases w \<longrightarrow> owner w"
  shows "release_present releases v \<longrightarrow> owner v"
  using gpu_cluster.reachable_owned [OF operator_contract [OF assms(1,2)] assms(5,3,4)] assms(6)
  by (simp add: no_orphan_def)

section \<open>A cluster that holds the releases\<close>

text \<open>
  An API server and a release store put together: deleting a namespace also deletes what the
  store keeps in it (\<open>gone\<close>), and installing a chart also creates objects (\<open>created\<close>).
\<close>

definition on_left :: "('a \<Rightarrow> 'r \<times> 'a) \<Rightarrow> 'a \<times> 'b \<Rightarrow> 'r \<times> 'a \<times> 'b" where
  "on_left f w = (case f (fst w) of (r, a) \<Rightarrow> (r, a, snd w))"

definition on_right :: "('b \<Rightarrow> 'r \<times> 'b) \<Rightarrow> 'a \<times> 'b \<Rightarrow> 'r \<times> 'a \<times> 'b" where
  "on_right f w = (case f (snd w) of (r, b) \<Rightarrow> (r, fst w, b))"

definition left_kube :: "('b \<Rightarrow> 'b) \<Rightarrow> 'a kube \<Rightarrow> ('a \<times> 'b) kube" where
  "left_kube gone K =
     \<lparr>find_condition = find_condition K, set_condition = set_condition K,
      contains_finalizer = contains_finalizer K, add_finalizer = add_finalizer K,
      remove_finalizer = remove_finalizer K, semantic_equal = semantic_equal K,
      nested_string = nested_string K, is_not_found = is_not_found K,
      unicode_lower = unicode_lower K, unicode_quote = unicode_quote K,
      clock = (\<lambda>w. clock K (fst w)),
      k_get_gpu = (\<lambda>name. on_left (k_get_gpu K name)),
      k_update_gpu = (\<lambda>g. on_left (k_update_gpu K g)),
      k_patch_status = (\<lambda>live original. on_left (k_patch_status K live original)),
      k_list_gpus = on_left (k_list_gpus K),
      k_list_nodes = on_left (k_list_nodes K),
      k_list_pods = on_left (k_list_pods K),
      k_list_daemon_sets = (\<lambda>ns labels. on_left (k_list_daemon_sets K ns labels)),
      k_get_object = (\<lambda>kind name. on_left (k_get_object K kind name)),
      k_delete_namespace = (\<lambda>name propagation w.
        case k_delete_namespace K name propagation (fst w) of
          (e, a) \<Rightarrow> (e, a, if e = None then gone (snd w) else snd w))\<rparr>"

definition right_sdk :: "('a \<Rightarrow> 'a) \<Rightarrow> 'b helm_sdk \<Rightarrow> ('a \<times> 'b) helm_sdk" where
  "right_sdk created H =
     \<lparr>sdk_init = (\<lambda>ns driver. on_right (sdk_init H ns driver)),
      sdk_list = (\<lambda>states. on_right (sdk_list H states)),
      sdk_rollback = (\<lambda>name. on_right (sdk_rollback H name)),
      sdk_uninstall = (\<lambda>wait name. on_right (sdk_uninstall H wait name)),
      sdk_install = (\<lambda>opts chrt vals w.
        case sdk_install H opts chrt vals (snd w) of
          (e, b) \<Rightarrow> (e, if e = None then created (fst w) else fst w, b)),
      sdk_upgrade = (\<lambda>opts name chrt vals. on_right (sdk_upgrade H opts name chrt vals)),
      sdk_load_archive = sdk_load_archive H, sdk_float_text = sdk_float_text H\<rparr>"

lemma quiet_left:
  "quiet_request p (\<lambda>_. False) f \<Longrightarrow> quiet_request (\<lambda>w. p (fst w)) (\<lambda>w. q (snd w)) (on_left f)"
  by (auto simp: quiet_request_def quiet_def on_left_def split: prod.split)

lemma left_finalizers [simp]:
  "has_finalizer (left_kube gone K) g = has_finalizer K g"
  "with_finalizer (left_kube gone K) g = with_finalizer K g"
  by (simp_all add: has_finalizer_def with_finalizer_def left_kube_def)

lemma on_left_eq: "on_left f w = (r, w') \<longleftrightarrow> f (fst w) = (r, fst w') \<and> snd w' = snd w"
  by (cases w') (auto simp: on_left_def split: prod.split)

lemma on_right_eq: "on_right f w = (r, w') \<longleftrightarrow> f (snd w) = (r, snd w') \<and> fst w' = fst w"
  by (cases w') (auto simp: on_right_def split: prod.split)

lemma left_requests:
  "k_get_gpu (left_kube gone K) name = on_left (k_get_gpu K name)"
  "k_update_gpu (left_kube gone K) g = on_left (k_update_gpu K g)"
  "k_patch_status (left_kube gone K) live original = on_left (k_patch_status K live original)"
  "k_list_nodes (left_kube gone K) = on_left (k_list_nodes K)"
  "k_list_pods (left_kube gone K) = on_left (k_list_pods K)"
  "k_list_daemon_sets (left_kube gone K) ns labels = on_left (k_list_daemon_sets K ns labels)"
  "k_get_object (left_kube gone K) kind n = on_left (k_get_object K kind n)"
  by (simp_all add: left_kube_def)

lemma quiet_left_delete:
  assumes "quiet_request p (\<lambda>_. False) (k_delete_namespace K name propagation)" and "\<And>b. q (gone b) \<Longrightarrow> q b"
  shows "quiet_request (\<lambda>w. p (fst w)) (\<lambda>w. q (snd w)) (k_delete_namespace (left_kube gone K) name propagation)"
  using assms by (auto simp: quiet_request_def quiet_def left_kube_def split: prod.split)

lemma left_api:
  assumes api: "gpu_api K p (\<lambda>_. False)" and gone: "\<And>b. q (gone b) \<Longrightarrow> q b"
  shows "gpu_api (left_kube gone K) (\<lambda>w. p (fst w)) (\<lambda>w. q (snd w))"
proof (rule gpu_api.intro, unfold left_requests left_finalizers on_left_eq)
  show "has_finalizer K (with_finalizer K g)" for g
    by (rule gpu_api.with_finalizer_has [OF api])
qed (auto intro!: quiet_left quiet_left_delete gone gpu_api.quiet_get_gpu [OF api] gpu_api.quiet_list_nodes [OF api]
    gpu_api.quiet_list_pods [OF api] gpu_api.quiet_list_daemon_sets [OF api] gpu_api.quiet_get_object [OF api]
    gpu_api.quiet_delete_namespace [OF api] gpu_api.quiet_patch [OF api]
    dest: gpu_api.get_gpu_name [OF api] gpu_api.get_gpu_owner [OF api] gpu_api.update_owner [OF api])

lemma right_requests:
  "sdk_init (right_sdk created H) ns driver = on_right (sdk_init H ns driver)"
  "sdk_list (right_sdk created H) states = on_right (sdk_list H states)"
  "sdk_rollback (right_sdk created H) name = on_right (sdk_rollback H name)"
  "sdk_uninstall (right_sdk created H) wait name = on_right (sdk_uninstall H wait name)"
  "sdk_upgrade (right_sdk created H) uopts name chrt vals = on_right (sdk_upgrade H uopts name chrt vals)"
  "sdk_load_archive (right_sdk created H) = sdk_load_archive H"
  "sdk_float_text (right_sdk created H) = sdk_float_text H"
  by (simp_all add: right_sdk_def)

lemma right_install_eq:
  "sdk_install (right_sdk created H) opts chrt vals w = (e, w') \<longleftrightarrow>
     sdk_install H opts chrt vals (snd w) = (e, snd w') \<and> fst w' = (if e = None then created (fst w) else fst w)"
  by (cases w') (auto simp: right_sdk_def split: prod.split)

lemma right_stored: "stored (right_sdk created H) = stored H"
  by (simp add: fun_eq_iff stored_def right_requests)

lemma right_store:
  assumes "helm_store H releases"
  shows "helm_store (right_sdk created H) (\<lambda>w. releases (snd w))"
  using assms unfolding helm_store_def right_stored right_requests right_install_eq on_right_eq by auto

lemma right_moves:
  assumes "reflp P" and "transp P" and "\<And>c h opts chrt vals. E (Helm_Install opts chrt vals None) \<Longrightarrow> P c (created c)"
  shows "sdk_moves (\<lambda>w w'. P (fst w) (fst w')) E (right_sdk created H)"
proof -
  have refl: "P c c" for c using assms(1) by (rule reflpD)
  show ?thesis
    unfolding sdk_moves_def right_requests
  proof (intro conjI allI)
    show "reflp (\<lambda>w w'. P (fst w) (fst w'))" by (simp add: reflp_def refl)
    show "transp (\<lambda>w w'. P (fst w) (fst w'))" using transpD [OF assms(2)] by (auto simp: transp_def)
  qed (rule moves_call; use assms(3) in \<open>auto simp: on_right_eq right_install_eq refl\<close>)+
qed

section \<open>The reference cluster with the store in memory\<close>

interpretation ref_api: gpu_api ref_kube ref_owner "\<lambda>_. False"
  by unfold_locales
    (auto simp: ref_kube_simps quiet_request_def quiet_def ref_owner_def
      has_finalizer_def with_finalizer_def add_fin_def split: option.splits if_splits)

text \<open>
  The releases are kept in the operator's namespace: deleting it deletes them. Installing the chart
  creates the namespace and the DaemonSet of the driver, which is not complete yet.
\<close>

definition ref_created :: "cluster \<Rightarrow> cluster" where
  "ref_created c = c\<lparr>cl_namespace := True, cl_daemon_sets := [ref_daemon_set\<lparr>ds_ready := 0\<rparr>]\<rparr>"

definition ref_whole_kube :: "(cluster \<times> mem) kube" where
  "ref_whole_kube = left_kube (\<lambda>m. mem_empty) ref_kube"

definition ref_whole_sdk :: "(cluster \<times> mem) helm_sdk" where
  "ref_whole_sdk = right_sdk ref_created mem_sdk"

abbreviation (input) whole_releases :: "cluster \<times> mem \<Rightarrow> release list" where
  "whole_releases \<equiv> \<lambda>w. mem_releases (snd w)"

abbreviation (input) whole_owner :: "cluster \<times> mem \<Rightarrow> bool" where
  "whole_owner \<equiv> \<lambda>w. ref_owner (fst w)"

lemma whole_present: "release_present (\<lambda>w. releases (snd w)) = (\<lambda>w. release_present releases (snd w))"
  by (simp add: fun_eq_iff release_present_def)

lemma whole_moves:
  assumes "reflp P" and "transp P"
    and "\<And>c opts chrt vals. E (Helm_Install opts chrt vals None) \<Longrightarrow> P c (ref_created c)"
  shows "sdk_moves (\<lambda>w w'. P (fst w) (fst w')) E ref_whole_sdk"
  unfolding ref_whole_sdk_def by (rule right_moves) (use assms in blast)+

interpretation whole_store: helm_in_cluster ref_whole_sdk whole_releases whole_owner
proof (rule helm_in_cluster.intro)
  show "helm_store ref_whole_sdk whole_releases"
    unfolding ref_whole_sdk_def by (rule right_store [OF mem.helm_store_axioms])
  show "helm_in_cluster_axioms ref_whole_sdk whole_owner"
  proof
    show "sdk_moves (\<lambda>w w'. whole_owner w \<longrightarrow> whole_owner w') (\<lambda>_. True) ref_whole_sdk"
      by (rule whole_moves) (auto simp: reflp_def transp_def ref_owner_def ref_created_def)
  qed
qed

interpretation whole_api: gpu_api ref_whole_kube whole_owner "release_present whole_releases"
  unfolding whole_present ref_whole_kube_def
  by (rule left_api [OF ref_api.gpu_api_axioms]) (simp add: release_present_def mem_releases_def mem_empty_def)

interpretation whole: gpu_cluster ref_whole_kube "helm_installer ref_whole_sdk"
    whole_owner "release_present whole_releases"
  by (rule operator_contract [OF whole_api.gpu_api_axioms whole_store.helm_in_cluster_axioms])

definition ref_operator :: "(cluster \<times> mem, nat) reconciler" where
  "ref_operator =
     \<lparr>r_kube = ref_whole_kube, r_installer = helm_installer ref_whole_sdk,
      r_assets = ref_assets, r_yaml = ref_yaml\<rparr>"

text \<open>A cluster with one Ubuntu node on which nothing of NVIDIA runs yet.\<close>

definition ref_starting :: cluster where
  "ref_starting = ref_cluster\<lparr>cl_nodes := [ref_node\<lparr>os_image := ''Ubuntu 22.04''\<rparr>], cl_daemon_sets := [], cl_policy := None\<rparr>"

definition ref_installed_world :: "cluster \<times> mem" where
  "ref_installed_world = world_of (reconcile ref_operator ''gpu'') (ref_starting, mem_empty)"

text \<open>The first reconciliation installs the chart.\<close>

lemma ref_operator_run:
  "(case run_state (reconcile ref_operator ''gpu'') (start (ref_starting, mem_empty)) of (r, t) \<Rightarrow>
     r = Done (requeue_later, None) \<and> release_present whole_releases (world t) \<and>
     list_ex (\<lambda>e. case e of Install_Call data vals x \<Rightarrow> x = Done (Inr True) | _ \<Rightarrow> False) (log t))"
  by code_simp

lemma ref_operator_installs:
  "result_of (reconcile ref_operator ''gpu'') (ref_starting, mem_empty) = Done (requeue_later, None)"
  "release_present whole_releases ref_installed_world"
  "\<exists>data vals. Install_Call data vals (Done (Inr True)) \<in> set (trace_of (reconcile ref_operator ''gpu'') (ref_starting, mem_empty))"
proof -
  note run = ref_operator_run [unfolded case_prod_beta]
  then show "result_of (reconcile ref_operator ''gpu'') (ref_starting, mem_empty) = Done (requeue_later, None)"
    "release_present whole_releases ref_installed_world"
    by (simp_all add: result_of_def ref_installed_world_def world_of_def)
  from run obtain e where "e \<in> set (trace_of (reconcile ref_operator ''gpu'') (ref_starting, mem_empty))"
    and "case e of Install_Call data vals x \<Rightarrow> x = Done (Inr True) | _ \<Rightarrow> False"
    by (auto simp: trace_of_def list_ex_iff)
  then show "\<exists>data vals. Install_Call data vals (Done (Inr True)) \<in> set (trace_of (reconcile ref_operator ''gpu'') (ref_starting, mem_empty))"
    by (cases e rule: kube_event.exhaust) auto
qed

theorem operator_never_orphans_witness:
  "whole_owner ref_installed_world"
proof -
  have steps: "reachable ref_operator whole_owner (release_present whole_releases)
      (ref_starting, mem_empty) ref_installed_world"
    unfolding ref_installed_world_def by (rule reachable.reconciles [OF reachable.begins])
  have "r_kube ref_operator = ref_whole_kube" "r_installer ref_operator = helm_installer ref_whole_sdk"
    by (simp_all add: ref_operator_def)
  note run = operator_never_orphans [OF whole_api.gpu_api_axioms whole_store.helm_in_cluster_axioms this steps]
  have "\<not> release_present whole_releases (ref_starting, mem_empty)" by code_simp
  then show ?thesis using run ref_operator_installs(2) by blast
qed

end
