(* ===== verification/Json_Tree.thy ===== *)
theory Json_Tree
  imports Json Values
begin

text \<open>
  JSON documents as trees, and that the text of a tree determines the tree: so the comparison of
  marshalled texts in the Helm client is a comparison of documents. The text is read from the
  left: a value ends where a comma or a closing bracket follows, a string at its first quote
  that is not escaped.
\<close>

section \<open>Documents\<close>

text \<open>
  Numbers keep their text and strings the text between the quotes; the members of an object are
  in the order of their keys, as \<open>json.Marshal\<close> writes them.
\<close>

datatype json =
    JNull
  | JBool bool
  | JNumber string
  | JString string
  | JArray "json list"
  | JObject "(string \<times> json) list"

fun json_tree :: "float_text \<Rightarrow> any \<Rightarrow> json" where
  "json_tree ft Any_Nil = JNull"
| "json_tree ft (Any_Bool b) = JBool b"
| "json_tree ft (Any_Str s) = JString (json_body s)"
| "json_tree ft (Any_Int i) = JNumber (show_int i)"
| "json_tree ft (Any_Float (Dyadic m e)) = JNumber (json_float ft m e)"
| "json_tree ft (Any_Float (Nonfinite t)) = JNumber []"
| "json_tree ft (Any_List xs) = JArray (map (json_tree ft) xs)"
| "json_tree ft (Any_Map kv) =
     JObject (map (\<lambda>(k, t). (json_body k, t)) (sort_key fst (zip (map fst kv) (map (json_tree ft) (map snd kv)))))"

fun render :: "json \<Rightarrow> string" where
  "render JNull = ''null''"
| "render (JBool b) = (if b then ''true'' else ''false'')"
| "render (JNumber t) = t"
| "render (JString b) = dquote # b @ [dquote]"
| "render (JArray xs) = CHR ''['' # join_str '','' (map render xs) @ '']''"
| "render (JObject ms) =
     CHR ''{'' # join_str '','' (map (\<lambda>(k, t). (dquote # k @ [dquote]) @ '':'' @ render t) ms) @ ''}''"

lemma sort_key_map_values:
  "sort_key fst (map (\<lambda>(k, t). (k, f t)) xs) = map (\<lambda>(k, t). (k, f t)) (sort_key fst xs)"
proof -
  have insert: "insort_key fst (k, f t) (map (\<lambda>(k, t). (k, f t)) ys) = map (\<lambda>(k, t). (k, f t)) (insort_key fst (k, t) ys)"
    for k t ys
    by (induction ys) auto
  show ?thesis
    by (induction xs) (auto simp: sort_key_def insert [unfolded split_def fst_conv snd_conv] split_def)
qed

lemma zip_members: "zip (map fst kv) (map f (map snd kv)) = map (\<lambda>(k, v). (k, f v)) kv"
  by (induction kv) auto

lemma render_tree: "json_text ft v = render (json_tree ft v)"
proof (induction v)
  case (Any_Map kv)
  have members: "zip (map fst kv) (map (json_text ft) (map snd kv)) =
      map (\<lambda>(k, t). (k, render t)) (zip (map fst kv) (map (json_tree ft) (map snd kv)))"
    unfolding zip_members using Any_Map by (auto simp: list.map_comp)
  show ?case
    unfolding json_text.simps json_tree.simps render.simps json_object_def members sort_key_map_values
    by (simp add: json_string_def split_def comp_def)
next
  case (Any_Float f)
  then show ?case by (cases f) auto
qed (auto simp: json_string_def cong: map_cong)

section \<open>Strings\<close>

text \<open>A body of a string: no quote in it but after a backslash, and no backslash at its end.\<close>

fun closed_body :: "string \<Rightarrow> bool" where
  "closed_body [] = True"
| "closed_body [c] = (c \<noteq> dquote \<and> c \<noteq> backslash)"
| "closed_body (c # d # s) =
     (if c = backslash then closed_body s else c \<noteq> dquote \<and> closed_body (d # s))"

lemma closed_body_Cons: "c \<noteq> dquote \<Longrightarrow> c \<noteq> backslash \<Longrightarrow> closed_body (c # s) = closed_body s"
  by (cases s) auto

lemma closed_body_escape: "closed_body (backslash # c # s) = closed_body s"
  by simp

lemma closed_body_append: "closed_body u \<Longrightarrow> closed_body (u @ v) = closed_body v"
  by (induction u rule: closed_body.induct) (auto simp: closed_body_Cons)

lemma closed_body_plain: "set u \<inter> {dquote, backslash} = {} \<Longrightarrow> closed_body u"
  by (induction u) (auto simp: closed_body_Cons)

lemma quote_neq [simp]: "dquote \<noteq> backslash" "backslash \<noteq> dquote"
  by (simp_all add: dquote_def backslash_def)

lemma closed_body_quote [simp]: "\<not> closed_body (dquote # s)"
  by (cases s) (auto simp: dquote_def backslash_def)

text \<open>A string ends at its quote.\<close>

lemma closed_body_prefix:
  "closed_body u \<Longrightarrow> closed_body v \<Longrightarrow> u @ dquote # r = v @ dquote # t \<Longrightarrow> u = v \<and> r = t"
proof (induction u arbitrary: v rule: closed_body.induct)
  case 1
  then show ?case by (cases v) auto
next
  case (2 c)
  then show ?case by (cases v rule: closed_body.cases) (auto split: if_splits)
next
  case (3 c d s)
  then show ?case by (cases v rule: closed_body.cases) (auto split: if_splits)
qed

lemma hex_digit_plain: "n < 16 \<Longrightarrow> hex_digit n \<noteq> dquote \<and> hex_digit n \<noteq> backslash"
proof -
  have "list_all (\<lambda>n. hex_digit n \<noteq> dquote \<and> hex_digit n \<noteq> backslash) [0..<16]" by code_simp
  then show "n < 16 \<Longrightarrow> ?thesis" by (auto simp: list_all_iff)
qed

lemma closed_escapes:
  "closed_body (backslash # ''ufffd'' @ s) = closed_body s"
  "closed_body (backslash # ''u2028'' @ s) = closed_body s"
  "closed_body (backslash # ''u2029'' @ s) = closed_body s"
  "closed_body (backslash # ''u00'' @ s) = closed_body s"
  by (cases s; simp add: dquote_def backslash_def)+

lemma plain_letters:
  "CHR ''u'' \<noteq> dquote" "CHR ''u'' \<noteq> backslash" "CHR ''b'' \<noteq> CHR ''u''"
  by (simp_all add: dquote_def backslash_def)

declare closed_body.simps(3) [simp del]

lemma closed_json_ascii:
  assumes "byte_in c 0 0x7F"
  shows "closed_body (json_ascii c)"
proof -
  have "of_char c div 16 < (16 :: nat)" "of_char c mod 16 < (16 :: nat)"
    using assms by (simp_all add: byte_in_def)
  then have "hex_digit (of_char c div 16) \<notin> {dquote, backslash}" "hex_digit (of_char c mod 16) \<notin> {dquote, backslash}"
    using hex_digit_plain by blast+
  then have "closed_body [hex_digit (of_char c div 16), hex_digit (of_char c mod 16)]"
    by (intro closed_body_plain) auto
  then have "closed_body [backslash, CHR ''u'', CHR ''0'', CHR ''0'', hex_digit (of_char c div 16), hex_digit (of_char c mod 16)]"
    using closed_escapes(4) [of "[hex_digit (of_char c div 16), hex_digit (of_char c mod 16)]"] by simp
  then show ?thesis
    unfolding json_ascii_def Let_def by (simp add: closed_body_escape closed_body_Cons split: if_split)
qed

lemma ascii_quotes: "byte_in dquote 0 0x7F" "byte_in backslash 0 0x7F"
  by (simp_all add: byte_in_def dquote_def backslash_def)

lemma high_bytes:
  "byte_in c 0x80 0xBF \<Longrightarrow> \<not> byte_in c 0 0x7F"
  "second_of_three a c \<Longrightarrow> \<not> byte_in c 0 0x7F"
  "second_of_four a c \<Longrightarrow> \<not> byte_in c 0 0x7F"
  by (auto simp: byte_in_def second_of_three_def second_of_four_def split: if_splits)

lemma rune_tail: "list_all (\<lambda>c. \<not> byte_in c 0 0x7F) (take (rune_size (a # s) - 1) s)"
proof -
  consider "s = []" | b where "s = [b]" | b c where "s = [b, c]" | b c d t where "s = b # c # d # t"
    by (metis neq_Nil_conv)
  then show ?thesis
    by cases (auto simp: rune_size_def dest: high_bytes split: if_splits)
qed

lemma closed_json_body: "closed_body (json_body s)"
proof (induction s rule: json_body.induct)
  case (2 a s)
  consider "byte_in a 0 0x7F"
    | "\<not> byte_in a 0 0x7F" "rune_size (a # s) = 0"
    | "take 3 (a # s) \<in> {[CHR 0xE2, CHR 0x80, CHR 0xA8], [CHR 0xE2, CHR 0x80, CHR 0xA9]}"
    | "\<not> byte_in a 0 0x7F" "rune_size (a # s) \<noteq> 0"
      "take 3 (a # s) \<notin> {[CHR 0xE2, CHR 0x80, CHR 0xA8], [CHR 0xE2, CHR 0x80, CHR 0xA9]}"
    by blast
  then show ?case
  proof cases
    case 1
    with 2 show ?thesis by (simp add: closed_body_append closed_json_ascii)
  next
    case 4
    let ?n = "rune_size (a # s) - 1"
    have "set (a # take ?n s) \<inter> {dquote, backslash} = {}"
      using rune_tail [of a s] 4(1) ascii_quotes by (auto simp: list_all_iff)
    then have "closed_body ((a # take ?n s) @ json_body (drop ?n s))"
      using 2 4 by (subst closed_body_append [OF closed_body_plain]) auto
    moreover have "take 3 (a # s) \<noteq> [CHR 0xE2, CHR 0x80, CHR 0xA8]" "take 3 (a # s) \<noteq> [CHR 0xE2, CHR 0x80, CHR 0xA9]"
      using 4(3) by blast+
    ultimately show ?thesis by (simp only: json_body.simps(2) 4(1,2) if_False append_Cons)
  next
    case 2
    with "2.IH" show ?thesis using closed_escapes(1) by simp
  next
    case 3
    then obtain x t where x: "x \<in> {CHR 0xA8, CHR 0xA9}" and s: "a = CHR 0xE2" "s = CHR 0x80 # x # t"
      by (cases s; cases "tl s") auto
    have "\<not> byte_in a 0 0x7F" "rune_size (a # s) \<noteq> 0"
      using x by (auto simp: s rune_size_def byte_in_def second_of_three_def)
    moreover have "closed_body (json_body (drop 2 s))" using "2.IH" 3 calculation by blast
    ultimately show ?thesis using 3 closed_escapes(2,3)
      by (simp only: json_body.simps(2) if_False if_True closed_escapes split: if_split) auto
  qed
qed simp

section \<open>The text determines the tree\<close>

definition number_chars :: "char set" where
  "number_chars = set ''0123456789+-.eE''"

text \<open>The texts of a document of our encoder: a number is a non-empty string of number characters.\<close>

fun good_json :: "json \<Rightarrow> bool" where
  "good_json (JNumber t) \<longleftrightarrow> t \<noteq> [] \<and> set t \<subseteq> number_chars"
| "good_json (JString b) \<longleftrightarrow> closed_body b"
| "good_json (JArray xs) \<longleftrightarrow> list_all good_json xs"
| "good_json (JObject ms) \<longleftrightarrow> list_all closed_body (map fst ms) \<and> list_all good_json (map snd ms)"
| "good_json _ \<longleftrightarrow> True"

definition stops :: "string \<Rightarrow> bool" where
  "stops r \<longleftrightarrow> (case r of [] \<Rightarrow> True | c # _ \<Rightarrow> c \<in> {CHR '','', CHR '']'', CHR ''}''})"

lemma number_prefix:
  assumes "set t \<subseteq> number_chars" and "set u \<subseteq> number_chars" and "stops r" and "stops q" and "t @ r = u @ q"
  shows "t = u \<and> r = q"
proof -
  have until: "takeWhile (\<lambda>c. c \<in> number_chars) (t @ r) = t" if "set t \<subseteq> number_chars" "stops r" for t r
  proof -
    have "takeWhile (\<lambda>c. c \<in> number_chars) r = []"
      using that(2) by (cases r) (auto simp: stops_def number_chars_def)
    with that(1) show ?thesis by (subst takeWhile_append2) auto
  qed
  from assms have "t = u" using until by metis
  with assms(5) show ?thesis by simp
qed

text \<open>The first character tells the kind of a value.\<close>

definition kind_char :: "json \<Rightarrow> char \<Rightarrow> bool" where
  "kind_char v c = (case v of JNull \<Rightarrow> c = CHR ''n'' | JBool b \<Rightarrow> c = (if b then CHR ''t'' else CHR ''f'')
     | JNumber t \<Rightarrow> c \<in> number_chars | JString b \<Rightarrow> c = dquote | JArray xs \<Rightarrow> c = CHR ''[''
     | JObject ms \<Rightarrow> c = CHR ''{'')"

lemma render_first: "good_json v \<Longrightarrow> \<exists>c s. render v = c # s \<and> kind_char v c"
  by (cases v) (auto simp: kind_char_def neq_Nil_conv)

fun kind :: "json \<Rightarrow> nat" where
  "kind JNull = 0"
| "kind (JBool b) = (if b then 1 else 2)"
| "kind (JNumber t) = 3"
| "kind (JString b) = 4"
| "kind (JArray xs) = 5"
| "kind (JObject ms) = 6"

lemma kind_char_kind: "kind_char x c \<Longrightarrow> kind_char y c \<Longrightarrow> kind x = kind y"
  by (cases x; cases y) (auto simp: kind_char_def number_chars_def dquote_def split: if_splits)

lemma kind_of_text:
  assumes "good_json x" and "good_json y" and "render x @ r = render y @ q"
  shows "kind x = kind y"
proof -
  obtain c s d t where "render x = c # s" "kind_char x c" "render y = d # t" "kind_char y d"
    using render_first [OF assms(1)] render_first [OF assms(2)] by blast
  with assms(3) show ?thesis by (auto intro: kind_char_kind)
qed

lemma kind_cases:
  "kind x = 0 \<longleftrightarrow> x = JNull" "kind x = 1 \<longleftrightarrow> x = JBool True" "kind x = 2 \<longleftrightarrow> x = JBool False"
  "kind x = 3 \<longleftrightarrow> (\<exists>t. x = JNumber t)" "kind x = 4 \<longleftrightarrow> (\<exists>b. x = JString b)"
  "kind x = 5 \<longleftrightarrow> (\<exists>xs. x = JArray xs)" "kind x = 6 \<longleftrightarrow> (\<exists>ms. x = JObject ms)"
  by (cases x; simp)+

lemma join_str_Cons: "join_str [c] (t # ts) = t @ concat (map (\<lambda>u. c # u) ts)"
  by (induction ts arbitrary: t) auto

lemma stops_simps [simp]: "stops []" "stops (CHR '','' # r)" "stops (CHR '']'' # r)" "stops (CHR ''}'' # r)"
  by (simp_all add: stops_def)

text \<open>A sequence of parts that determine themselves, up to a closing bracket.\<close>

lemma parts_prefix:
  assumes part: "\<And>x y r q. x \<in> set xs \<Longrightarrow> y \<in> set ys \<Longrightarrow> stops r \<Longrightarrow> stops q \<Longrightarrow> f x @ r = f y @ q \<Longrightarrow> x = y \<and> r = q"
    and close: "e \<in> {CHR '']'', CHR ''}''}"
    and eq: "concat (map (\<lambda>x. CHR '','' # f x) xs) @ e # r = concat (map (\<lambda>x. CHR '','' # f x) ys) @ e # q"
  shows "xs = ys \<and> r = q"
  using part eq
proof (induction xs arbitrary: ys)
  case Nil
  then show ?case using close by (cases ys) auto
next
  case (Cons x xs)
  from Cons.prems(2) close obtain y ys' where ys: "ys = y # ys'" by (cases ys) auto
  have stop: "stops (concat (map (\<lambda>x. CHR '','' # f x) zs) @ e # t)" for zs t
    using close by (cases zs) auto
  have "x = y \<and> concat (map (\<lambda>x. CHR '','' # f x) xs) @ e # r = concat (map (\<lambda>x. CHR '','' # f x) ys') @ e # q"
    using Cons.prems(2) by (intro Cons.prems(1) stop) (auto simp: ys)
  moreover have "xs = ys' \<and> r = q"
    using calculation Cons.prems(1) by (intro Cons.IH) (auto simp: ys)
  ultimately show ?case by (simp add: ys)
qed

lemma joined_prefix:
  assumes part: "\<And>x y r q. x \<in> set xs \<Longrightarrow> y \<in> set ys \<Longrightarrow> stops r \<Longrightarrow> stops q \<Longrightarrow> f x @ r = f y @ q \<Longrightarrow> x = y \<and> r = q"
    and first: "\<And>x. x \<in> set xs \<union> set ys \<Longrightarrow> \<exists>c s. f x = c # s \<and> c \<noteq> e"
    and close: "e \<in> {CHR '']'', CHR ''}''}"
    and eq: "join_str '','' (map f xs) @ e # r = join_str '','' (map f ys) @ e # q"
  shows "xs = ys \<and> r = q"
proof (cases xs; cases ys)
  fix y zs assume "xs = []" "ys = y # zs"
  with first [of y] eq show ?thesis by (auto simp: join_str_Cons)
next
  fix x zs assume "xs = x # zs" "ys = []"
  with first [of x] eq show ?thesis by (auto simp: join_str_Cons)
next
  fix x us y vs assume xs: "xs = x # us" and ys: "ys = y # vs"
  have stop: "stops (concat (map (\<lambda>x. CHR '','' # f x) zs) @ e # t)" for zs t
    using close by (cases zs) auto
  have "x = y \<and> concat (map (\<lambda>x. CHR '','' # f x) us) @ e # r = concat (map (\<lambda>x. CHR '','' # f x) vs) @ e # q"
    using eq by (intro part stop) (auto simp: xs ys join_str_Cons comp_def)
  moreover have "us = vs \<and> r = q"
  proof (rule parts_prefix [where f = f, OF _ close])
    show "u = v \<and> s = t" if "u \<in> set us" "v \<in> set vs" "stops s" "stops t" "f u @ s = f v @ t" for u v s t
      using that by (intro part) (auto simp: xs ys)
  qed (use calculation in blast)
  ultimately show ?thesis by (simp add: xs ys)
qed (use eq in simp)

lemma quoted_prefix:
  "closed_body k \<Longrightarrow> closed_body l \<Longrightarrow> (dquote # k @ [dquote]) @ r = (dquote # l @ [dquote]) @ q \<Longrightarrow> k = l \<and> r = q"
  using closed_body_prefix [of k l r q] by simp

lemma render_prefix:
  "good_json x \<Longrightarrow> good_json y \<Longrightarrow> stops r \<Longrightarrow> stops q \<Longrightarrow> render x @ r = render y @ q \<Longrightarrow> x = y \<and> r = q"
proof (induction x arbitrary: y r q)
  case (JArray xs)
  then obtain ys where y: "y = JArray ys"
    using kind_of_text [OF JArray.prems(1,2,5)] kind_cases(6) [of y] by auto
  have "xs = ys \<and> r = q"
  proof (rule joined_prefix [where f = render])
    show "x = z \<and> s = t" if "x \<in> set xs" "z \<in> set ys" "stops s" "stops t" "render x @ s = render z @ t" for x z s t
      using JArray.IH that JArray.prems(1,2) by (auto simp: y list_all_iff)
    show "\<exists>c s. render x = c # s \<and> c \<noteq> CHR '']''" if "x \<in> set xs \<union> set ys" for x
      using render_first [of x] that JArray.prems(1,2)
      by (fastforce simp: y list_all_iff kind_char_def number_chars_def dquote_def split: json.splits if_splits)
  qed (use JArray.prems in \<open>auto simp: y\<close>)
  then show ?case by (simp add: y)
next
  case (JObject ms)
  then obtain ns where y: "y = JObject ns"
    using kind_of_text [OF JObject.prems(1,2,5)] kind_cases(7) [of y] by auto
  let ?member = "\<lambda>(k, t). (dquote # k @ [dquote]) @ '':'' @ render t"
  have "ms = ns \<and> r = q"
  proof (rule joined_prefix [where f = ?member])
    fix m n s t
    assume m: "m \<in> set ms" "n \<in> set ns" and st: "stops s" "stops t" and eq: "?member m @ s = ?member n @ t"
    have good: "closed_body (fst m)" "closed_body (fst n)" "good_json (snd m)" "good_json (snd n)"
      using JObject.prems(1,2) m by (auto simp: y list_all_iff)
    have "fst m = fst n \<and> '':'' @ render (snd m) @ s = '':'' @ render (snd n) @ t"
      by (rule quoted_prefix [OF good(1,2)]) (use eq in \<open>simp add: split_def\<close>)
    moreover have "snd m = snd n \<and> s = t"
      using calculation by (intro JObject.IH [OF m(1)] good st) (auto simp: snds.simps)
    ultimately show "m = n \<and> s = t" by (simp add: prod_eq_iff)
  qed (use JObject.prems in \<open>auto simp: y dquote_def\<close>)
  then show ?case by (simp add: y)
next
  case (JString b)
  then obtain c where y: "y = JString c"
    using kind_of_text [OF JString.prems(1,2,5)] kind_cases(5) [of y] by auto
  with JString show ?case using quoted_prefix [of b c r q] by simp
next
  case (JNumber t)
  then obtain u where y: "y = JNumber u"
    using kind_of_text [OF JNumber.prems(1,2,5)] kind_cases(4) [of y] by auto
  with JNumber show ?case using number_prefix [of t u r q] by simp
next
  case JNull
  then have "y = JNull" using kind_of_text [OF JNull.prems(1,2,5)] kind_cases(1) [of y] by simp
  with JNull show ?case by simp
next
  case (JBool b)
  then have "y = JBool b" using kind_of_text [OF JBool.prems(1,2,5)] by (cases y) (auto split: if_splits)
  with JBool show ?case by (cases b) simp_all
qed

section \<open>Texts of values\<close>

text \<open>The texts of the floats that are not small integers: any non-empty string of number characters.\<close>

definition number_texts :: "float_text \<Rightarrow> bool" where
  "number_texts ft \<longleftrightarrow> (\<forall>m e. \<not> small_integer m e \<longrightarrow> ft m e \<noteq> [] \<and> set (ft m e) \<subseteq> number_chars)"

lemma digits_number_chars: "digit ` {0..<10} \<subseteq> number_chars"
proof -
  have "list_all (\<lambda>n. digit n \<in> number_chars) [0..<10]" by code_simp
  then show ?thesis by (auto simp: list_all_iff)
qed

lemma show_int_chars: "show_int i \<noteq> [] \<and> set (show_int i) \<subseteq> number_chars"
  using show_nat_digits digits_number_chars show_nat_nonempty
  by (auto simp: show_int_def number_chars_def)

lemma good_json_tree: "number_texts ft \<Longrightarrow> \<not> has_nonfinite v \<Longrightarrow> good_json (json_tree ft v)"
proof (induction v)
  case (Any_Float f)
  then show ?case using show_int_chars by (cases f) (auto simp: json_float_def number_texts_def)
next
  case (Any_Map kv)
  then show ?case
    unfolding json_tree.simps good_json.simps zip_members sort_key_map_values
    by (auto simp: list_all_iff list_ex_iff closed_json_body)
next
  case (Any_List xs)
  then show ?case by (auto simp: list_all_iff list_ex_iff)
qed (use show_int_chars closed_json_body in auto)

theorem json_text_eq_iff:
  assumes "number_texts ft" and "\<not> has_nonfinite a" and "\<not> has_nonfinite b"
  shows "json_text ft a = json_text ft b \<longleftrightarrow> json_tree ft a = json_tree ft b"
  using render_prefix [of "json_tree ft a" "json_tree ft b" "[]" "[]"] good_json_tree assms
  by (auto simp: render_tree)

section \<open>The text of a string determines the string\<close>

definition hex_val :: "char \<Rightarrow> nat" where
  "hex_val c = (let n = (of_char c :: nat) in if n < 58 then n - 48 else n - 87)"

text \<open>Reading one ASCII character back from the text of a string.\<close>

fun unescape :: "string \<Rightarrow> (char \<times> string) option" where
  "unescape [] = None"
| "unescape (c # s) =
     (if \<not> byte_in c 0 0x7F then None
      else if c \<noteq> backslash then Some (c, s)
      else case s of
        [] \<Rightarrow> None
      | d # r \<Rightarrow>
          if d = backslash \<or> d = dquote then Some (d, r)
          else if d = CHR ''b'' then Some (char_of (8 :: nat), r)
          else if d = CHR ''f'' then Some (char_of (12 :: nat), r)
          else if d = CHR ''n'' then Some (char_of (10 :: nat), r)
          else if d = CHR ''r'' then Some (char_of (13 :: nat), r)
          else if d = CHR ''t'' then Some (char_of (9 :: nat), r)
          else case r of
            z # y # h # l # q \<Rightarrow>
              if d = CHR ''u'' \<and> z = CHR ''0'' \<and> y = CHR ''0'' then Some (char_of (16 * hex_val h + hex_val l), q)
              else None
          | _ \<Rightarrow> None)"

lemma hex_val_digit: "n < 16 \<Longrightarrow> hex_val (hex_digit n) = n"
  by (auto simp: hex_val_def hex_digit_def digit_code of_char_of Let_def)

lemma unescape_hex:
  assumes "byte_in c 0 0x7F"
  shows "unescape ([backslash, CHR ''u'', CHR ''0'', CHR ''0'', hex_digit (of_char c div 16), hex_digit (of_char c mod 16)] @ s) =
    Some (c, s)"
proof -
  have "of_char c div 16 < (16 :: nat)" "of_char c mod 16 < (16 :: nat)"
    using assms by (simp_all add: byte_in_def)
  then have "char_of (16 * hex_val (hex_digit (of_char c div 16)) + hex_val (hex_digit (of_char c mod 16))) = c"
    by (simp add: hex_val_digit)
  with ascii_quotes(2) show ?thesis by (simp add: plain_letters)
qed

lemma unescape_ascii:
  assumes "byte_in c 0 0x7F"
  shows "unescape (json_ascii c @ s) = Some (c, s)"
proof (cases "c = backslash \<or> c = dquote")
  case True
  with ascii_quotes(2) show ?thesis by (auto simp: json_ascii_def)
next
  case quotes: False
  show ?thesis
  proof (cases "(of_char c :: nat) \<in> {8, 12, 10, 13, 9}")
    case True
    moreover have "c = char_of (of_char c :: nat)" by simp
    ultimately have "c \<in> {char_of (8 :: nat), char_of (12 :: nat), char_of (10 :: nat), char_of (13 :: nat), char_of (9 :: nat)}"
      by (elim insertE emptyE) (simp_all del: char_of_char)
    then show ?thesis
      by (elim insertE emptyE; simp add: json_ascii_def backslash_def dquote_def byte_in_def)
  next
    case other: False
    then show ?thesis
    proof (cases "(of_char c :: nat) < 32 \<or> c = CHR ''<'' \<or> c = CHR ''>'' \<or> c = CHR ''&''")
      case True
      with quotes other have "json_ascii c =
          [backslash, CHR ''u'', CHR ''0'', CHR ''0'', hex_digit (of_char c div 16), hex_digit (of_char c mod 16)]"
        by (simp add: json_ascii_def Let_def)
      with unescape_hex [OF assms, of s] show ?thesis by simp
    next
      case False
      with quotes other have "json_ascii c = [c]" by (simp add: json_ascii_def)
      with assms quotes show ?thesis by simp
    qed
  qed
qed

text \<open>A rune of several bytes comes out as it is, or as \<open>\u2028\<close> or \<open>\u2029\<close>.\<close>

definition line_separator :: string where "line_separator = [CHR 0xE2, CHR 0x80, CHR 0xA8]"
definition paragraph_separator :: string where "paragraph_separator = [CHR 0xE2, CHR 0x80, CHR 0xA9]"

text \<open>Reading one rune back from the text of a string; \<open>None\<close> for the text of an invalid byte.\<close>

definition read_rune :: "string \<Rightarrow> (string \<times> string) option" where
  "read_rune s =
     (case unescape s of
        Some (c, r) \<Rightarrow> Some ([c], r)
      | None \<Rightarrow>
          if take 6 s = backslash # ''u2028'' then Some (line_separator, drop 6 s)
          else if take 6 s = backslash # ''u2029'' then Some (paragraph_separator, drop 6 s)
          else if 2 \<le> rune_size s then Some (take (rune_size s) s, drop (rune_size s) s)
          else None)"

lemma rune_size_wide: "\<not> byte_in a 0 0x7F \<Longrightarrow> rune_size (a # s) \<noteq> 0 \<Longrightarrow> 2 \<le> rune_size (a # s)"
  by (auto simp: rune_size_def split: list.split if_splits)

lemma rune_size_length: "rune_size s \<le> length s"
  by (auto simp: rune_size_def split: list.split)

text \<open>A rune is read off its own bytes, whatever follows it.\<close>

lemma rune_size_take:
  assumes "rune_size s \<noteq> 0"
  shows "rune_size (take (rune_size s) s @ r) = rune_size s"
proof -
  consider "s = []" | a where "s = [a]" | a b where "s = [a, b]" | a b c where "s = [a, b, c]"
    | a b c d t where "s = a # b # c # d # t"
    by (metis neq_Nil_conv)
  then show ?thesis
    using assms by cases (auto simp: rune_size_def split: if_splits)
qed

lemma rune_size_separators:
  "take 3 s = line_separator \<Longrightarrow> rune_size s = 3" "take 3 s = paragraph_separator \<Longrightarrow> rune_size s = 3"
  by (cases s; cases "tl s"; cases "tl (tl s)";
      simp add: line_separator_def paragraph_separator_def rune_size_def byte_in_def second_of_three_def)+

lemma json_body_wide:
  assumes "\<not> byte_in a 0 0x7F"
  shows "json_body (a # s) =
     (if rune_size (a # s) = 0 then backslash # ''ufffd'' @ json_body s
      else (if take 3 (a # s) = line_separator then backslash # ''u2028''
            else if take 3 (a # s) = paragraph_separator then backslash # ''u2029''
            else take (rune_size (a # s)) (a # s)) @ json_body (drop (rune_size (a # s)) (a # s)))"
proof -
  obtain n where "rune_size (a # s) = 0 \<or> rune_size (a # s) = Suc n" by (cases "rune_size (a # s)") auto
  then show ?thesis
    using assms rune_size_separators [of "a # s"]
    unfolding json_body.simps(2) line_separator_def paragraph_separator_def by auto
qed

lemma read_wide:
  assumes "take 1 s = [a]" and "\<not> byte_in a 0 0x7F" and "rune_size s \<noteq> 0"
  shows "read_rune (take (rune_size s) s @ r) = Some (take (rune_size s) s, r)"
proof -
  let ?n = "rune_size s"
  from assms(1) obtain t where s: "s = a # t" by (cases s) auto
  from assms(3) obtain m where n: "?n = Suc m" by (cases ?n) auto
  have "unescape (take ?n s @ r) = None" using assms(2) by (simp add: s n [unfolded s])
  moreover have "take 6 (take ?n s @ r) \<noteq> backslash # u" for u
    using assms(2) ascii_quotes(2) by (auto simp: s n [unfolded s])
  moreover have "rune_size (take ?n s @ r) = ?n" using rune_size_take [OF assms(3)] .
  moreover have "2 \<le> ?n" using rune_size_wide assms(2,3) by (simp add: s)
  moreover have "length (take ?n s) = ?n" using rune_size_length [of s] by simp
  ultimately show ?thesis unfolding read_rune_def by simp
qed

lemma read_escapes:
  "read_rune (backslash # ''u2028'' @ r) = Some (line_separator, r)"
  "read_rune (backslash # ''u2029'' @ r) = Some (paragraph_separator, r)"
  "read_rune (backslash # ''ufffd'' @ r) = None"
  using ascii_quotes(2) by (simp_all add: read_rune_def plain_letters rune_size_ascii)

lemma read_rune_body:
  "read_rune (json_body (a # s)) =
     (if rune_size (a # s) = 0 then None
      else Some (take (rune_size (a # s)) (a # s), json_body (drop (rune_size (a # s)) (a # s))))"
proof (cases "byte_in a 0 0x7F")
  case True
  then show ?thesis by (simp add: read_rune_def unescape_ascii rune_size_ascii)
next
  case False
  have "take 3 (a # s) = line_separator \<Longrightarrow> take (rune_size (a # s)) (a # s) = line_separator"
    "take 3 (a # s) = paragraph_separator \<Longrightarrow> take (rune_size (a # s)) (a # s) = paragraph_separator"
    by (simp_all add: rune_size_separators)
  then show ?thesis
    unfolding json_body_wide [OF False]
    using read_wide [of "a # s" a] False by (simp add: read_escapes [unfolded append_Cons append_Nil])
qed

declare json_body.simps(2) [simp del]

lemma json_body_inject: "utf8 s \<Longrightarrow> json_body s = json_body t \<longleftrightarrow> s = t"
proof (induction s arbitrary: t rule: utf8.induct)
  case 1
  have "json_body (b # u) \<noteq> []" for b u by (simp add: json_body.simps(2) json_ascii_def Let_def)
  then show ?case by (cases t) (simp_all add: eq_commute [of "[]"])
next
  case (2 a s)
  let ?n = "rune_size (a # s)"
  have read: "read_rune (json_body (a # s)) = Some (take ?n (a # s), json_body (drop ?n (a # s)))"
    and valid: "utf8 (drop ?n (a # s))" "?n \<noteq> 0"
    using "2.prems" by (auto simp: read_rune_body utf8.simps(2) split: if_splits)
  have "a # s = t" if eq: "json_body (a # s) = json_body t"
  proof (cases t)
    case Nil
    with read [unfolded eq] show ?thesis by (simp add: read_rune_def rune_size_def)
  next
    case (Cons b u)
    with read [unfolded eq] have "take ?n (a # s) = take (rune_size t) t"
      and "json_body (drop ?n (a # s)) = json_body (drop (rune_size t) t)"
      by (simp_all add: read_rune_body split: if_splits)
    with "2.IH" [OF valid(2) valid(1), of "drop (rune_size t) t"] show ?thesis
      by (metis append_take_drop_id)
  qed
  then show ?case by blast
qed

section \<open>Lookup in a document\<close>

fun tree_at :: "json \<Rightarrow> string list \<Rightarrow> json option" where
  "tree_at v [] = Some v"
| "tree_at (JObject ms) (k # ks) =
     (case map_of ms (json_body k) of None \<Rightarrow> None | Some v \<Rightarrow> tree_at v ks)"
| "tree_at _ (k # ks) = None"

lemma map_of_find: "map_of xs k = map_option snd (find (\<lambda>p. fst p = k) xs)"
  by (induction xs) auto

lemma find_filter: "find P xs = (case filter P xs of [] \<Rightarrow> None | x # _ \<Rightarrow> Some x)"
  by (induction xs) auto

lemma map_of_sort_key: "map_of (sort_key fst kv) k = map_of kv k"
  using sort_key_stable [where f = fst and xs = kv and k = k] by (simp add: map_of_find find_filter)

lemma map_of_bodies:
  assumes "utf8 k"
  shows "map_of (map (\<lambda>(k, v). (json_body k, f v)) kv) (json_body k) = map_option f (map_of kv k)"
proof -
  have "json_body k = json_body j \<longleftrightarrow> k = j" for j
    by (rule json_body_inject [OF assms])
  note inj = this
  show ?thesis by (induction kv) (simp_all add: inj split_def)
qed

lemma tree_members:
  "json_tree ft (Any_Map kv) = JObject (map (\<lambda>(k, v). (json_body k, json_tree ft v)) (sort_key fst kv))"
  unfolding json_tree.simps zip_members sort_key_map_values by (simp add: split_def)

lemma tree_at_float: "tree_at (json_tree ft (Any_Float f)) (k # ks) = None"
  by (cases f) simp_all

lemma tree_at_any_at:
  "list_all utf8 ks \<Longrightarrow> tree_at (json_tree ft v) ks = map_option (json_tree ft) (any_at v ks)"
proof (induction v ks rule: any_at.induct)
  case (2 kv k ks)
  then have "map_of (map (\<lambda>(k, v). (json_body k, json_tree ft v)) (sort_key fst kv)) (json_body k) =
      map_option (json_tree ft) (map_of kv k)"
    by (simp add: map_of_bodies map_of_sort_key)
  with 2 show ?case unfolding tree_members by (auto split: option.split)
qed (auto simp: tree_at_float)

end
