(* ===== verification/Drift.thy ===== *)
theory Drift
  imports Json_Tree Helm_Memory
begin

text \<open>
  A change of the Gpu spec reaches the cluster: the Helm client compares the values of the
  release with the wanted ones by their JSON texts (\<open>valuesEqual\<close>), and this comparison is one of
  documents; so a release with another driver version or another number of replicas is never
  taken for up to date.
\<close>

section \<open>The comparison of values\<close>

definition value_tree :: "float_text \<Rightarrow> gomap \<Rightarrow> json" where
  "value_tree ft m = (case m of None \<Rightarrow> JNull | Some kv \<Rightarrow> json_tree ft (Any_Map kv))"

definition encodable :: "gomap \<Rightarrow> bool" where
  "encodable m \<longleftrightarrow> (case m of None \<Rightarrow> True | Some kv \<Rightarrow> \<not> has_nonfinite (Any_Map kv))"

definition value_any :: "gomap \<Rightarrow> any" where
  "value_any m = (case m of None \<Rightarrow> Any_Nil | Some kv \<Rightarrow> Any_Map kv)"

lemma json_marshal_value: "json_marshal ft m = (if encodable m then Some (json_text ft (value_any m)) else None)"
  by (simp add: json_marshal_def encodable_def value_any_def split: option.split)

lemma value_tree_any: "value_tree ft m = json_tree ft (value_any m)"
  by (simp add: value_tree_def value_any_def split: option.split)

lemma encodable_any: "encodable m \<longleftrightarrow> \<not> has_nonfinite (value_any m)"
  by (simp add: encodable_def value_any_def split: option.split)

text \<open>
  The values that \<open>BuildValues\<close> returns can be stored, if those of the YAML parser survive (it
  goes through JSON itself, which has no infinite numbers and no invalid strings) and the
  version of the spec is valid UTF-8, as every string from the API server is.
\<close>

interpretation kept_values: value_law survives utf8
proof
  show "survives (Any_Map (AList.update k v kv))" if "survives (Any_Map kv)" "survives v" "utf8 k" for kv k v
    using that list_all_values_update [of survives kv v k]
    by (auto simp: list_all_iff dom_update [unfolded dom_map_of_conv_image_fst])
  show "survives v" if "survives (Any_Map kv)" "map_of kv k = Some v" for kv k v
    using that(1) map_of_SomeD [OF that(2)] by (auto simp: list_all_iff)
qed (simp_all add: utf8_ascii)

lemma build_values_storable:
  assumes "\<And>raw kv. yaml_unmarshal Y raw = Inr (Some kv) \<Longrightarrow> survives (Any_Map kv)"
    and "utf8 (spec_driver_version spec)" and "build_values A Y spec cluster = Done (Inr vals)"
  shows "storable vals"
proof -
  have "\<exists>kv. vals = Some kv \<and> survives (Any_Map kv)"
    by (rule kept_values.law_built [OF _ assms(2,3)]) (rule assms(1))
  with build_values_nonempty [OF assms(3)] show ?thesis
    by (auto simp: storable_def map_len_def simp del: survives.simps)
qed

lemma json_marshal_eq_iff:
  assumes "number_texts ft"
  shows "json_marshal ft a \<noteq> None \<and> json_marshal ft a = json_marshal ft b
    \<longleftrightarrow> encodable a \<and> encodable b \<and> value_tree ft a = value_tree ft b"
  using json_text_eq_iff [OF assms, of "value_any a" "value_any b"]
  by (simp add: json_marshal_value value_tree_any encodable_any)

lemma tree_at_value:
  "list_all utf8 ks \<Longrightarrow> ks \<noteq> [] \<Longrightarrow>
    tree_at (value_tree ft m) ks = map_option (json_tree ft) (map_at m ks)"
  using tree_at_any_at [of ks ft "value_any m"]
  by (cases ks) (auto simp: value_tree_any value_any_def map_at_def split: option.split)

text \<open>C22: Two maps of Helm values are equal for the client exactly when both are empty, or neither
  holds an infinite float and they are the same JSON document: the same keys with the same
  values at every level, numbers being compared by their texts, whatever the order in which the
  maps were filled.\<close>

theorem values_equal_documents:
  assumes "number_texts ft"
  shows "values_equal ft a b \<longleftrightarrow>
    map_len a = 0 \<and> map_len b = 0 \<or> encodable a \<and> encodable b \<and> value_tree ft a = value_tree ft b"
  using json_marshal_eq_iff [OF assms] by (auto simp: values_equal_iff)

lemma mem_number_texts: "number_texts (sdk_float_text mem_sdk)"
  using show_int_chars by (auto simp: number_texts_def mem_sdk_def number_chars_def)

theorem values_equal_documents_witness:
  "values_equal (sdk_float_text mem_sdk)
     (Some [(''a'', Any_Int 1), (''b'', Any_List [Any_Str ''x'', Any_Nil])])
     (Some [(''b'', Any_List [Any_Str ''x'', Any_Nil]), (''a'', Any_Float (Dyadic 4 (- 2)))])"
  unfolding values_equal_documents [OF mem_number_texts] by code_simp

section \<open>A changed spec\<close>

text \<open>
  What reaches Helm of a spec, over the base values: the driver version and the name of the time
  slicing configuration, when they are strings. A spec is changed with respect to another if one
  of the two differs (a version being compared when the new one is valid UTF-8, as every string from the API server is).
\<close>

definition string_at :: "gomap \<Rightarrow> string list \<Rightarrow> string option" where
  "string_at m ks = (case map_at m ks of Some (Any_Str s) \<Rightarrow> Some s | _ \<Rightarrow> None)"

definition wanted_version :: "gomap \<Rightarrow> gpu_spec \<Rightarrow> string option" where
  "wanted_version base spec =
     (if spec_driver_version spec \<noteq> [] then Some (spec_driver_version spec)
      else string_at base [''driver'', ''version''])"

definition wanted_config_name :: "gomap \<Rightarrow> gpu_spec \<Rightarrow> string option" where
  "wanted_config_name base spec =
     (case spec_time_slicing spec of
        Some ts \<Rightarrow> Some (replicas_config_map_name (replicas ts))
      | None \<Rightarrow> string_at base [''devicePlugin'', ''config'', ''name''])"

definition spec_changed :: "gomap \<Rightarrow> gpu_spec \<Rightarrow> gpu_spec \<Rightarrow> bool" where
  "spec_changed base old new \<longleftrightarrow>
     wanted_config_name base old \<noteq> wanted_config_name base new \<or>
     wanted_version base old \<noteq> wanted_version base new \<and>
       (case wanted_version base new of None \<Rightarrow> True | Some v \<Rightarrow> utf8 v)"

lemma wanted_version_read:
  assumes "build_values A Y spec cluster = Done (Inr vals)" and "base_values A Y cluster = Inr base"
  shows "string_at vals [''driver'', ''version''] = wanted_version base spec"
proof -
  obtain kv where "base_values A Y cluster = Inr (Some kv)"
    and vals: "vals = Some (override_time_slicing spec (override_driver spec kv))"
    by (rule build_values_Done [OF assms(1)])
  with assms(2) have "base = Some kv" by simp
  then show ?thesis
    using driver_version_of_override [of spec kv]
    by (simp add: vals string_at_def wanted_version_def map_at_def override_time_slicing_other)
qed

lemma wanted_config_name_read:
  assumes "build_values A Y spec cluster = Done (Inr vals)" and "base_values A Y cluster = Inr base"
  shows "string_at vals [''devicePlugin'', ''config'', ''name''] = wanted_config_name base spec"
proof -
  obtain kv where "base_values A Y cluster = Inr (Some kv)"
    and vals: "vals = Some (override_time_slicing spec (override_driver spec kv))"
    by (rule build_values_Done [OF assms(1)])
  with assms(2) have base: "base = Some kv" by simp
  show ?thesis
  proof (cases "spec_time_slicing spec")
    case None
    then show ?thesis
      by (simp add: vals base string_at_def wanted_config_name_def map_at_Cons override_time_slicing_def override_driver_other)
  next
    case (Some ts)
    then show ?thesis
      using time_slicing_of_override [OF Some, of "override_driver spec kv" "[''name'']"]
      by (simp add: vals string_at_def wanted_config_name_def)
  qed
qed

lemma utf8_config_map_name: "utf8 (replicas_config_map_name n)"
  by (rule utf8_ascii [OF ascii_config_map_name])

text \<open>Equal documents have the same string at every path, if one of the two is valid UTF-8.\<close>

lemma json_tree_string: "json_tree ft v = JString b \<longleftrightarrow> (\<exists>s. v = Any_Str s \<and> b = json_body s)"
proof (cases v)
  case (Any_Float f)
  then show ?thesis by (cases f) auto
qed auto

lemma same_string_at:
  assumes "value_tree ft a = value_tree ft b" and "ks \<noteq> []" and "list_all utf8 ks"
    and "string_at b ks = Some t" and "utf8 t"
  shows "string_at a ks = Some t"
proof -
  have "map_at b ks = Some (Any_Str t)"
    using assms(4) by (auto simp: string_at_def split: option.splits any.splits)
  then have "map_option (json_tree ft) (map_at a ks) = Some (JString (json_body t))"
    using tree_at_value [OF assms(3,2), of ft a] tree_at_value [OF assms(3,2), of ft b] assms(1) by simp
  then show ?thesis
    using json_body_inject [OF assms(5)] by (auto simp: json_tree_string string_at_def)
qed

lemma no_string_at:
  assumes "value_tree ft a = value_tree ft b" and "ks \<noteq> []" and "list_all utf8 ks"
    and "string_at b ks = None"
  shows "string_at a ks = None"
proof (rule ccontr)
  assume "string_at a ks \<noteq> None"
  then obtain s where "map_at a ks = Some (Any_Str s)"
    by (auto simp: string_at_def split: option.splits any.splits)
  then have "map_option (json_tree ft) (map_at b ks) = Some (JString (json_body s))"
    using tree_at_value [OF assms(3,2), of ft a] tree_at_value [OF assms(3,2), of ft b] assms(1) by simp
  with assms(4) show False by (auto simp: json_tree_string string_at_def)
qed

lemma path_keys:
  "list_all utf8 [''driver'', ''version'']"
  "list_all utf8 [''devicePlugin'', ''config'', ''name'']"
  by (simp_all add: utf8_ascii ascii_byte_def)

lemma changed_trees:
  assumes "build_values A Y old cluster = Done (Inr was)" and "build_values A Y new cluster = Done (Inr vals)"
    and "base_values A Y cluster = Inr base" and "spec_changed base old new"
  shows "value_tree ft was \<noteq> value_tree ft vals"
proof
  assume eq: "value_tree ft was = value_tree ft vals"
  note version_read = wanted_version_read [OF assms(1,3)] wanted_version_read [OF assms(2,3)]
    and name_read = wanted_config_name_read [OF assms(1,3)] wanted_config_name_read [OF assms(2,3)]
  from assms(4) consider
      (name) "wanted_config_name base old \<noteq> wanted_config_name base new"
    | (version) "wanted_version base old \<noteq> wanted_version base new"
        "case wanted_version base new of None \<Rightarrow> True | Some v \<Rightarrow> utf8 v"
    by (auto simp: spec_changed_def)
  then show False
  proof cases
    case version
    then show False
      using same_string_at [OF eq _ path_keys(1)] no_string_at [OF eq _ path_keys(1)]
      by (cases "wanted_version base new") (simp_all add: version_read)
  next
    case name
    show False
    proof (cases "spec_time_slicing new")
      case (Some ts)
      then have "wanted_config_name base old = wanted_config_name base new"
        using same_string_at [OF eq _ path_keys(2)] utf8_config_map_name
        by (simp add: wanted_config_name_def [of base new] name_read)
      with name show False by simp
    next
      case None
      show False
      proof (cases "spec_time_slicing old")
        case (Some ts)
        then have "wanted_config_name base new = wanted_config_name base old"
          using same_string_at [OF eq [symmetric] _ path_keys(2)] utf8_config_map_name
          by (simp add: wanted_config_name_def [of base old] name_read)
        with name show False by simp
      next
        case None
        with \<open>spec_time_slicing new = None\<close> name show False by (simp add: wanted_config_name_def)
      qed
    qed
  qed
qed

section \<open>The client upgrades\<close>

context helm_store
begin

text \<open>A deployed release that is not up to date for any chart is upgraded, or the call fails.\<close>

lemma wp_outdated_upgrades:
  assumes rel: "rel \<in> set (releases (world s))" "rel_name rel = release_name" "has_status StatusDeployed rel"
    and outdated: "\<And>chrt. release_up_to_date (sdk_float_text H) rel chrt vals \<noteq> Done True"
  shows "wp (client_install_or_upgrade H data vals)
    (\<lambda>r t. (\<exists>e. r = Done (Inl e)) \<or>
       r = Done (Inr True) \<and> (\<exists>es opts chrt. log t = es @ [Helm_Upgrade opts release_name chrt vals None])) s"
proof -
  define same where "same t \<longleftrightarrow> releases (world t) = releases (world s)" for t :: "('h, helm_event) st"
  have same_s: "same s" by (simp add: same_def)
  have ours: "r = rel" if "r \<in> set (releases (world s))" "rel_name r = release_name" for r
    using that rel same_name by metis
  have init: "wp (call (sdk_init H ns d) (Helm_Init ns d)) Q t" if "same t" "\<And>e u. same u \<Longrightarrow> Q e u" for ns d Q t
    using that by (intro wp_init) (simp add: same_def)
  have recover: "wp (recover_pending H) Q t"
    if "same t" "\<And>r u. r = Done None \<or> (\<exists>e. r = Done (Some e)) \<Longrightarrow> same u \<Longrightarrow> Q r u" for Q t
  proof (rule wp_recover_settled)
    show "has_status StatusDeployed r" if "r \<in> set (releases (world t))" "rel_name r = release_name" for r
      using ours [of r] that \<open>same t\<close> rel(3) by (simp add: same_def)
  qed (use that in \<open>simp add: same_def\<close>)
  have current: "wp (current_release H) Q t"
    if "same t" "\<And>e u. Q (Inl e) u" "\<And>u. Q (Inr (Some rel)) u" for Q t
  proof (rule wp_current_release)
    show "Q (Inr (Some r)) u" if "r \<in> set (releases (world t))" "rel_name r = release_name" for r u
      using ours [of r] that \<open>same t\<close> \<open>\<And>u. Q (Inr (Some rel)) u\<close> by (simp add: same_def)
    show "Q (Inr None) u"
      if "\<forall>r \<in> set (releases (world t)). rel_name r = release_name \<longrightarrow> \<not> listed [ListDeployed, ListFailed] r" for u
      using bspec [OF that, of rel] \<open>same t\<close> rel by (simp add: same_def)
  qed (rule that(2))
  have decided: "release_up_to_date (sdk_float_text H) rel chrt vals = Done False"
    if "sdk_load_archive H data = Inr chrt" for chrt
    using outdated [of chrt] archive_has_metadata [OF that]
    by (auto simp: release_up_to_date_def split: option.splits)
  show ?thesis
    unfolding client_install_or_upgrade_def action_config_def load_chart_def helm_upgrade_def Let_def
    by (auto simp: wp_simps wrap_opt_def decided split: option.split sum.split
        intro!: init recover current same_s
          wp_any_call [where f = "sdk_upgrade H opts name chrt vals" for opts name chrt])
qed

end

text \<open>C15: A change of the spec is never lost: when the deployed release stores the values of one spec
  and the client is called with those of a spec that wants another driver version or another
  time slicing configuration (also when one of them is dropped from the spec and the base values
  take its place), the call does not report ``no change'': it fails with an error, or it ends
  with a successful upgrade of the release to the new values.\<close>

theorem changed_spec_upgrades:
  assumes "helm_store H releases" and "number_texts (sdk_float_text H)"
    and "build_values A Y old cluster = Done (Inr was)" and "build_values A Y new cluster = Done (Inr vals)"
    and "base_values A Y cluster = Inr base" and "spec_changed base old new"
    and "rel \<in> set (releases h)" and "rel_name rel = ''gpu-operator''" and "has_status ''deployed'' rel"
    and "json_marshal (sdk_float_text H) (rel_config rel) = json_marshal (sdk_float_text H) was"
  shows "(\<exists>e. result_of (client_install_or_upgrade H data vals) h = Done (Inl e)) \<or>
    result_of (client_install_or_upgrade H data vals) h = Done (Inr True) \<and>
    (\<exists>es opts chrt. trace_of (client_install_or_upgrade H data vals) h =
       es @ [Helm_Upgrade opts ''gpu-operator'' chrt vals None])"
proof -
  have "map_len vals \<noteq> 0" by (rule build_values_nonempty [OF assms(4)])
  then have "\<not> values_equal (sdk_float_text H) (rel_config rel) vals"
    using changed_trees [OF assms(3-6), of "sdk_float_text H"] json_marshal_eq_iff [OF assms(2), of was vals] assms(10)
    by (auto simp: values_equal_iff)
  then have "release_up_to_date (sdk_float_text H) rel chrt vals \<noteq> Done True" for chrt
    by (auto simp: up_to_date_iff)
  then show ?thesis
    using helm_store.wp_outdated_upgrades [OF assms(1), of rel "start h" vals data, unfolded wp_result_world] assms(7-9)
    by (simp add: trace_of_def release_name_def)
qed

text \<open>The Garden Linux values with four replicas are installed; then eight are asked for.\<close>

definition eight_replicas :: gpu_spec where
  "eight_replicas = example_spec\<lparr>spec_time_slicing := Some \<lparr>replicas = 8\<rparr>\<rparr>"

definition eight_values :: gomap where
  "eight_values = (case build_values example_assets example_yaml eight_replicas \<lparr>cluster_os = ''gardenlinux''\<rparr> of
     Done (Inr vals) \<Rightarrow> vals | _ \<Rightarrow> None)"

definition four_installed :: mem where
  "four_installed = world_of (client_install_or_upgrade mem_sdk ''v2'' (Some example_values)) mem_empty"

theorem changed_spec_upgrades_witness:
  "(\<exists>es opts chrt. trace_of (client_install_or_upgrade mem_sdk ''v2'' eight_values) four_installed =
     es @ [Helm_Upgrade opts ''gpu-operator'' chrt eight_values None])"
proof -
  let ?rel = "hd (mem_releases four_installed)"
  have built: "build_values example_assets example_yaml eight_replicas \<lparr>cluster_os = ''gardenlinux''\<rparr> = Done (Inr eight_values)"
    by (simp add: eight_values_def build_values_eq example_base)
  have rel: "?rel \<in> set (mem_releases four_installed)" "rel_name ?rel = ''gpu-operator''" "has_status ''deployed'' ?rel"
    "rel_config ?rel = Some example_values"
    by code_simp+
  have run: "result_of (client_install_or_upgrade mem_sdk ''v2'' eight_values) four_installed = Done (Inr True)"
    by code_simp
  have "spec_changed base example_spec eight_replicas" for base
    by (simp add: spec_changed_def wanted_config_name_def example_spec_def eight_replicas_def replicas_config_map_name_inject)
  from changed_spec_upgrades [OF mem.helm_store_axioms mem_number_texts example_built built example_base this rel(1-3), of "''v2''"] rel(4) run
  show ?thesis by simp
qed

end
