(* ===== verification/Settled_System.thy ===== *)
theory Settled_System
  imports Quiescence Full_System Drift
begin

text \<open>
  The operator as built comes to rest: \<open>Quiescence\<close> for the controller with its Helm client, in one
  cluster whose API server and release store behave as documented; and a run of the references.
\<close>

section \<open>The controller with its Helm client\<close>

text \<open>
  One cluster in which nobody else acts. Helm may change the objects it installs, but neither the
  Gpu resources nor the nodes, and it changes nothing while it only looks; reading an object and
  writing a status do not touch the releases.
\<close>

locale one_cluster = steady_api "r_kube R" snap + helm_store H releases
  for R :: "('w, 'v) reconciler" and snap :: "'w \<Rightarrow> snapshot"
    and H :: "'w helm_sdk" and releases :: "'w \<Rightarrow> release list" +
  assumes its_client: "r_installer R = helm_installer H"
    and helm_keeps: "sdk_moves (\<lambda>w w'. sn_gpu (snap w') = sn_gpu (snap w) \<and> sn_nodes (snap w') = sn_nodes (snap w))
      (\<lambda>_. True) H"
    and helm_looks: "sdk_moves (\<lambda>w w'. snap w' = snap w) (\<lambda>e. \<not> helm_write e) H"
    and get_keeps: "releases (snd (k_get_gpu (r_kube R) name w)) = releases w"
    and nodes_keep: "releases (snd (k_list_nodes (r_kube R) w)) = releases w"
    and daemon_sets_keep: "releases (snd (k_list_daemon_sets (r_kube R) ns labels w)) = releases w"
    and object_keeps: "releases (snd (k_get_object (r_kube R) what name w)) = releases w"
    and patch_keeps: "releases (snd (k_patch_status (r_kube R) live original w)) = releases w"
begin

lemma keeps_converged: "(\<And>w. releases (snd (f w)) = releases w) \<Longrightarrow> keeps_release converged f"
  using converged_keep by (auto simp: keeps_release_def)

lemma looked_same:
  assumes "converged data vals w"
  shows "snap (world_of (client_install_or_upgrade H data vals) w) = snap w"
proof (rule moves_world [OF moves_client(1) [OF helm_looks]])
  have "converged data vals (world (start w :: ('w, helm_event) st))" using assms by simp
  from wp_call_converged [OF this, unfolded wp_result_world]
  show "list_all (\<lambda>e. \<not> helm_write e) (trace_of (client_install_or_upgrade H data vals) w)"
    by (auto simp: trace_of_def)
qed

end

sublocale one_cluster \<subseteq> settled: steady_operator R snap converged storable
proof (intro steady_operator.intro steady_operator_axioms.intro, unfold its_client)
  show "steady_api (r_kube R) snap" by (rule steady_api_axioms)
  show "installer_contract (helm_installer H) converged storable" by (rule store_contract)
  show "sn_gpu (snap w') = sn_gpu (snap w) \<and> sn_nodes (snap w') = sn_nodes (snap w)"
    if "install_or_upgrade_op (helm_installer H) data vals w = (r, w')" for data vals w r w'
    using that moves_world [OF moves_client(1) [OF helm_keeps, of data vals], of w]
    by (auto simp: helm_installer_def list_all_iff)
  show "snap w' = snap w"
    if "converged data vals w" "install_or_upgrade_op (helm_installer H) data vals w = (Done (Inr False), w')" for data vals w w'
    using that looked_same [of data vals w] by (auto simp: helm_installer_def)
qed (rule keeps_converged; simp add: get_keeps nodes_keep daemon_sets_keep object_keeps patch_keeps)+

context one_cluster
begin

lemma comes_to_rest:
  assumes "\<And>raw kv. yaml_unmarshal (r_yaml R) raw = Inr (Some kv) \<Longrightarrow> survives (Any_Map kv)"
    and "\<And>g. sn_gpu (snap w) req = Inr g \<Longrightarrow> utf8 (spec_driver_version (gpu_spec_of g))"
    and "result_of (reconcile R req) w = Done (requeue_later, None)"
    and "list_ex is_install (trace_of (reconcile R req) w)"
  shows "at_rest snap converged R (world_of (reconcile R req) w)"
proof -
  have "wp (reconcile R req)
      (\<lambda>r t. r = Done (requeue_later, None) \<longrightarrow> list_ex is_install (log t) \<longrightarrow> at_rest snap converged R (world t)) (start w)"
    by (rule settled.wp_reconcile_rests) (rule build_values_storable, rule assms(1), assumption, rule assms(2))
  then show ?thesis
    using assms(3,4) by (auto simp: wp_def result_of_def trace_of_def world_of_def split: prod.splits)
qed

lemma rests_for_ever:
  assumes "at_rest snap converged R w" and "list_all (\<lambda>tr. \<not> list_ex helm_failed_call tr) (cycles R n w)"
  shows "list_all (list_all only_looks) (cycles R n w)"
  using settled.cycles_at_rest [OF assms(1)] assms(2) by blast

end

section \<open>Properties\<close>

text \<open>C8: The operator comes to rest. When a reconciliation has installed the chart and reported a
  full status, and nobody else acts (the API server answers from what is stored), then every one
  of any number of further reconciliations in which Helm does not fail only looks: it patches
  nothing, updates nothing, deletes nothing, and its Helm call reports no change. The controller
  and its Helm client share one cluster, of which the releases are a part (\<open>one_cluster\<close>). The
  embedded values come out of the YAML parser as JSON documents and the version in the spec is valid UTF-8, as
  every string from the API server is, so that Helm stores the values faithfully.\<close>

theorem operator_comes_to_rest:
  assumes "one_cluster R snap H releases"
    and "\<And>raw kv. yaml_unmarshal (r_yaml R) raw = Inr (Some kv) \<Longrightarrow> survives (Any_Map kv)"
    and "\<And>g. sn_gpu (snap w) req = Inr g \<Longrightarrow> utf8 (spec_driver_version (gpu_spec_of g))"
    and "result_of (reconcile R req) w = Done (requeue_later, None)"
    and "list_ex is_install (trace_of (reconcile R req) w)"
    and "list_all (\<lambda>tr. \<not> list_ex helm_failed_call tr) (cycles R n (world_of (reconcile R req) w))"
  shows "list_all (list_all only_looks) (cycles R n (world_of (reconcile R req) w))"
  by (rule one_cluster.rests_for_ever [OF assms(1) one_cluster.comes_to_rest [OF assms(1)]]) (rule assms(2-6), assumption?)+

section \<open>The references\<close>

text \<open>The snapshot of an API server that reads do not change.\<close>

definition snap_of :: "'w kube \<Rightarrow> 'w \<Rightarrow> snapshot" where
  "snap_of K w =
     \<lparr>sn_gpu = (\<lambda>name. fst (k_get_gpu K name w)), sn_nodes = fst (k_list_nodes K w),
      sn_daemon_sets = (\<lambda>ns labels. fst (k_list_daemon_sets K ns labels w)),
      sn_object = (\<lambda>kind name. fst (k_get_object K kind name w))\<rparr>"

interpretation ref_steady: steady_api ref_kube "snap_of ref_kube"
proof (intro steady_api.intro steady_api_axioms.intro)
  fix w w' original live
  assume "sn_gpu (snap_of ref_kube w) (gpu_name original) = Inr original"
    and live: "live = original\<lparr>gpu_status_of := gpu_status_of live\<rparr>"
    and patch: "k_patch_status ref_kube live original w = (None, w')"
  then have stored: "cl_gpu w = Some original"
    by (auto simp: snap_of_def ref_kube_simps split: option.splits if_splits)
  have "gpu_name live = gpu_name original" by (subst live) simp
  with patch stored have "w' = w\<lparr>cl_gpu := Some live, cl_now := cl_now w + 1\<rparr>"
    using live by (auto simp: ref_kube_simps split: if_splits)
  with stored \<open>gpu_name live = gpu_name original\<close>
  have "snap_of ref_kube w' = (snap_of ref_kube w)
      \<lparr>sn_gpu := (sn_gpu (snap_of ref_kube w))(gpu_name original := Inr (live\<lparr>resource_version := resource_version live\<rparr>))\<rparr>"
    by (auto simp: snap_of_def ref_kube_simps fun_eq_iff)
  then show "\<exists>rv. snap_of ref_kube w' = (snap_of ref_kube w)
      \<lparr>sn_gpu := (sn_gpu (snap_of ref_kube w))(gpu_name original := Inr (live\<lparr>resource_version := rv\<rparr>))\<rparr>" ..
qed (rule ref.kube_library_axioms, auto simp: reads_def snap_of_def ref_kube_simps split: option.splits if_splits)

lemma left_library_fields:
  "find_condition (left_kube gone K) = find_condition K" "set_condition (left_kube gone K) = set_condition K"
  "contains_finalizer (left_kube gone K) = contains_finalizer K" "add_finalizer (left_kube gone K) = add_finalizer K"
  "remove_finalizer (left_kube gone K) = remove_finalizer K" "semantic_equal (left_kube gone K) = semantic_equal K"
  by (simp_all add: left_kube_def)

lemma left_library: "kube_library K \<Longrightarrow> kube_library (left_kube gone K)"
  by (simp add: kube_library_def kube_library_axioms_def left_library_fields)

lemma left_reads: "reads snap f answer \<Longrightarrow> reads (\<lambda>w. snap (fst w)) (on_left f) answer"
  by (auto simp: reads_def on_left_def split: prod.split) (metis fst_conv snd_conv)+

lemma left_steady:
  assumes "steady_api K snap"
  shows "steady_api (left_kube gone K) (\<lambda>w. snap (fst w))"
proof (intro steady_api.intro steady_api_axioms.intro, unfold left_requests on_left_eq)
  show "kube_library (left_kube gone K)"
    by (rule left_library [OF steady_api.axioms(1) [OF assms]])
  show "reads (\<lambda>w. snap (fst w)) (on_left (k_get_gpu K name)) (\<lambda>s. sn_gpu s name)" for name
    by (rule left_reads [OF steady_api.reads_gpu [OF assms]])
  show "reads (\<lambda>w. snap (fst w)) (on_left (k_list_nodes K)) sn_nodes"
    by (rule left_reads [OF steady_api.reads_nodes [OF assms]])
  show "reads (\<lambda>w. snap (fst w)) (on_left (k_list_daemon_sets K ns labels)) (\<lambda>s. sn_daemon_sets s ns labels)" for ns labels
    by (rule left_reads [OF steady_api.reads_daemon_sets [OF assms]])
  show "reads (\<lambda>w. snap (fst w)) (on_left (k_get_object K kind name)) (\<lambda>s. sn_object s kind name)" for kind name
    by (rule left_reads [OF steady_api.reads_object [OF assms]])
qed (simp add: steady_api.gpu_named [OF assms], use steady_api.patch_stores [OF assms] in blast)

lemma on_left_keeps: "snd (snd (on_left f w)) = snd w"
  by (simp add: on_left_def split: prod.split)

lemma ref_created_snap:
  "sn_gpu (snap_of ref_kube (ref_created c)) = sn_gpu (snap_of ref_kube c)"
  "sn_nodes (snap_of ref_kube (ref_created c)) = sn_nodes (snap_of ref_kube c)"
  by (simp_all add: snap_of_def ref_kube_simps ref_created_def)

interpretation whole_rest: one_cluster ref_operator "\<lambda>w. snap_of ref_kube (fst w)" ref_whole_sdk whole_releases
proof (rule one_cluster.intro)
  have kube: "r_kube ref_operator = left_kube (\<lambda>m. mem_empty) ref_kube"
    by (simp add: ref_operator_def ref_whole_kube_def)
  show "steady_api (r_kube ref_operator) (\<lambda>w. snap_of ref_kube (fst w))"
    unfolding kube by (rule left_steady [OF ref_steady.steady_api_axioms])
  show "one_cluster_axioms ref_operator (\<lambda>w. snap_of ref_kube (fst w)) ref_whole_sdk whole_releases"
  proof (intro one_cluster_axioms.intro)
    show "r_installer ref_operator = helm_installer ref_whole_sdk" by (simp add: ref_operator_def)
    show "sdk_moves (\<lambda>w w'. sn_gpu (snap_of ref_kube (fst w')) = sn_gpu (snap_of ref_kube (fst w)) \<and>
        sn_nodes (snap_of ref_kube (fst w')) = sn_nodes (snap_of ref_kube (fst w))) (\<lambda>_. True) ref_whole_sdk"
      by (rule whole_moves) (auto simp: reflp_def transp_def ref_created_snap)
    show "sdk_moves (\<lambda>w w'. snap_of ref_kube (fst w') = snap_of ref_kube (fst w)) (\<lambda>e. \<not> helm_write e) ref_whole_sdk"
      by (rule whole_moves) (auto simp: reflp_def transp_def)
  qed (simp_all add: kube left_requests on_left_keeps)
qed (rule whole_store.helm_store_axioms)

text \<open>After the first reconciliation has installed the chart, the second one only looks.\<close>

lemma ref_second_run: "\<not> list_ex helm_failed_call (trace_of (reconcile ref_operator expected_cr_name) ref_installed_world)"
  by code_simp

lemma ref_second_cycle: "list_all (\<lambda>tr. \<not> list_ex helm_failed_call tr) (cycles ref_operator 1 ref_installed_world)"
  using ref_second_run by simp

theorem operator_comes_to_rest_witness:
  "list_all only_looks (trace_of (reconcile ref_operator ''gpu'') ref_installed_world)"
proof -
  have "list_ex is_install (trace_of (reconcile ref_operator ''gpu'') (ref_starting, mem_empty))"
    using ref_operator_installs(3) by (auto simp: list_ex_iff intro: bexI [rotated])
  moreover have "survives (Any_Map kv)" if "yaml_unmarshal (r_yaml ref_operator) raw = Inr (Some kv)" for raw kv
    using that by (auto simp: ref_operator_def ref_yaml_def utf8_ascii ascii_byte_def)
  moreover have "utf8 (spec_driver_version (gpu_spec_of g))"
    if "sn_gpu (snap_of ref_kube (fst (ref_starting, mem_empty))) ''gpu'' = Inr g" for g
    using that by (auto simp: snap_of_def ref_kube_simps ref_starting_def ref_cluster_def ref_gpu_def spec_driver_version_def
        split: if_splits)
  ultimately have "list_all (list_all only_looks)
      (cycles ref_operator 1 (world_of (reconcile ref_operator ''gpu'') (ref_starting, mem_empty)))"
    using ref_second_cycle ref_operator_installs(1)
    by (intro operator_comes_to_rest [OF whole_rest.one_cluster_axioms])
       (simp_all add: ref_installed_world_def)
  then show ?thesis
    by (simp add: ref_installed_world_def expected_cr_name_def)
qed

end
