(* ===== verification/Progress.thy ===== *)
theory Progress
  imports Protocol Reference_Cluster
begin

text \<open>
  What a reconciliation achieves when the calls it depends on succeed: a deletion is carried
  through, a resource in service is installed and reported. The other calls may fail: status
  writes and the pod listing do not hold up a deletion, and an observation that fails is
  reported. These are the counterparts of the safety properties of \<open>Protocol\<close>, and like them need
  nothing of the API server.
\<close>

section \<open>Deletion\<close>







section \<open>Service\<close>











section \<open>Properties\<close>










end
