(* ===== verification/Costs.thy ===== *)
theory Costs
  imports Protocol Helm_Store
begin

text \<open>
  How many calls the operator makes: a reconciliation and an operation of the Helm client end
  after a bounded number of requests, whatever is answered. A computation is charged for the
  calls it adds to the log; the costs of its parts add up along each path.
\<close>

section \<open>The calls of a reconciliation\<close>

fun helm_call :: "kube_event \<Rightarrow> bool" where
  "helm_call (Install_Call data vals r) = True"
| "helm_call (Uninstall_Call r) = True"
| "helm_call _ = False"

fun status_patch :: "kube_event \<Rightarrow> bool" where
  "status_patch (Patch_Status live original e) = True"
| "status_patch _ = False"

fun object_write :: "kube_event \<Rightarrow> bool" where
  "object_write (Update_Gpu g e) = True"
| "object_write (Delete_Namespace n p e) = True"
| "object_write _ = False"

definition count :: "('e \<Rightarrow> bool) \<Rightarrow> 'e list \<Rightarrow> nat" where
  "count P tr = length (filter P tr)"

lemma count_simps [simp]:
  "count P [] = 0" "count P (xs @ ys) = count P xs + count P ys"
  "count P (e # tr) = (if P e then 1 else 0) + count P tr"
  by (simp_all add: count_def)

text \<open>What may be spent: calls in all, calls of Helm, status patches, other writes.\<close>

definition spent :: "nat \<Rightarrow> nat \<Rightarrow> nat \<Rightarrow> nat \<Rightarrow> ('w, kube_event) st \<Rightarrow> bool" where
  "spent calls helm patches writes t \<longleftrightarrow>
     length (log t) \<le> calls \<and> count helm_call (log t) \<le> helm \<and>
     count status_patch (log t) \<le> patches \<and> count object_write (log t) \<le> writes"

lemma spent_start [simp]: "spent 0 0 0 0 (start w)"
  by (simp add: spent_def)

lemma spent_mono:
  "spent a b c d t \<Longrightarrow> a \<le> a' \<Longrightarrow> b \<le> b' \<Longrightarrow> c \<le> c' \<Longrightarrow> d \<le> d' \<Longrightarrow> spent a' b' c' d' t"
  by (auto simp: spent_def)

declare One_nat_def [simp del]

text \<open>A call is charged to its kind.\<close>

lemma wp_charge:
  assumes "spent a b c d s"
    and "\<And>r t. spent (a + 1) (b + of_bool (helm_call (ev r))) (c + of_bool (status_patch (ev r)))
      (d + of_bool (object_write (ev r))) t \<Longrightarrow> Q r t"
  shows "wp (call f ev) Q s"
  by (rule wp_any_call) (rule assms(2), use assms(1) in \<open>simp add: spent_def\<close>)

lemma wp_charge_status:
  assumes "spent a b c d s" and "\<And>e t. spent (a + 2) b (c + 1) d t \<Longrightarrow> Q e t"
  shows "wp (apply_status K name upd) Q s"
  unfolding apply_status_def get_gpu_def patch_status_def Let_def
  using assms(1)
  by (auto simp: wp_simps spent_def split: sum.split intro!: wp_any_call assms(2))

lemma wp_release_costs:
  "spent a b c d s \<Longrightarrow> wp (release_finalizer K name) (\<lambda>r. spent (a + 2) b c (d + 1)) s"
  unfolding release_finalizer_def get_gpu_def update_gpu_def
  by (auto simp: wp_simps spent_def split: sum.split intro!: wp_any_call)

lemma wp_finish_costs:
  "spent a b c d s \<Longrightarrow> wp (finish_delete R g) (\<lambda>r. spent (a + 4) (b + 1) c (d + 2)) s"
  unfolding finish_delete_def delete_namespace_def release_finalizer_def request_defs
  by (auto simp: wp_simps spent_def split: run.split option.split sum.split intro!: wp_any_call)

lemma wp_delete_costs:
  assumes "spent 1 0 0 0 s"
  shows "wp (reconcile_delete R g) (\<lambda>r. spent 8 1 2 2) s"
proof -
  have within: "spent a b c d t \<Longrightarrow> a \<le> 8 \<Longrightarrow> b \<le> 1 \<Longrightarrow> c \<le> 2 \<Longrightarrow> d \<le> 2 \<Longrightarrow> spent 8 1 2 2 t"
    for a b c d and t :: "('a, kube_event) st"
    by (rule spent_mono)
  have finish: "wp (finish_delete R g) (\<lambda>r. spent 8 1 2 2) t" if "spent 4 0 1 0 t" for t
    by (rule wp_mono [OF wp_finish_costs [OF that]]) (erule within; simp)
  have blocked: "wp (apply_status K name upd) (\<lambda>e. spent 8 1 2 2) t" if "spent 4 0 1 0 t"
    for K :: "'a kube" and name upd t
    by (rule wp_charge_status [OF that]) (erule within; simp)
  have pods: "wp (detect_active_gpu_workloads K) Q t" if "spent 3 0 1 0 t" "\<And>r u. spent 4 0 1 0 u \<Longrightarrow> Q r u"
    for K :: "'a kube" and Q t
    unfolding detect_active_gpu_workloads_def list_pods_def wp_bind
    by (rule wp_charge [OF that(1)]) (auto simp: wp_simps split: sum.split intro!: that(2))
  have update: "wp (update_gpu (r_kube R) h) (\<lambda>e. spent 8 1 2 2) s" for h
    unfolding update_gpu_def by (rule wp_charge [OF assms]) (auto elim!: within)
  have "spent 8 1 2 2 s" by (rule within [OF assms]) simp_all
  then show ?thesis
    unfolding reconcile_delete_def Let_def
    by (auto simp: wp_simps split: sum.split intro!: update wp_charge_status [OF assms] pods finish blocked)
qed

lemma wp_observe_costs:
  assumes "spent 3 1 0 0 s"
  shows "wp (observe_and_report R g pc hc version) (\<lambda>r. spent 8 1 2 2) s"
proof -
  have status: "wp (apply_status K name upd) (\<lambda>e. spent 8 1 2 2) t" if "spent 5 1 0 0 t"
    for K :: "'a kube" and name upd t
    by (rule wp_charge_status [OF that]) (erule spent_mono; simp)
  have policy: "wp (call (k_get_object K kind name) (Get_Object kind name)) Q t"
    if "spent 4 1 0 0 t" "\<And>r u. spent 5 1 0 0 u \<Longrightarrow> Q r u" for K :: "'a kube" and kind name Q t
    by (rule wp_charge [OF that(1)]) (simp add: that(2))
  have sets: "wp (call (k_list_daemon_sets K ns labels) (List_Daemon_Sets ns labels)) Q s"
    if "\<And>r u. spent 4 1 0 0 u \<Longrightarrow> Q r u" for K :: "'a kube" and ns labels Q
    by (rule wp_charge [OF assms]) (simp add: that)
  show ?thesis
    unfolding observe_and_report_def check_driver_daemon_set_answer check_cluster_policy_answer
      list_daemon_sets_def get_object_def
    by (auto simp: wp_simps intro!: sets policy status)
qed

lemma wp_preflight_costs:
  assumes "spent 1 0 0 0 s"
    and "\<And>os res e t. spent 8 1 2 2 t \<Longrightarrow> Q (None, os, res, e) t"
    and "\<And>pc os res t. spent 2 0 0 0 t \<Longrightarrow> Q (Some pc, os, res, None) t"
  shows "wp (reconciler_run_preflight R g) Q s"
proof -
  have status: "wp (apply_status K name upd) P t"
    if "spent 2 0 0 0 t" "\<And>e u. spent 8 1 2 2 u \<Longrightarrow> P e u" for K :: "'a kube" and name upd P t
    by (rule wp_charge_status [OF that(1)]) (rule that(2), erule spent_mono; simp)
  have early: "spent 2 0 0 0 t \<Longrightarrow> spent 8 1 2 2 t" for t :: "('a, kube_event) st"
    by (erule spent_mono; simp)
  show ?thesis
    unfolding reconciler_run_preflight_def run_preflight_def list_nodes_def wp_bind
    by (rule wp_charge [OF assms(1)])
      (auto simp: wp_simps split: sum.split outcome.split option.split
        intro!: status assms(2,3) early)
qed

lemma wp_install_costs:
  assumes "spent 2 0 0 0 s"
    and "\<And>e t. spent 8 1 2 2 t \<Longrightarrow> Q (Done (Inl e)) t"
    and "\<And>p t. spent 8 1 2 2 t \<Longrightarrow> Q (Panic p) t"
    and "\<And>hc version t. spent 3 1 0 0 t \<Longrightarrow> Q (Done (Inr (hc, version))) t"
  shows "wp (reconciler_install_or_upgrade R g pc os) Q s"
proof -
  have early: "spent 2 0 0 0 t \<Longrightarrow> spent 8 1 2 2 t" "spent 3 1 0 0 t \<Longrightarrow> spent 8 1 2 2 t" for t :: "('a, kube_event) st"
    by (erule spent_mono; simp)+
  have status: "wp (apply_status K name upd) P t"
    if "spent 3 1 0 0 t" "\<And>e u. spent 8 1 2 2 u \<Longrightarrow> P e u" for K :: "'a kube" and name upd P t
    by (rule wp_charge_status [OF that(1)]) (rule that(2), erule spent_mono; simp)
  have helm: "wp (call (install_or_upgrade_op I data vals) (Install_Call data vals)) P s"
    if "\<And>r u. spent 3 1 0 0 u \<Longrightarrow> P r u" for I :: "'a installer" and data vals P
    by (rule wp_charge [OF assms(1)]) (simp add: that)
  show ?thesis
    unfolding reconciler_install_or_upgrade_def install_or_upgrade_def
    using early(1) [OF assms(1)]
    by (auto simp: wp_simps split: sum.split run.split intro!: helm status assms(2-4) intro: early)
qed

lemma wp_reconcile_costs: "wp (reconcile R req) (\<lambda>r. spent 8 1 2 2) (start w)"
proof -
  have one: "spent 1 0 0 0 t \<Longrightarrow> spent 8 1 2 2 t" for t :: "('a, kube_event) st"
    by (erule spent_mono; simp)
  have update: "wp (update_gpu K h) (\<lambda>e. spent 8 1 2 2) t" if "spent 1 0 0 0 t" for K :: "'a kube" and h t
    unfolding update_gpu_def by (rule wp_charge [OF that]) (erule spent_mono; simp)
  have status: "wp (apply_status K name upd) (\<lambda>e. spent 8 1 2 2) t" if "spent 1 0 0 0 t"
    for K :: "'a kube" and name upd t
    by (rule wp_charge_status [OF that]) (erule spent_mono; simp)
  have installed: "wp (reconcile_installed R g) (\<lambda>r. spent 8 1 2 2) t" if "spent 1 0 0 0 t" for g t
    unfolding reconcile_installed_def wp_bind
    by (rule wp_preflight_costs [OF that])
      (auto simp: wp_simps split: sum.split run.split intro!: wp_install_costs wp_observe_costs)
  show ?thesis
    unfolding reconcile_def Let_def wp_bind get_gpu_def
    by (rule wp_charge [OF spent_start])
      (auto simp: wp_simps split: sum.split intro!: one update status wp_delete_costs installed)
qed

declare One_nat_def [simp]

text \<open>C12: The work of a reconciliation is bounded: whatever the cluster and Helm answer, it ends after at
  most eight requests, among them at most one call of Helm, at most two status patches and at
  most two other writes (the update of the resource and the deletion of the namespace). Nothing
  is retried within a reconciliation.\<close>

theorem reconcile_bounded:
  "length (trace_of (reconcile R req) w) \<le> 8 \<and> count helm_call (trace_of (reconcile R req) w) \<le> 1 \<and>
   count status_patch (trace_of (reconcile R req) w) \<le> 2 \<and> count object_write (trace_of (reconcile R req) w) \<le> 2"
  using wp_reconcile_costs [of R req w] by (simp add: wp_run spent_def trace_of_def)

section \<open>The calls of the Helm client\<close>

text \<open>The releases with our name that the listing of pending releases showed.\<close>

definition ours :: "release list \<Rightarrow> nat" where
  "ours rs = count (\<lambda>r. rel_name r = release_name) rs"

fun pending_listed :: "helm_event list \<Rightarrow> nat" where
  "pending_listed (e # Helm_List states (Inr rs) # es) = ours rs"
| "pending_listed _ = 0"

lemma wp_recover_each_costs:
  assumes "\<And>r t es. log t = log s @ es \<Longrightarrow> length es \<le> ours rs \<Longrightarrow> list_all (\<lambda>e. \<not> installs e) es \<Longrightarrow> Q r t"
  shows "wp (recover_each H rs) Q s"
  using assms
proof (induction rs arbitrary: s)
  case Nil
  then show ?case by (simp add: wp_simps)
next
  case (Cons rel rs)
  show ?case
  proof (cases "rel_name rel = release_name")
    case False
    then show ?thesis
      by (simp add: wp_simps) (rule Cons.IH, rule Cons.prems, auto simp: ours_def)
  next
    case True
    have rest: "wp (recover_each H rs) Q t" if "log t = log s @ [ev]" "\<not> installs ev" for t ev
    proof (rule Cons.IH)
      show "Q r u" if "log u = log t @ es" "length es \<le> ours rs" "list_all (\<lambda>e. \<not> installs e) es" for r u es
        by (rule Cons.prems [of _ "ev # es"]) (use that True \<open>log t = _\<close> \<open>\<not> installs ev\<close> in \<open>auto simp: ours_def\<close>)
    qed
    have stop: "Q r t" if "log t = log s @ es" "es = [] \<or> es = [ev]" "\<not> installs ev" for r t es ev
      by (rule Cons.prems [OF that(1)]) (use that True in \<open>auto simp: ours_def\<close>)
    have action: "wp (call f ev) (\<lambda>e. case e of Some x \<Rightarrow> \<lambda>t. Q (g x) t | None \<Rightarrow> wp (recover_each H rs) Q) s"
      if "\<And>r. \<not> installs (ev r)" for f ev g
      using that by (auto split: option.split intro!: wp_any_call rest stop)
    have "wp (recover_each H rs) Q s"
      by (rule Cons.IH, rule Cons.prems) (use True in \<open>auto simp: ours_def\<close>)
    moreover have "Q (Panic nil_deref) s" by (rule stop [of _ "[]" "Helm_Rollback [] None"]) simp_all
    ultimately show ?thesis
      using True by (auto simp: wp_simps split: option.split intro!: action)
  qed
qed

definition client_spends :: "('h, helm_event) st \<Rightarrow> bool" where
  "client_spends t \<longleftrightarrow> length (log t) \<le> 4 + pending_listed (log t) \<and> count installs (log t) \<le> 1"

lemma count_none: "list_all (\<lambda>e. \<not> P e) es \<Longrightarrow> count P es = 0"
  by (induction es) auto

lemma wp_client_costs: "wp (client_install_or_upgrade H data vals) (\<lambda>r. client_spends) (start h)"
  unfolding client_install_or_upgrade_def action_config_def recover_pending_def current_release_def
    helm_install_def helm_upgrade_def Let_def
  by (auto simp: wp_simps wrap_opt_def client_spends_def count_none split: helm_splits
      intro!: wp_any_call wp_recover_each_costs)

text \<open>C34: An InstallOrUpgrade ends: its loop over the pending releases makes at most one call for every
  pending release named gpu-operator that was listed, and four more calls are made around it
  (initialise, two listings, and at most one install or upgrade).\<close>

theorem client_bounded:
  "length (trace_of (client_install_or_upgrade H data vals) h) \<le>
     4 + pending_listed (trace_of (client_install_or_upgrade H data vals) h) \<and>
   count installs (trace_of (client_install_or_upgrade H data vals) h) \<le> 1"
  using wp_client_costs [of H data vals h] by (simp add: wp_run client_spends_def trace_of_def)

end
