(* ===== verification/Error_Reports.thy ===== *)
theory Error_Reports
  imports Protocol Helm_Store
begin

text \<open>
  No failure gets lost: what the Helm client and the reconciler return is compared with the
  failures in the log. An error that is returned wraps the error of a call that failed (or of a
  computation inside the operator), and a run that returns no error had no failure but those the
  code tolerates on purpose.
\<close>

section \<open>The Helm client\<close>

text \<open>The error that the client makes of a call that failed.\<close>

fun helm_failure :: "helm_event \<Rightarrow> err option" where
  "helm_failure (Helm_Init ns driver e) = wrap_opt ''initialising helm action config'' e"
| "helm_failure (Helm_List states (Inl e)) =
     Some (Wrap_Err (if states = [ListPendingInstall, ListPendingUpgrade] then ''listing pending releases''
                     else ''listing helm releases'') e)"
| "helm_failure (Helm_List states (Inr rs)) = None"
| "helm_failure (Helm_Rollback name e) = wrap_opt ''rolling back pending-upgrade release'' e"
| "helm_failure (Helm_Uninstall wait name e) = wrap_opt ''removing pending-install release'' e"
| "helm_failure (Helm_Install opts chrt vals e) = wrap_opt ''installing gpu-operator'' e"
| "helm_failure (Helm_Upgrade opts name chrt vals e) = wrap_opt ''upgrading gpu-operator'' e"

definition clean :: "helm_event list \<Rightarrow> bool" where
  "clean es \<longleftrightarrow> list_all (\<lambda>ev. helm_failure ev = None) es"

text \<open>The run ended at its first failure, with its error.\<close>

definition stopped_at :: "err \<Rightarrow> helm_event list \<Rightarrow> bool" where
  "stopped_at e es \<longleftrightarrow> (\<exists>before ev. es = before @ [ev] \<and> clean before \<and> helm_failure ev = Some e)"

lemma clean_simps [simp]: "clean []" "clean (xs @ ys) \<longleftrightarrow> clean xs \<and> clean ys"
  "clean (ev # es) \<longleftrightarrow> helm_failure ev = None \<and> clean es"
  by (auto simp: clean_def)

lemma stopped_at_snoc [simp]: "stopped_at e (es @ [ev]) \<longleftrightarrow> clean es \<and> helm_failure ev = Some e"
  by (auto simp: stopped_at_def)

lemma stopped_at_Cons [simp]: "helm_failure ev = None \<Longrightarrow> stopped_at e (ev # es) \<longleftrightarrow> stopped_at e es"
  by (cases es rule: rev_cases) (auto simp: stopped_at_def Cons_eq_append_conv)

lemma stopped_at_append [simp]: "clean es \<Longrightarrow> stopped_at e (es @ ev # fs) \<longleftrightarrow> stopped_at e (ev # fs)"
  by (induction es) auto

lemma stopped_at_single [simp]: "stopped_at e [ev] \<longleftrightarrow> helm_failure ev = Some e"
  using stopped_at_snoc [of e "[]" ev] by simp

lemma wrap_opt_eq [simp]: "wrap_opt m e = None \<longleftrightarrow> e = None" "wrap_opt m (Some x) = Some (Wrap_Err m x)"
  by (simp_all add: wrap_opt_def)

text \<open>The loop of \<open>recoverPending\<close> stops at the first failure.\<close>

definition recovered :: "release list \<Rightarrow> err option run \<Rightarrow> helm_event list \<Rightarrow> bool" where
  "recovered rs r es \<longleftrightarrow> (case r of
      Done None \<Rightarrow> clean es
    | Done (Some e) \<Rightarrow> stopped_at e es
    | Panic p \<Rightarrow> clean es \<and> (\<exists>rel \<in> set rs. rel_name rel = release_name \<and> rel_info rel = None))"

lemma recovered_Cons:
  "recovered rs r es \<Longrightarrow> recovered (rel # rs) r es"
  "recovered rs r es \<Longrightarrow> helm_failure ev = None \<Longrightarrow> recovered (rel # rs) r (ev # es)"
  by (auto simp: recovered_def split: run.splits option.splits)

lemma wp_recover_each_reports:
  assumes "\<And>r t es. log t = log s @ es \<Longrightarrow> recovered rs r es \<Longrightarrow> Q r t"
  shows "wp (recover_each H rs) Q s"
  using assms
proof (induction rs arbitrary: s)
  case Nil
  then show ?case by (simp add: wp_simps recovered_def)
next
  case (Cons rel rs)
  have skip: "wp (recover_each H rs) Q s"
    by (rule Cons.IH, rule Cons.prems) (auto intro: recovered_Cons)
  have action: "wp (call f ev) (\<lambda>e. case e of Some x \<Rightarrow> \<lambda>t. Q (Done (Some (Wrap_Err m x))) t
      | None \<Rightarrow> wp (recover_each H rs) Q) s" if "\<And>e. helm_failure (ev e) = wrap_opt m e" for f ev m
  proof (rule wp_any_call)
    fix e v
    show "(case e of Some x \<Rightarrow> \<lambda>t. Q (Done (Some (Wrap_Err m x))) t | None \<Rightarrow> wp (recover_each H rs) Q)
        (s\<lparr>world := v, log := log s @ [ev e]\<rparr>)"
    proof (cases e)
      case None
      have "wp (recover_each H rs) Q t" if "log t = log s @ [ev None]" for t
      proof (rule Cons.IH)
        show "Q r u" if "log u = log t @ es" "recovered rs r es" for r u es
          by (rule Cons.prems [of _ "ev None # es"])
            (use that \<open>log t = _\<close> \<open>\<And>e. helm_failure (ev e) = _\<close> in \<open>auto intro: recovered_Cons\<close>)
      qed
      with None show ?thesis by simp
    next
      case (Some x)
      with that show ?thesis by (simp add: Cons.prems recovered_def)
    qed
  qed
  have "Q (Panic nil_deref) s" if "rel_name rel = release_name" "rel_info rel = None"
    by (rule Cons.prems [of _ "[]"]) (use that in \<open>auto simp: recovered_def\<close>)
  with skip show ?case by (auto simp: wp_simps split: option.split intro!: action)
qed

text \<open>The result of \<open>InstallOrUpgrade\<close> against its log.\<close>

fun shows_no_info :: "helm_event \<Rightarrow> bool" where
  "shows_no_info (Helm_List states (Inr rs)) = list_ex (\<lambda>rel. rel_info rel = None) rs"
| "shows_no_info _ = False"

definition client_accounts :: "'h helm_sdk \<Rightarrow> string \<Rightarrow> (err + bool) run \<Rightarrow> helm_event list \<Rightarrow> bool" where
  "client_accounts H data r es \<longleftrightarrow> (case r of
      Done (Inr changed) \<Rightarrow> clean es
    | Done (Inl e) \<Rightarrow> stopped_at e es \<or>
        clean es \<and> (\<exists>x. sdk_load_archive H data = Inl x \<and> e = Wrap_Err ''loading chart archive'' x)
    | Panic p \<Rightarrow> clean es \<and>
        ((\<exists>chrt. sdk_load_archive H data = Inr chrt \<and> chart_metadata_of chrt = None) \<or>
         list_ex shows_no_info es))"

lemma up_to_date_panics:
  "release_up_to_date ft rel chrt vals = Panic p \<Longrightarrow> chart_metadata_of chrt = None"
  by (auto simp: release_up_to_date_def split: option.splits if_splits)

lemma wp_client_reports:
  "wp (client_install_or_upgrade H data vals) (\<lambda>r t. client_accounts H data r (log t)) (start h)"
  unfolding client_install_or_upgrade_def action_config_def recover_pending_def current_release_def
    load_chart_def helm_install_def helm_upgrade_def Let_def
  by (auto simp: wp_simps client_accounts_def recovered_def list_ex_iff dest!: up_to_date_panics
      split: helm_splits intro!: wp_any_call wp_recover_each_reports) blast+

text \<open>C33: No error of Helm is lost: InstallOrUpgrade returns without an error only if every call of Helm
  succeeded; it returns an error exactly when a call failed, which is then the last one and whose
  error it wraps, or when the archive cannot be loaded; and it panics only on a chart without
  metadata or a listed release without info.\<close>

theorem client_reports_errors:
  "client_accounts H data (result_of (client_install_or_upgrade H data vals) h)
     (trace_of (client_install_or_upgrade H data vals) h)"
  using wp_client_reports [of H data vals h] by (simp add: wp_trace)

section \<open>The reconciler\<close>

text \<open>The errors that \<open>errors.Unwrap\<close> finds in an error, itself first.\<close>

fun unwrapped :: "err \<Rightarrow> err list" where
  "unwrapped (Wrap_Err m e) = Wrap_Err m e # unwrapped e"
| "unwrapped e = [e]"

lemma unwrapped_self [simp]: "e \<in> set (unwrapped e)"
  by (cases e) simp_all

fun answer_error :: "kube_event \<Rightarrow> err option" where
  "answer_error (Get_Gpu n (Inl e)) = Some e"
| "answer_error (Update_Gpu g e) = e"
| "answer_error (Patch_Status live original e) = e"
| "answer_error (List_Nodes (Inl e)) = Some e"
| "answer_error (List_Pods (Inl e)) = Some e"
| "answer_error (Delete_Namespace n p e) = e"
| "answer_error (Install_Call data vals (Done (Inl e))) = Some e"
| "answer_error (Uninstall_Call (Done e)) = e"
| "answer_error _ = None"

text \<open>
  The failures that must not be tolerated. During a deletion the status writes are best effort;
  listing the pods and the two observations are so always, and a namespace that is gone is no
  failure.
\<close>

fun fatal :: "'w kube \<Rightarrow> bool \<Rightarrow> kube_event \<Rightarrow> bool" where
  "fatal K deleting (Get_Gpu n (Inl e)) = (\<not> deleting)"
| "fatal K deleting (Patch_Status live original e) = (\<not> deleting \<and> e \<noteq> None)"
| "fatal K deleting (Update_Gpu g e) = (e \<noteq> None)"
| "fatal K deleting (List_Nodes (Inl e)) = True"
| "fatal K deleting (Delete_Namespace n p (Some e)) = (\<not> is_not_found K e)"
| "fatal K deleting (Install_Call data vals r) = (case r of Done (Inr changed) \<Rightarrow> False | _ \<Rightarrow> True)"
| "fatal K deleting (Uninstall_Call r) = (r \<noteq> Done None)"
| "fatal K deleting _ = False"

text \<open>What an error is about: a call that failed, or the chart or values inside the operator.\<close>

definition caused :: "('w, 'v) reconciler \<Rightarrow> gpu \<Rightarrow> err \<Rightarrow> kube_event list \<Rightarrow> bool" where
  "caused R g e es \<longleftrightarrow> list_ex (\<lambda>x.
     list_ex (\<lambda>ev. answer_error ev = Some x) es \<or>
     gpu_operator_chart (r_assets R) = Inl x \<or> gpu_operator_chart_version (r_assets R) = Inl x \<or>
     (\<exists>os. build_values (r_assets R) (r_yaml R) (gpu_spec_of g) \<lparr>cluster_os = os\<rparr> = Done (Inl x))) (unwrapped e)"

fun panicked :: "string \<Rightarrow> kube_event \<Rightarrow> bool" where
  "panicked p (Install_Call data vals r) = (r = Panic p)"
| "panicked p (Uninstall_Call r) = (r = Panic p)"
| "panicked p _ = False"

definition reported_in :: "err \<Rightarrow> kube_event \<Rightarrow> bool" where
  "reported_in e ev \<longleftrightarrow> list_ex (\<lambda>x. answer_error ev = Some x) (unwrapped e)"

fun install_failed :: "kube_event \<Rightarrow> bool" where
  "install_failed (Install_Call data vals (Done (Inl e))) = True"
| "install_failed _ = False"

text \<open>
  An error that is returned hides no other failure, with one exception: after a failed
  InstallOrUpgrade the status write that reports it is best effort, as those of a deletion are.
\<close>

definition accounts :: "('w, 'v) reconciler \<Rightarrow> gpu \<Rightarrow> reconcile_return run \<Rightarrow> kube_event list \<Rightarrow> bool" where
  "accounts R g r es \<longleftrightarrow> (case r of
      Done (res, None) \<Rightarrow> list_all (\<lambda>ev. \<not> fatal (r_kube R) (in_deletion (r_kube R) g) ev) es
    | Done (res, Some e) \<Rightarrow> res = no_result \<and> caused R g e es \<and>
        list_all (\<lambda>ev. fatal (r_kube R) (in_deletion (r_kube R) g \<or> list_ex install_failed es) ev \<longrightarrow> reported_in e ev) es
    | Panic p \<Rightarrow> list_ex (panicked p) es \<or>
        (\<exists>os. build_values (r_assets R) (r_yaml R) (gpu_spec_of g) \<lparr>cluster_os = os\<rparr> = Panic p))"

text \<open>The result of a reconciliation against its log, the read of the resource first.\<close>

fun reconcile_accounts :: "('w, 'v) reconciler \<Rightarrow> reconcile_return run \<Rightarrow> kube_event list \<Rightarrow> bool" where
  "reconcile_accounts R r (Get_Gpu n (Inl e) # es) \<longleftrightarrow> es = [] \<and>
     r = Done (no_result, if is_not_found (r_kube R) e then None else Some (Wrap_Err ''fetching Gpu CR'' e))"
| "reconcile_accounts R r (Get_Gpu n (Inr g) # es) = accounts R g r es"
| "reconcile_accounts R r _ = False"

text \<open>The status writer: it fails only with an error of one of its calls.\<close>

definition status_answer :: "'w kube \<Rightarrow> err option \<Rightarrow> kube_event list \<Rightarrow> bool" where
  "status_answer K e es \<longleftrightarrow> list_all (\<lambda>ev. \<not> fatal K True ev) es \<and>
     (case e of
        None \<Rightarrow> list_all (\<lambda>ev. \<not> fatal K False ev) es
      | Some y \<Rightarrow> list_ex (reported_in y) es \<and> list_all (\<lambda>ev. fatal K False ev \<longrightarrow> reported_in y ev) es)"

lemma wp_status_reports:
  assumes "\<And>e t es. log t = log s @ es \<Longrightarrow> status_answer K e es \<Longrightarrow> Q e t"
  shows "wp (apply_status K name upd) Q s"
  unfolding apply_status_def get_gpu_def patch_status_def Let_def
  by (auto simp: wp_simps split: sum.split option.splits
      intro!: wp_any_call assms) (auto simp: status_answer_def reported_in_def list_ex_iff split: option.split)

abbreviation (input) accounted :: "('w, 'v) reconciler \<Rightarrow> gpu \<Rightarrow> reconcile_return run \<Rightarrow> ('w, kube_event) st \<Rightarrow> bool" where
  "accounted R g r t \<equiv> accounts R g r (tl (log t))"

text \<open>A failure that ends the run is reported with its own error, wrapped once.\<close>

lemma reported_self [simp]: "answer_error ev = Some x \<Longrightarrow> reported_in x ev"
  by (auto simp: reported_in_def list_ex_iff)

lemma reported_wrap [simp]: "reported_in x ev \<Longrightarrow> reported_in (Wrap_Err m x) ev"
  by (auto simp: reported_in_def)

lemma caused_reported [simp]: "list_ex (reported_in e) es \<Longrightarrow> caused R g e es"
  by (auto simp: caused_def reported_in_def list_ex_iff)

lemma caused_inside:
  "gpu_operator_chart (r_assets R) = Inl x \<Longrightarrow> caused R g (Wrap_Err m x) es"
  "gpu_operator_chart_version (r_assets R) = Inl x \<Longrightarrow> caused R g (Wrap_Err m x) es"
  "build_values (r_assets R) (r_yaml R) (gpu_spec_of g) \<lparr>cluster_os = os\<rparr> = Done (Inl x) \<Longrightarrow> caused R g (Wrap_Err m x) es"
  by (auto simp: caused_def list_ex_iff intro!: bexI [of _ x])

lemma accounts_simps:
  "accounts R g (Done (res, None)) es \<longleftrightarrow> list_all (\<lambda>ev. \<not> fatal (r_kube R) (in_deletion (r_kube R) g) ev) es"
  "accounts R g (Done (res, Some e)) es \<longleftrightarrow> res = no_result \<and> caused R g e es \<and>
     list_all (\<lambda>ev. fatal (r_kube R) (in_deletion (r_kube R) g \<or> list_ex install_failed es) ev \<longrightarrow> reported_in e ev) es"
  "accounts R g (Panic p) es \<longleftrightarrow> list_ex (panicked p) es \<or>
     (\<exists>os. build_values (r_assets R) (r_yaml R) (gpu_spec_of g) \<lparr>cluster_os = os\<rparr> = Panic p)"
  "accounts R g (Done (res, map_option f x)) es \<longleftrightarrow> (case x of
     None \<Rightarrow> accounts R g (Done (res, None)) es | Some y \<Rightarrow> accounts R g (Done (res, Some (f y))) es)"
  by (auto simp: accounts_def split: option.split)

definition calm :: "('w, 'v) reconciler \<Rightarrow> ('w, kube_event) st \<Rightarrow> bool" where
  "calm R s \<longleftrightarrow> log s \<noteq> [] \<and> list_all (\<lambda>ev. \<not> fatal (r_kube R) True ev) (tl (log s))"

lemma calm_quiet: "list_all (\<lambda>ev. \<not> fatal K True ev) es \<Longrightarrow> list_all (\<lambda>ev. fatal K True ev \<longrightarrow> P ev) es"
  by (auto simp: list_all_iff)

lemma fatal_weaker: "fatal K b ev \<Longrightarrow> fatal K False ev"
  by (cases "(K, b, ev)" rule: fatal.cases) auto

lemma status_failed: "list_all (\<lambda>ev. fatal K False ev \<longrightarrow> reported_in y ev) es \<Longrightarrow> list_all (\<lambda>ev. fatal K b ev \<longrightarrow> reported_in y ev) es"
  using fatal_weaker [of K b] by (auto simp: list_all_iff)

lemma none_failed: "list_all (\<lambda>ev. \<not> fatal K False ev) es \<Longrightarrow> list_all (\<lambda>ev. fatal K b ev \<longrightarrow> reported_in y ev) es"
  using fatal_weaker [of K b] by (auto simp: list_all_iff)

lemma fatal_less: "list_all (\<lambda>ev. \<not> fatal K False ev) es \<Longrightarrow> list_all (\<lambda>ev. \<not> fatal K True ev) es"
proof (induction es)
  case (Cons ev es)
  have "fatal K True ev \<Longrightarrow> fatal K False ev" by (cases "(K, True, ev)" rule: fatal.cases) auto
  with Cons show ?case by auto
qed simp

lemma wp_finish_reports:
  assumes "in_deletion (r_kube R) g" and "calm R s"
  shows "wp (finish_delete R g) (accounted R g) s"
  using assms unfolding finish_delete_def delete_namespace_def release_finalizer_def request_defs
  by (auto simp: wp_simps calm_def accounts_simps calm_quiet split: run.split option.split sum.split intro!: wp_any_call)

lemma wp_delete_reports:
  assumes "\<not> is_zero_time (deletion_timestamp g)" and "log s = [e0]"
  shows "wp (reconcile_delete R g) (accounted R g) s"
proof -
  have deletion: "in_deletion (r_kube R) g" if "has_finalizer (r_kube R) g" "gpu_name g = expected_cr_name"
    using assms(1) that by (simp add: in_deletion_def)
  show ?thesis
    unfolding reconcile_delete_def Let_def detect_active_gpu_workloads_def list_pods_def update_gpu_def
    using assms(2) deletion
    by (auto simp: wp_simps calm_def accounts_simps status_answer_def split: sum.split option.split
        intro!: wp_any_call wp_status_reports [where K = "r_kube R"] wp_finish_reports)
qed

lemma wp_observe_reports:
  assumes "\<not> in_deletion (r_kube R) g" and "log s \<noteq> []"
    and "list_all (\<lambda>ev. \<not> fatal (r_kube R) False ev) (tl (log s))"
  shows "wp (observe_and_report R g pc hc version) (\<lambda>r. accounted R g (Done r)) s"
  using assms fatal_less [OF assms(3)]
  unfolding observe_and_report_def check_driver_daemon_set_answer check_cluster_policy_answer
    list_daemon_sets_def get_object_def
  by (auto simp: wp_simps accounts_simps calm_quiet status_answer_def split: option.split
      intro!: wp_any_call wp_status_reports [where K = "r_kube R"])
    (erule status_failed none_failed)+

lemma wp_installed_reports:
  assumes "\<not> in_deletion (r_kube R) g" and "log s = [e0]"
  shows "wp (reconcile_installed R g) (accounted R g) s"
proof -
  have status: "wp (apply_status (r_kube R) name upd) Q t"
    if "\<And>e u es. log u = log t @ es \<Longrightarrow> status_answer (r_kube R) e es \<Longrightarrow> Q e u" for name upd Q t
    using that by (rule wp_status_reports)
  show ?thesis
    unfolding reconcile_installed_def reconciler_run_preflight_def run_preflight_def list_nodes_def
      reconciler_install_or_upgrade_def install_or_upgrade_def
    using assms
    by (auto simp: wp_simps accounts_simps calm_quiet status_answer_def caused_inside
        split: sum.split outcome.split option.splits run.split
        intro!: wp_any_call status wp_observe_reports) (blast | erule status_failed)+
qed

lemma wp_reconcile_reports: "wp (reconcile R req) (\<lambda>r t. reconcile_accounts R r (log t)) (start w)"
proof -
  have extends: "wp m (\<lambda>r t. reconcile_accounts R r (log t)) s"
    if "wp m (accounted R g) s" and "emits m (\<lambda>e. True)" and "log s = [Get_Gpu req (Inr g)]" for m g s
    by (rule wp_mono [OF wp_extends [OF that(1,2)]]) (auto simp: that(3))
  have delete: "wp (reconcile_delete R g) (\<lambda>r t. reconcile_accounts R r (log t)) s"
    if "log s = [Get_Gpu req (Inr g)]" "\<not> is_zero_time (deletion_timestamp g)" for g s
    by (rule extends [OF wp_delete_reports [OF that(2,1)] emits_delete_any that(1)])
  have installed: "wp (reconcile_installed R g) (\<lambda>r t. reconcile_accounts R r (log t)) s"
    if "log s = [Get_Gpu req (Inr g)]" "is_zero_time (deletion_timestamp g)" for g s
    by (rule extends [OF wp_installed_reports [OF _ that(1)] emits_mono [OF emits_reconcile_installed] that(1)])
      (simp_all add: in_deletion_def that(2))
  have not_deleting: "is_zero_time (deletion_timestamp g) \<Longrightarrow> \<not> in_deletion (r_kube R) g" for g
    by (simp add: in_deletion_def)
  show ?thesis
    unfolding reconcile_def Let_def wp_bind get_gpu_def
    by (rule wp_any_call)
      (auto simp: wp_simps update_gpu_def accounts_simps calm_quiet status_answer_def not_deleting split: sum.split option.splits
        intro!: delete installed wp_any_call wp_status_reports [where K = "r_kube R"], (erule status_failed)+)
qed

text \<open>C11: Failures of a reconciliation are accounted for. It returns no error only if every update,
  every listing of nodes, every Helm call, every deletion of the namespace (a missing one aside)
  and, outside a deletion, every read of the resource and every status patch succeeded. An error
  that it returns comes with an empty result, wraps the error of a call that failed or of the
  embedded chart or values, and hides none of these failures but one kind: when InstallOrUpgrade
  failed, the read and patch of the status that is to say so are best effort. It panics only when
  Helm or the building of the values does. When the resource cannot be read, nothing is done: a
  missing one is no error.\<close>

theorem reconcile_reports_errors:
  "reconcile_accounts R (result_of (reconcile R req) w) (trace_of (reconcile R req) w)"
  using wp_reconcile_reports [of R req w] by (simp add: wp_trace)

end
