(* ===== verification/Spec2Isabelle.thy ===== *)
theory Spec2Isabelle
  imports Api_Scheme Live_Status Rest_Getter Settled_System Progress Costs Error_Reports
begin

text \<open>
  A verification development for the GPU operator of Kyma (Go). The program is a Kubernetes
  controller for one cluster-scoped resource, the Gpu named \<open>gpu\<close>: it checks the GPU nodes,
  installs NVIDIA's GPU operator from an embedded Helm chart, observes NVIDIA's resources,
  reports conditions in the status of the resource, and removes everything when the resource
  is deleted and no workload uses a GPU.

  \<^bold>\<open>The parts and their theories.\<close> Each theory models the named files function by function and
  proves what makes the part correct; paths are under \<open>src/\<close>.

  \<^item> \<open>Go_Prelude\<close>, \<open>Go_Any\<close>: what the code uses of Go: byte strings and the functions of strings,
    strconv and fmt, errors, panics, int32 and int64 as words, values of type \<open>any\<close> and string
    maps (nil or not), and a state monad with weakest preconditions in which every call of an
    outside service is logged with its answer.
  \<^item> \<open>Api_Types\<close> (\<open>api/v1beta1/gpu_types.go\<close>): the Gpu resource, conditions, and the fields of
    nodes, pods and DaemonSets that are read.
  \<^item> \<open>Api_Scheme\<close> (\<open>api/v1beta1/groupversion_info.go\<close>): the registration of the types with the scheme.
  \<^item> \<open>Go_Heap\<close>, \<open>Deep_Copy\<close> (\<open>api/v1beta1/zz_generated.deepcopy.go\<close>): the same objects as structs with
    pointers and slices in a heap, with frame lemmas; the generated copies, all instances of the
    contract \<open>deep_copier\<close> (the copy reads the same and shares no variable with the original).
  \<^item> \<open>Cluster\<close>: the border. The record \<open>kube\<close> holds the API requests, as functions on an unknown
    world, and the library functions (conditions, finalizers, comparison of statuses); the
    record \<open>installer\<close> is the interface of \<open>internal/helm/interface.go\<close>. The documented behaviour of the
    library functions is the locale \<open>kube_library\<close>; nothing is assumed of the API server.
  \<^item> \<open>Detection\<close> (\<open>internal/detection\<close>): GPU nodes and the preflight check, characterised by the set of
    operating systems detected.
  \<^item> \<open>Chart\<close> (\<open>internal/chart/embed.go\<close>): the choice of the embedded archive; sort.Slice is the locale
    \<open>slice_sorter\<close>, interpreted by Go's insertion sort.
  \<^item> \<open>Values\<close> (\<open>internal/helm/values.go\<close>): Helm values from the spec and the operating system.
  \<^item> \<open>Json\<close>, \<open>Json_Tree\<close>: \<open>json.Marshal\<close> as the Helm client uses it to compare values; the texts it
    prints can be read back in only one way, so equal texts are equal documents, and a string of
    valid UTF-8 is the only one with its text (invalid bytes are all printed as \<open>\ufffd\<close>).
  \<^item> \<open>Helm_Client\<close>, \<open>Helm_Store\<close>, \<open>Helm_Memory\<close> (\<open>internal/helm/installer.go\<close>): the Helm client; the calls
    it can make; the contract of Helm's release store (locale \<open>helm_store\<close>) and of the Installer
    interface (\<open>installer_contract\<close>, which the client fulfils over any such store, a sublocale);
    a store in memory that interprets both. The contract says which configuration an install or
    upgrade stores only for values that survive being stored (\<open>storable\<close>: not empty, since Helm then
    takes over the configuration before; valid UTF-8; finite numbers and integers that a float64
    holds exactly); \<open>Drift\<close> shows that the values of \<open>BuildValues\<close> are such.
  \<^item> \<open>Rest_Getter\<close> (\<open>internal/helm/restclientgetter.go\<close>): what the client gives to Helm's SDK; the
    connected SDK is again a \<open>helm_store\<close>.
  \<^item> \<open>Drift\<close>: values and client together: a change of the driver version or of the time slicing
    replicas in the spec always leads to an upgrade.
  \<^item> \<open>Conditions\<close> (\<open>internal/controller/conditions.go\<close>): the Ready summary.
  \<^item> \<open>Status\<close>, \<open>Observe\<close>, \<open>Workloads\<close>, \<open>Watches\<close>, \<open>Reconcile\<close> (\<open>internal/controller/gpu_controller.go\<close>):
    the status writer; the checks of the driver DaemonSets (int32 sums that wrap) and of the
    ClusterPolicy; the workload guard; the watches and their predicates; the reconciler.
  \<^item> \<open>Live_Status\<close>: the merge of \<open>applyStatus\<close> on the heap, which changes the live object in place after
    a deep copy, refines the merge of \<open>Status\<close> on values (locale \<open>slice_conditions\<close> for the library's
    SetStatusCondition on slices).
  \<^item> \<open>Protocol\<close>: the policy \<open>allowed\<close> that says which call may follow which calls and answers, and
    \<open>justified\<close>, which status update rests on which observations; the log of every
    reconciliation obeys it, for any behaviour of the cluster and of Helm.
  \<^item> \<open>Progress\<close>: what a reconciliation achieves when the calls it depends on succeed: the counterpart
    of the policy, again for any behaviour of the rest.
  \<^item> \<open>Costs\<close>: how many requests a reconciliation and a call of the Helm client make at most.
  \<^item> \<open>Error_Reports\<close>: the results of both against the failures in their logs: which failures are
    tolerated (among them the status write after a failed Helm call), and that every other one is
    returned, wrapped.
  \<^item> \<open>Manager\<close> (\<open>cmd/main.go\<close>): the command line, the server options, the start-up and exit codes.
  \<^item> \<open>Reference_Cluster\<close>: a small executable cluster that satisfies \<open>kube_library\<close>; the witnesses
    of the properties run on it.
  \<^item> \<open>Lifecycle\<close>, \<open>Full_System\<close>: histories of any number of reconciliations interleaved with the actions
    of others (relation \<open>reachable\<close>), under the locale \<open>gpu_cluster\<close> (an API server and an
    installer); the invariant that no release loses its owner, provided that the others do not
    take the finalizer and create no release themselves (\<open>quiet\<close>); and the Helm client over any
    \<open>helm_store\<close> as that installer. Controller and client work on one cluster, of which the releases
    are a part (locale \<open>helm_in_cluster\<close>): deleting the namespace may delete them, and Helm
    may change the other objects. The reference is an API server put together with the store in memory.
  \<^item> \<open>Quiescence\<close>, \<open>Settled_System\<close>: the same system when nobody else acts (locales \<open>steady_api\<close> and
    \<open>one_cluster\<close>): one reconciliation that installs and reports brings it to rest, and the
    further ones only look.

  \<^bold>\<open>How the model corresponds to the code.\<close> A method of the reconciler is a function of the same
  name (in lower case with underscores) in the state monad; \<open>(T, error)\<close> is \<open>err + T\<close>; a branch that
  returns early is a branch of the definition; a nil dereference and a write to a nil map are
  the result \<open>Panic\<close>. Objects are values: the code mutates only objects it has just read
  or built, and DeepCopy is the identity on values; for the one place where a copy and its
  original are both used after a write, \<open>applyStatus\<close>, \<open>Live_Status\<close> proves it over a heap. Logging is left out. The clock may give a
  different time at every reading. Go map iteration order is arbitrary, so maps that are
  iterated are lists of entries in any order.

  \<^bold>\<open>What the lemmas of this theory show.\<close> The properties below span the components: they are
  read off from the policy of \<open>Protocol\<close> and hold for every behaviour of the API server, Helm and
  the clock. Deletion: Uninstall only after the workload guard, then the namespace, then the
  finalizer. Installation: only for the singleton, after a clean preflight check, with the
  right chart and values. Status: Ready becomes True only on four good observations. Every
  reconciliation ends in a state from which something will start the next one.

  \<^bold>\<open>Bounds and fuel.\<close> No definition needs fuel: all loops run over lists; a reconciliation
  makes at most eight requests and the Helm client four and one for each pending release. int32 counters are
  words; the theorem on DriverReady names the hypothesis that their sum does not overflow.

  \<^bold>\<open>Not modelled.\<close> The Kubernetes client, controller-runtime's queue, Helm's SDK, the YAML and semver
  parsers and the Unicode tables are parameters, and so are the deep copies of the metadata types,
  the scheme builder and the constructors of the REST clients. Logging, contexts, the tests and
  the manifests are left out. The sign of a floating-point zero is not kept.
  What the map of definitions leaves out of the files above are licence headers, imports,
  comments and declarations of package variables.
\<close>

section \<open>Positions in the reference runs\<close>

lemma ref_install_run:
  "length ref_install_trace = 7" "result_of (reconcile ref_reconciler ''gpu'') ref_cluster = Done (requeue_later, None)"
  by code_simp+

lemma ref_delete_run:
  "length ref_delete_trace = 8" "result_of (reconcile ref_reconciler ''gpu'') ref_deleted = Done (no_result, None)"
  by code_simp+

lemma ref_delete_calls:
  "(case ref_delete_trace ! 4 of Uninstall_Call r \<Rightarrow> r = Done None | _ \<Rightarrow> False)"
  "(case ref_delete_trace ! 5 of Delete_Namespace n p r \<Rightarrow> n = ''gpu-operator'' \<and> r = None | _ \<Rightarrow> False)"
  "(case ref_delete_trace ! 7 of Update_Gpu g r \<Rightarrow> finalizers g = [] | _ \<Rightarrow> False)"
  by code_simp+

lemma ref_install_calls:
  "(case ref_install_trace ! 2 of Install_Call data vals r \<Rightarrow> data = ''gpu-operator/gpu-operator-v2.tgz'' | _ \<Rightarrow> False)"
  "(case ref_install_trace ! 6 of Patch_Status live original e \<Rightarrow>
      map_option c_status (find_cond_list (gpu_conditions live) ''Ready'') = Some ''True'' \<and>
      find_cond_list (gpu_conditions original) ''Ready'' = None | _ \<Rightarrow> False)"
  by code_simp+

lemmas ref_install_at = split_at [where tr = ref_install_trace, unfolded ref_install_run]
lemmas ref_delete_at = split_at [where tr = ref_delete_trace, unfolded ref_delete_run]

section \<open>Properties of a reconciliation\<close>

text \<open>C1: The chart is never uninstalled while workloads use a GPU: whenever a reconciliation
  calls Uninstall, it has read the resource named \<open>gpu\<close>, under deletion and with our finalizer,
  and its immediately preceding call listed all pods, either failing (best effort) or showing no
  active GPU workload.\<close>

theorem uninstall_guarded:
  assumes "trace_of (reconcile R req) w = past @ Uninstall_Call r # later"
  shows "\<exists>g pods. gpu_read past = Some g \<and> \<not> is_zero_time (deletion_timestamp g) \<and>
    has_finalizer (r_kube R) g \<and> gpu_name g = ''gpu'' \<and>
    last past = List_Pods pods \<and> (\<forall>ps. pods = Inr ps \<longrightarrow> active_workloads ps = [])"
  using reconcile_allowed [OF assms]
  by (auto simp: uninstall_allowed_def in_deletion_def workloads_clear_def expected_cr_name_def)

theorem uninstall_guarded_witness:
  "\<exists>g pods. gpu_read (take 4 ref_delete_trace) = Some g \<and> last (take 4 ref_delete_trace) = List_Pods pods"
proof -
  have "ref_delete_trace ! 4 = Uninstall_Call (Done None)"
    using ref_delete_calls(1) by (cases "ref_delete_trace ! 4") auto
  then have "ref_delete_trace = take 4 ref_delete_trace @ Uninstall_Call (Done None) # drop (Suc 4) ref_delete_trace"
    by (intro ref_delete_at) simp_all
  from uninstall_guarded [OF this [unfolded ref_delete_trace_def]]
  show ?thesis unfolding ref_delete_trace_def by blast
qed

text \<open>The namespace is deleted only after Helm has removed the release: the call right before
  is an Uninstall that returned without an error, the namespace is the operator's, and its
  children go first (foreground propagation).\<close>

theorem namespace_deleted_after_uninstall:
  assumes "trace_of (reconcile R req) w = past @ Delete_Namespace name propagation r # later"
  shows "name = ''gpu-operator'' \<and> propagation = ''Foreground'' \<and>
    past \<noteq> [] \<and> last past = Uninstall_Call (Done None)"
  using reconcile_allowed [OF assms] by (auto simp: uninstalled_def gpu_operator_namespace_def)

theorem namespace_deleted_after_uninstall_witness:
  "last (take 5 ref_delete_trace) = Uninstall_Call (Done None)"
proof -
  obtain n p r where "ref_delete_trace ! 5 = Delete_Namespace n p r"
    using ref_delete_calls(2) by (cases "ref_delete_trace ! 5") auto
  then have "ref_delete_trace = take 5 ref_delete_trace @ Delete_Namespace n p r # drop (Suc 5) ref_delete_trace"
    by (intro ref_delete_at) simp_all
  from namespace_deleted_after_uninstall [OF this [unfolded ref_delete_trace_def]]
  show ?thesis unfolding ref_delete_trace_def by blast
qed

text \<open>C2: The finalizer is given up only when nothing is left to clean up: an update that writes
  the resource without our finalizer is either the one of a resource that is not the singleton
  (and leaves the release alone), or it comes after Uninstall returned without an error, the
  namespace was deleted or found missing, and the resource was read again. So an Uninstall that
  fails or times out keeps the finalizer. The documents say otherwise
  (\<open>docs/contributor/architecture.md\<close>, \<open>docs/user/00-50-operations.md\<close>): that after a timeout of
  three minutes the finalizer is removed anyway; the code has no such branch.\<close>

theorem finalizer_removed_last:
  assumes "kube_library (r_kube R)"
    and "trace_of (reconcile R req) w = past @ Update_Gpu g' r # later"
    and "\<not> has_finalizer (r_kube R) g'"
  shows "(\<exists>n g. past = [Get_Gpu n (Inr g)] \<and> gpu_name g \<noteq> ''gpu'') \<or>
    (\<exists>earlier d n g. past = earlier @ [Uninstall_Call (Done None),
        Delete_Namespace ''gpu-operator'' ''Foreground'' d, Get_Gpu n (Inr g)] \<and>
      (\<forall>e. d = Some e \<longrightarrow> is_not_found (r_kube R) e) \<and>
      g' = g\<lparr>finalizers := remove_finalizer (r_kube R) (finalizers g) gpu_finalizer\<rparr>)"
proof -
  have "has_finalizer (r_kube R) (with_finalizer (r_kube R) g)" for g
    using finalizer_list.contains_add [OF kube_library.axioms(2) [OF assms(1)]]
    by (simp add: has_finalizer_def with_finalizer_def)
  with assms(3) reconcile_allowed [OF assms(2)] show ?thesis
    by (auto simp: update_allowed_def namespace_deleted_def uninstalled_def without_finalizer_def
        gpu_operator_namespace_def expected_cr_name_def)
qed

theorem finalizer_removed_last_witness:
  "\<exists>earlier. take 7 ref_delete_trace = earlier @ drop 4 (take 7 ref_delete_trace)
     \<and> hd (drop 4 (take 7 ref_delete_trace)) = Uninstall_Call (Done None)"
proof -
  obtain g r where u: "ref_delete_trace ! 7 = Update_Gpu g r" and "finalizers g = []"
    using ref_delete_calls(3) by (cases "ref_delete_trace ! 7") auto
  then have no_finalizer: "\<not> has_finalizer (r_kube ref_reconciler) g"
    by (simp add: has_finalizer_def ref_reconciler_def ref_kube_def)
  have at: "ref_delete_trace = take 7 ref_delete_trace @ Update_Gpu g r # drop (Suc 7) ref_delete_trace"
    using u by (intro ref_delete_at) simp_all
  have lib: "kube_library (r_kube ref_reconciler)"
    by (simp add: ref_reconciler_def ref.kube_library_axioms)
  have len: "length (take 7 ref_delete_trace) = 7" by (simp add: ref_delete_run)
  from finalizer_removed_last [OF lib at [unfolded ref_delete_trace_def] no_finalizer, folded ref_delete_trace_def]
  obtain earlier d n g where tail: "take 7 ref_delete_trace =
      earlier @ [Uninstall_Call (Done None), Delete_Namespace ''gpu-operator'' ''Foreground'' d, Get_Gpu n (Inr g)]"
    using len by (auto simp del: length_take)
  with len have "length earlier = 4" by simp
  then have "drop 4 (take 7 ref_delete_trace) =
      [Uninstall_Call (Done None), Delete_Namespace ''gpu-operator'' ''Foreground'' d, Get_Gpu n (Inr g)]"
    unfolding tail by simp
  with tail show ?thesis by auto
qed

text \<open>C3: Helm installs only what the cluster and the resource call for: whenever a reconciliation
  calls InstallOrUpgrade, it has read the resource named \<open>gpu\<close>, not under deletion and with our
  finalizer, then listed the nodes, on which exactly one supported operating system was found
  among the GPU nodes; the chart is the embedded one with the latest version, and the values are
  those that BuildValues makes of the resource's spec for that operating system.\<close>

theorem install_guarded:
  assumes "trace_of (reconcile R req) w = past @ Install_Call data vals r # later"
  shows "\<exists>n g nodes os. past = [Get_Gpu n (Inr g), List_Nodes (Inr nodes)] \<and>
    is_zero_time (deletion_timestamp g) \<and> has_finalizer (r_kube R) g \<and> gpu_name g = ''gpu'' \<and>
    detected (unicode_lower (r_kube R)) nodes = {(os, True)} \<and>
    gpu_operator_chart (r_assets R) = Inr data \<and>
    build_values (r_assets R) (r_yaml R) (gpu_spec_of g) \<lparr>cluster_os = os\<rparr> = Done (Inr vals)"
proof -
  from reconcile_allowed [OF assms] obtain n g nodes where
    past: "past = [Get_Gpu n (Inr g), List_Nodes (Inr nodes)]" "in_service (r_kube R) g"
    and proceed: "pre_outcome (preflight_of (r_kube R) nodes) = OutcomeProceed"
    and args: "gpu_operator_chart (r_assets R) = Inr data"
      "build_values (r_assets R) (r_yaml R) (gpu_spec_of g)
         \<lparr>cluster_os = pre_os (preflight_of (r_kube R) nodes)\<rparr> = Done (Inr vals)"
    by (auto simp: install_allowed_def)
  from proceed have "detected (unicode_lower (r_kube R)) nodes = {(pre_os (preflight_of (r_kube R) nodes), True)}"
    using preflight_proceed_iff by (metis preflight_of_def)
  with past args show ?thesis
    unfolding in_service_def expected_cr_name_def by blast
qed

theorem install_guarded_witness:
  "\<exists>n g nodes. take 2 ref_install_trace = [Get_Gpu n (Inr g), List_Nodes (Inr nodes)] \<and> gpu_name g = ''gpu''"
proof -
  obtain data vals r where "ref_install_trace ! 2 = Install_Call data vals r"
    using ref_install_calls(1) by (cases "ref_install_trace ! 2") auto
  then have "ref_install_trace = take 2 ref_install_trace @ Install_Call data vals r # drop (Suc 2) ref_install_trace"
    by (intro ref_install_at) simp_all
  from install_guarded [OF this [unfolded ref_install_trace_def], folded ref_install_trace_def]
  show ?thesis by blast
qed

text \<open>C5: Only the singleton drives Helm: when the resource read is not named \<open>gpu\<close>, the
  reconciliation makes no Helm call and deletes no namespace, whatever its deletion timestamp,
  its finalizers and its spec are.\<close>

theorem rogue_never_touches_release:
  assumes "gpu_read (trace_of (reconcile R req) w) = Some g" and "gpu_name g \<noteq> ''gpu''"
  shows "list_all (\<lambda>e. \<not> touches_release e) (trace_of (reconcile R req) w)"
  unfolding list_all_iff
proof (intro ballI notI)
  fix e assume "e \<in> set (trace_of (reconcile R req) w)" and touches: "touches_release e"
  then obtain past later where split: "trace_of (reconcile R req) w = past @ e # later" by (meson split_list)
  obtain h where "gpu_read past = Some h" and "gpu_name h = expected_cr_name"
    using touches_release_singleton [OF reconcile_allowed [OF split] touches] by blast
  with gpu_read_append [of past h "e # later"] assms split show False
    by (simp add: expected_cr_name_def)
qed

definition ref_rogue :: cluster where
  "ref_rogue = ref_cluster\<lparr>cl_gpu := Some (ref_gpu\<lparr>gpu_name := ''other'', deletion_timestamp := Some 5\<rparr>)\<rparr>"

lemma ref_rogue_run:
  "gpu_read (trace_of (reconcile ref_reconciler ''other'') ref_rogue) =
     Some (ref_gpu\<lparr>gpu_name := ''other'', deletion_timestamp := Some 5\<rparr>)"
  by code_simp

theorem rogue_never_touches_release_witness:
  "list_all (\<lambda>e. \<not> touches_release e) (trace_of (reconcile ref_reconciler ''other'') ref_rogue)"
  by (rule rogue_never_touches_release [OF ref_rogue_run]) simp

text \<open>C4: Ready is never reported without cause: a status patch that makes the Ready condition
  True follows, in the same reconciliation, a listing of nodes with a single supported operating
  system on the GPU nodes, an InstallOrUpgrade that succeeded, a listing of the driver
  DaemonSets that the driver check accepts, and a reading of a ClusterPolicy whose state is
  \<open>ready\<close>. The check compares int32 sums; when the counters are in range and their sum does not
  overflow, accepting means that every listed DaemonSet is complete and some pod is scheduled.\<close>

theorem ready_true_sound:
  assumes "kube_library (r_kube R)"
    and "trace_of (reconcile R req) w = past @ Patch_Status live original e # later"
    and "find_condition (r_kube R) (gpu_conditions live) ''Ready'' = Some c" and "c_status c = ''True''"
    and "find_condition (r_kube R) (gpu_conditions original) ''Ready'' \<noteq> Some c"
  shows "\<exists>earlier n nodes os data vals changed items object.
    past = earlier @ [List_Nodes (Inr nodes), Install_Call data vals (Done (Inr changed)),
       List_Daemon_Sets ''gpu-operator'' [(''app'', ''nvidia-driver-daemonset'')] (Inr items),
       Get_Object cluster_policy_gvk ''cluster-policy'' (Inr object), Get_Gpu n (Inr original)] \<and>
    detected (unicode_lower (r_kube R)) nodes = {(os, True)} \<and>
    fst (fst (observe_daemon_sets items)) = ''True'' \<and>
    (list_all ds_sane items \<and> sum_field ds_desired items < 2 ^ 31 \<longrightarrow>
       list_all ds_complete items \<and> \<not> list_all (\<lambda>d. ds_desired d = 0) items) \<and>
    fst (nested_string (r_kube R) object [''status'', ''state'']) = ''ready''"
proof -
  have "patch_allowed R past live original" using reconcile_allowed [OF assms(2)] by simp
  from patch_ready_true [OF assms(1) this assms(3-5)]
  obtain earlier n p items nodes os where "past = earlier @ [Get_Gpu n (Inr original)]"
    and "report_chain earlier (Inr p) (Inr items) nodes"
    and rest: "detected (unicode_lower (r_kube R)) nodes = {(os, True)}"
      "fst (fst (observe_daemon_sets items)) = ''True''"
      "fst (nested_string (r_kube R) p [''status'', ''state'']) = ''ready''" .
  then obtain before data vals changed where
    "past = before @ [List_Nodes (Inr nodes), Install_Call data vals (Done (Inr changed)),
       List_Daemon_Sets ''gpu-operator'' [(''app'', ''nvidia-driver-daemonset'')] (Inr items),
       Get_Object cluster_policy_gvk ''cluster-policy'' (Inr p), Get_Gpu n (Inr original)]"
    unfolding report_chain_def gpu_operator_namespace_def driver_app_label_def cluster_policy_name_def by auto
  moreover have "list_all ds_sane items \<and> sum_field ds_desired items < 2 ^ 31 \<longrightarrow>
       list_all ds_complete items \<and> \<not> list_all (\<lambda>d. ds_desired d = 0) items"
    using observed_ready_iff [of items] rest(2) by simp
  ultimately show ?thesis using rest by blast
qed

theorem ready_true_sound_witness:
  "\<exists>earlier nodes data vals changed items object n g. take 6 ref_install_trace =
     earlier @ [List_Nodes (Inr nodes), Install_Call data vals (Done (Inr changed)),
       List_Daemon_Sets ''gpu-operator'' [(''app'', ''nvidia-driver-daemonset'')] (Inr items),
       Get_Object cluster_policy_gvk ''cluster-policy'' (Inr object), Get_Gpu n (Inr g)]"
proof -
  obtain live original e c where patch: "ref_install_trace ! 6 = Patch_Status live original e"
    and c: "find_cond_list (gpu_conditions live) ''Ready'' = Some c" "c_status c = ''True''"
      "find_cond_list (gpu_conditions original) ''Ready'' = None"
    using ref_install_calls(2) by (cases "ref_install_trace ! 6") auto
  from patch have at: "ref_install_trace = take 6 ref_install_trace @ Patch_Status live original e # drop (Suc 6) ref_install_trace"
    by (intro ref_install_at) simp_all
  have find: "find_condition (r_kube ref_reconciler) = find_cond_list"
    by (simp add: ref_reconciler_def ref_kube_def)
  have lib: "kube_library (r_kube ref_reconciler)"
    by (simp add: ref_reconciler_def ref.kube_library_axioms)
  from ready_true_sound [OF lib at [unfolded ref_install_trace_def], folded ref_install_trace_def] find c
  show ?thesis by (metis option.distinct(1))
qed

text \<open>C6: A blocked deletion stops there: when the listing of the pods shows an active GPU workload,
  the reconciliation makes no Helm call, deletes no namespace, keeps the finalizer (it updates
  no object), and asks to be run again after 30 seconds.\<close>

theorem blocked_deletion_waits:
  assumes "List_Pods (Inr pods) \<in> set (trace_of (reconcile R req) w)" and "active_workloads pods \<noteq> []"
  shows "result_of (reconcile R req) w = Done (\<lparr>requeue_after = 30 * second\<rparr>, None) \<and>
    list_all (\<lambda>e. \<not> touches_release e \<and> \<not> is_update e) (trace_of (reconcile R req) w)"
proof -
  have "blocked_log (trace_of (reconcile R req) w)" using assms by (auto simp: blocked_log_def)
  then show ?thesis
    using wp_reconcile_stops_when_blocked [of R req w]
    by (simp add: wp_def trace_of_def result_of_def harmless_def requeue_later_def requeue_warn_def list_all_iff
        split: prod.splits)
qed

definition ref_blocked :: cluster where
  "ref_blocked = ref_deleted\<lparr>cl_pods := [ref_pod]\<rparr>"

lemma ref_blocked_run:
  "length (trace_of (reconcile ref_reconciler ''gpu'') ref_blocked) = 6"
  "(case trace_of (reconcile ref_reconciler ''gpu'') ref_blocked ! 3 of
      List_Pods (Inr pods) \<Rightarrow> active_workloads pods = [''default/train''] | _ \<Rightarrow> False)"
  by code_simp+

theorem blocked_deletion_waits_witness:
  "result_of (reconcile ref_reconciler ''gpu'') ref_blocked = Done (\<lparr>requeue_after = 30 * second\<rparr>, None)"
proof -
  let ?tr = "trace_of (reconcile ref_reconciler ''gpu'') ref_blocked"
  obtain pods where pods: "?tr ! 3 = List_Pods (Inr pods)" "active_workloads pods = [''default/train'']"
    using ref_blocked_run(2) by (cases "?tr ! 3") (auto split: sum.splits)
  have "3 < length ?tr" by (simp add: ref_blocked_run(1))
  from nth_mem [OF this] pods(1) have "List_Pods (Inr pods) \<in> set ?tr" by (simp only:)
  from blocked_deletion_waits [OF this] pods(2) show ?thesis by simp
qed

text \<open>C10: Nothing stalls: a reconciliation that does not panic ends with an error (the queue retries
  it with back-off; no requeue is set), or asks to be run again after 30 seconds, or has reached
  a state in which only an event can change anything: the object is gone or is about to go, an
  update of its finalizers was accepted, it is not the singleton, or the preflight check found a
  hard error. A panic, of which nothing is said here, is retried by the queue like an error.\<close>

theorem reconcile_never_stalls: "no_stall R (result_of (reconcile R req) w) (trace_of (reconcile R req) w)"
  using wp_reconcile_no_stall [of R req w] by (simp add: wp_def trace_of_def result_of_def split: prod.splits)





end
